(* ===== verification/Prelude.thy ===== *)
theory Prelude
  imports Complex_Main "HOL-Library.Multiset"
begin

text \<open>
  Shared vocabulary of the checkout development: Go errors with their wrapping chain,
  the result of a Go call (value, error or panic), calls that also change a state, and
  the generic facts on lists and on these types that the component theories rely on.
\<close>

section \<open>Automation\<close>

named_theorems go_simps \<open>unfolding rules for results and stateful calls\<close>
named_theorems keeps_intros \<open>composition rules for invariant preservation\<close>

section \<open>Errors\<close>

text \<open>
  The sentinels are the package-level error variables of the repository. \<open>ErrExt\<close> is
  an error of the standard library or of a third-party package, identified by a text.
  \<open>Wrap p e q\<close> is \<^verbatim>\<open>fmt.Errorf\<close> with one \<^verbatim>\<open>%w\<close> verb between the texts \<open>p\<close> and \<open>q\<close>;
  \<open>Join\<close> is \<^verbatim>\<open>errors.Join\<close>.
\<close>

datatype error =
    ErrMethodNotAllowed
  | ErrInvalidInput
  | ErrNotFound
  | ErrMalformedEvent
  | ErrOutboxItemNotFound
  | ErrUnauthenticated
  | ErrNotConsumer
  | ErrExt string
  | Wrap string error string
  | Join "error list"

fun join_lines :: "string list \<Rightarrow> string" where
  "join_lines [] = []"
| "join_lines [x] = x"
| "join_lines (x # xs) = x @ CHR 0x0A # join_lines xs"

fun error_string :: "error \<Rightarrow> string" where
  "error_string ErrMethodNotAllowed = ''method not allowed''"
| "error_string ErrInvalidInput = ''invalid input''"
| "error_string ErrNotFound = ''not found''"
| "error_string ErrMalformedEvent = ''malformed event''"
| "error_string ErrOutboxItemNotFound = ''outbox item not found''"
| "error_string ErrUnauthenticated = ''unauthenticated''"
| "error_string ErrNotConsumer = ''client is not configured to consume''"
| "error_string (ErrExt m) = m"
| "error_string (Wrap p e q) = p @ error_string e @ q"
| "error_string (Join es) = join_lines (map error_string es)"

text \<open>\<^verbatim>\<open>errors.Is\<close>: the target is the error itself or is wrapped by it.\<close>

fun errors_is :: "error \<Rightarrow> error \<Rightarrow> bool" where
  "errors_is (Wrap p e q) t = (Wrap p e q = t \<or> errors_is e t)"
| "errors_is (Join es) t = (Join es = t \<or> list_ex (\<lambda>e. errors_is e t) es)"
| "errors_is e t = (e = t)"

lemma errors_is_refl [simp]: "errors_is e e"
  by (cases e) simp_all

section \<open>Results\<close>

text \<open>
  The outcome of a Go call: a value, a non-nil error, or a panic that unwinds the caller.
\<close>

datatype 'a res = Ok 'a | Fail error | Panic

fun is_ok :: "'a res \<Rightarrow> bool" where
  "is_ok (Ok _) = True"
| "is_ok _ = False"

fun bindR :: "'a res \<Rightarrow> ('a \<Rightarrow> 'b res) \<Rightarrow> 'b res" where
  "bindR (Ok a) f = f a"
| "bindR (Fail e) f = Fail e"
| "bindR Panic f = Panic"

fun mapR :: "('a \<Rightarrow> 'b) \<Rightarrow> 'a res \<Rightarrow> 'b res" where
  "mapR f (Ok a) = Ok (f a)"
| "mapR f (Fail e) = Fail e"
| "mapR f Panic = Panic"

text \<open>\<^verbatim>\<open>if err != nil { return nil, wrap(err) }\<close>: rewrite the error of a failed call.\<close>

fun wrapR :: "(error \<Rightarrow> error) \<Rightarrow> 'a res \<Rightarrow> 'a res" where
  "wrapR w (Ok a) = Ok a"
| "wrapR w (Fail e) = Fail (w e)"
| "wrapR w Panic = Panic"

lemma bindR_eq_Ok: "bindR m f = Ok b \<longleftrightarrow> (\<exists>a. m = Ok a \<and> f a = Ok b)"
  by (cases m) auto

lemma wrapR_eq_Ok [simp]: "wrapR w m = Ok a \<longleftrightarrow> m = Ok a"
  by (cases m) auto

lemma wrapR_eq_Panic [simp]: "wrapR w m = Panic \<longleftrightarrow> m = Panic"
  by (cases m) auto

lemma is_ok_iff: "is_ok r \<longleftrightarrow> (\<exists>a. r = Ok a)"
  by (cases r) auto

section \<open>Stateful calls\<close>

text \<open>
  A call that reads or changes a state (a database handle, a broker connection): it
  returns its outcome together with the new state.
\<close>

type_synonym ('s, 'a) io = "'s \<Rightarrow> 'a res \<times> 's"

definition returnS :: "'a \<Rightarrow> ('s, 'a) io" where
  "returnS a = (\<lambda>s. (Ok a, s))"

definition failS :: "error \<Rightarrow> ('s, 'a) io" where
  "failS e = (\<lambda>s. (Fail e, s))"

definition panicS :: "('s, 'a) io" where
  "panicS = (\<lambda>s. (Panic, s))"

definition liftS :: "'a res \<Rightarrow> ('s, 'a) io" where
  "liftS r = (\<lambda>s. (r, s))"

definition bindS :: "('s, 'a) io \<Rightarrow> ('a \<Rightarrow> ('s, 'b) io) \<Rightarrow> ('s, 'b) io" where
  "bindS m f = (\<lambda>s. case m s of
      (Ok a, s') \<Rightarrow> f a s'
    | (Fail e, s') \<Rightarrow> (Fail e, s')
    | (Panic, s') \<Rightarrow> (Panic, s'))"

definition wrapS :: "(error \<Rightarrow> error) \<Rightarrow> ('s, 'a) io \<Rightarrow> ('s, 'a) io" where
  "wrapS w m = (\<lambda>s. case m s of (r, s') \<Rightarrow> (wrapR w r, s'))"

lemma returnS_apply [simp, go_simps]: "returnS a s = (Ok a, s)"
  by (simp add: returnS_def)

lemma failS_apply [simp, go_simps]: "failS e s = (Fail e, s)"
  by (simp add: failS_def)

lemma panicS_apply [simp, go_simps]: "panicS s = (Panic, s)"
  by (simp add: panicS_def)

lemma liftS_apply [simp, go_simps]: "liftS r s = (r, s)"
  by (simp add: liftS_def)

lemma bindS_cases [go_simps]:
  "m s = (Ok a, s') \<Longrightarrow> bindS m f s = f a s'"
  "m s = (Fail e, s') \<Longrightarrow> bindS m f s = (Fail e, s')"
  "m s = (Panic, s') \<Longrightarrow> bindS m f s = (Panic, s')"
  by (simp_all add: bindS_def)

lemma wrapS_cases [go_simps]:
  "m s = (Ok a, s') \<Longrightarrow> wrapS w m s = (Ok a, s')"
  "m s = (Fail e, s') \<Longrightarrow> wrapS w m s = (Fail (w e), s')"
  "m s = (Panic, s') \<Longrightarrow> wrapS w m s = (Panic, s')"
  by (simp_all add: wrapS_def)

lemma bindS_eq_Ok:
  "bindS m f s = (Ok b, t) \<longleftrightarrow> (\<exists>a s'. m s = (Ok a, s') \<and> f a s' = (Ok b, t))"
  by (auto simp: bindS_def split: prod.splits res.splits)

lemma wrapS_eq_Ok: "wrapS w m s = (Ok a, t) \<longleftrightarrow> m s = (Ok a, t)"
  by (auto simp: wrapS_def split: prod.splits)

lemma snd_wrapS [simp]: "snd (wrapS w m s) = snd (m s)"
  by (simp add: wrapS_def split: prod.split)

subsection \<open>Preservation of a state predicate\<close>

definition keeps :: "('s \<Rightarrow> bool) \<Rightarrow> ('s, 'a) io \<Rightarrow> bool" where
  "keeps I m \<longleftrightarrow> (\<forall>s. I s \<longrightarrow> I (snd (m s)))"

lemma keepsI [intro]: "(\<And>s. I s \<Longrightarrow> I (snd (m s))) \<Longrightarrow> keeps I m"
  by (simp add: keeps_def)

lemma keepsD: "keeps I m \<Longrightarrow> m s = (r, t) \<Longrightarrow> I s \<Longrightarrow> I t"
  by (metis keeps_def snd_conv)

lemma keeps_basic [simp, keeps_intros]:
  "keeps I (returnS a)" "keeps I (failS e)" "keeps I panicS" "keeps I (liftS r)"
  by (auto simp: keeps_def)

lemma keeps_bindS [keeps_intros]:
  assumes "keeps I m" and "\<And>a. keeps I (f a)"
  shows "keeps I (bindS m f)"
proof
  fix s assume "I s"
  moreover obtain r s' where m: "m s = (r, s')" by fastforce
  ultimately have "I s'" using assms(1) keepsD by metis
  with m assms(2) show "I (snd (bindS m f s))"
    by (cases r) (auto simp: bindS_def keeps_def)
qed

lemma keeps_wrapS [keeps_intros]: "keeps I m \<Longrightarrow> keeps I (wrapS w m)"
  by (simp add: keeps_def)

section \<open>Lists\<close>

lemma distinct_map_inj_on: "distinct (map f xs) \<Longrightarrow> x \<in> set xs \<Longrightarrow> y \<in> set xs \<Longrightarrow> f x = f y \<Longrightarrow> x = y"
  by (metis distinct_map inj_onD)

lemma filter_key_singleton:
  assumes "distinct (map f xs)" and "x \<in> set xs"
  shows "filter (\<lambda>y. f y = f x) xs = [x]"
  using assms
proof (induction xs)
  case Nil
  then show ?case by simp
next
  case (Cons a xs)
  show ?case
  proof (cases "x = a")
    case True
    then have "filter (\<lambda>y. f y = f x) xs = []"
      using Cons.prems(1) by (auto simp: filter_empty_conv image_iff)
    with True show ?thesis by simp
  next
    case False
    with Cons.prems have "f a \<noteq> f x" "x \<in> set xs" by auto
    with Cons show ?thesis by simp
  qed
qed

lemma length_filter_key_le1:
  "distinct (map f xs) \<Longrightarrow> length (filter (\<lambda>y. f y = k) xs) \<le> 1"
  by (induction xs) (auto simp: filter_empty_conv image_iff)

end
