(* ===== verification/Go_Json.thy ===== *)
theory Go_Json
  imports Prelude
begin

text \<open>
  The part of Go's \<^verbatim>\<open>encoding/json\<close> the repository uses, on the bytes themselves: the
  compact encoder with its string escaping, the parser with the scanner's grammar, the
  raw text of object members (\<^verbatim>\<open>json.RawMessage\<close>) and the compaction that re-encoding a
  raw message performs. The main result is that parsing an encoded value gives the value
  back, whatever delimiter follows it.
\<close>

section \<open>Values\<close>

text \<open>A number is kept as its literal, as the decoder does before it knows the target type.\<close>

datatype json =
    JNull
  | JBool bool
  | JNum string
  | JStr string
  | JArr "json list"
  | JObj "(string \<times> json) list"

section \<open>UTF-8\<close>

definition cont_byte :: "char \<Rightarrow> bool" where
  "cont_byte c \<longleftrightarrow> 0x80 \<le> (of_char c :: nat) \<and> (of_char c :: nat) \<le> 0xBF"

definition byte_in :: "char \<Rightarrow> nat \<Rightarrow> nat \<Rightarrow> bool" where
  "byte_in c lo hi \<longleftrightarrow> lo \<le> of_char c \<and> of_char c \<le> hi"

text \<open>
  The length of the well-formed multi-byte sequence at the head of a string, 0 when there
  is none (\<^verbatim>\<open>utf8.DecodeRuneInString\<close> then reports \<^verbatim>\<open>RuneError\<close> of width 1).
\<close>

definition seq2 :: "char \<Rightarrow> char \<Rightarrow> bool" where
  "seq2 a b \<longleftrightarrow> byte_in a 0xC2 0xDF \<and> cont_byte b"

definition seq3 :: "char \<Rightarrow> char \<Rightarrow> char \<Rightarrow> bool" where
  "seq3 a b c \<longleftrightarrow>
     (byte_in a 0xE0 0xE0 \<and> byte_in b 0xA0 0xBF \<or> byte_in a 0xE1 0xEC \<and> cont_byte b \<or>
      byte_in a 0xED 0xED \<and> byte_in b 0x80 0x9F \<or> byte_in a 0xEE 0xEF \<and> cont_byte b) \<and> cont_byte c"

definition seq4 :: "char \<Rightarrow> char \<Rightarrow> char \<Rightarrow> char \<Rightarrow> bool" where
  "seq4 a b c d \<longleftrightarrow>
     (byte_in a 0xF0 0xF0 \<and> byte_in b 0x90 0xBF \<or> byte_in a 0xF1 0xF3 \<and> cont_byte b \<or>
      byte_in a 0xF4 0xF4 \<and> byte_in b 0x80 0x8F) \<and> cont_byte c \<and> cont_byte d"

fun utf8_len :: "string \<Rightarrow> nat" where
  "utf8_len (a # b # c # d # _) =
     (if seq2 a b then 2 else if seq3 a b c then 3 else if seq4 a b c d then 4 else 0)"
| "utf8_len [a, b, c] = (if seq2 a b then 2 else if seq3 a b c then 3 else 0)"
| "utf8_len [a, b] = (if seq2 a b then 2 else 0)"
| "utf8_len _ = 0"

definition ascii :: "char \<Rightarrow> bool" where
  "ascii c \<longleftrightarrow> (of_char c :: nat) < 0x80"

text \<open>Strings that are valid UTF-8, which is what Go source and JSON texts hold.\<close>

function utf8_valid :: "string \<Rightarrow> bool" where
  "utf8_valid [] = True"
| "utf8_valid (c # cs) =
     (if ascii c then utf8_valid cs
      else utf8_len (c # cs) \<noteq> 0 \<and> utf8_valid (drop (utf8_len (c # cs) - 1) cs))"
  by pat_completeness auto
termination by (relation "measure length") auto

definition byte :: "nat \<Rightarrow> char" where
  "byte n = char_of n"

text \<open>\<^verbatim>\<open>utf8.AppendRune\<close> for code points of the basic plane and above.\<close>

definition encode_rune :: "nat \<Rightarrow> string" where
  "encode_rune r =
     (if r < 0x80 then [byte r]
      else if r < 0x800 then [byte (0xC0 + r div 64), byte (0x80 + r mod 64)]
      else if r < 0x10000 then
        [byte (0xE0 + r div 4096), byte (0x80 + r div 64 mod 64), byte (0x80 + r mod 64)]
      else [byte (0xF0 + r div 262144), byte (0x80 + r div 4096 mod 64),
            byte (0x80 + r div 64 mod 64), byte (0x80 + r mod 64)])"

section \<open>Encoding\<close>

definition hex_digit :: "nat \<Rightarrow> char" where
  "hex_digit n = ''0123456789abcdef'' ! (n mod 16)"

abbreviation quote_char :: char where "quote_char \<equiv> CHR 0x22"

abbreviation backslash :: char where "backslash \<equiv> CHR 0x5C"

definition u_escape :: "nat \<Rightarrow> string" where
  "u_escape n = [backslash, CHR ''u'', hex_digit (n div 4096), hex_digit (n div 256),
                 hex_digit (n div 16), hex_digit n]"

text \<open>An ASCII byte inside a quoted string, with the HTML escaping \<^verbatim>\<open>json.Marshal\<close> applies.\<close>

definition esc_ascii :: "char \<Rightarrow> string" where
  "esc_ascii c =
     (if c = quote_char \<or> c = backslash then [backslash, c]
      else if c = CHR 0x08 then [backslash, CHR ''b'']
      else if c = CHR 0x0C then [backslash, CHR ''f'']
      else if c = CHR 0x0A then [backslash, CHR ''n'']
      else if c = CHR 0x0D then [backslash, CHR ''r'']
      else if c = CHR 0x09 then [backslash, CHR ''t'']
      else if (of_char c :: nat) < 0x20 \<or> c = CHR ''<'' \<or> c = CHR ''>'' \<or> c = CHR ''&''
        then u_escape (of_char c)
      else [c])"

definition line_sep :: string where "line_sep = [CHR 0xE2, CHR 0x80, CHR 0xA8]"
definition para_sep :: string where "para_sep = [CHR 0xE2, CHR 0x80, CHR 0xA9]"

text \<open>Quoting continues after a string: the closing quote is added by the caller.\<close>

function quote_body :: "string \<Rightarrow> string" where
  "quote_body [] = []"
| "quote_body (c # cs) =
     (if ascii c then esc_ascii c @ quote_body cs
      else let n = utf8_len (c # cs) in
        if n = 0 then u_escape 0xFFFD @ quote_body cs
        else if take n (c # cs) = line_sep then u_escape 0x2028 @ quote_body (drop (n - 1) cs)
        else if take n (c # cs) = para_sep then u_escape 0x2029 @ quote_body (drop (n - 1) cs)
        else take n (c # cs) @ quote_body (drop (n - 1) cs))"
  by pat_completeness auto
termination by (relation "measure length") auto

definition quote :: "string \<Rightarrow> string" where
  "quote s = quote_char # quote_body s @ [quote_char]"

fun comma_sep :: "string list \<Rightarrow> string" where
  "comma_sep [] = []"
| "comma_sep [x] = x"
| "comma_sep (x # xs) = x @ CHR '','' # comma_sep xs"

text \<open>\<^verbatim>\<open>json.Marshal\<close> of a value, compact.\<close>

fun print_json :: "json \<Rightarrow> string" where
  "print_json JNull = ''null''"
| "print_json (JBool b) = (if b then ''true'' else ''false'')"
| "print_json (JNum l) = l"
| "print_json (JStr s) = quote s"
| "print_json (JArr js) = CHR ''['' # comma_sep (map print_json js) @ '']''"
| "print_json (JObj ms) =
     CHR ''{'' # comma_sep (map (\<lambda>(k, v). quote k @ CHR '':'' # print_json v) ms) @ ''}''"

section \<open>Parsing\<close>

definition is_ws :: "char \<Rightarrow> bool" where
  "is_ws c \<longleftrightarrow> c = CHR '' '' \<or> c = CHR 0x09 \<or> c = CHR 0x0A \<or> c = CHR 0x0D"

definition skip_ws :: "string \<Rightarrow> string" where
  "skip_ws s = dropWhile is_ws s"

definition hex_val :: "char \<Rightarrow> nat option" where
  "hex_val c =
     (if byte_in c 0x30 0x39 then Some (of_char c - 0x30)
      else if byte_in c 0x61 0x66 then Some (of_char c - 0x61 + 10)
      else if byte_in c 0x41 0x46 then Some (of_char c - 0x41 + 10)
      else None)"

fun hex4 :: "string \<Rightarrow> (nat \<times> string) option" where
  "hex4 (a # b # c # d # rest) =
     (case (hex_val a, hex_val b, hex_val c, hex_val d) of
        (Some w, Some x, Some y, Some z) \<Rightarrow> Some (w * 4096 + x * 256 + y * 16 + z, rest)
      | _ \<Rightarrow> None)"
| "hex4 _ = None"

definition prepend :: "string \<Rightarrow> (string \<times> string) option \<Rightarrow> (string \<times> string) option" where
  "prepend p r = map_option (\<lambda>(s, rest). (p @ s, rest)) r"

lemma hex4_length: "hex4 s = Some (n, rest) \<Longrightarrow> length rest < length s"
  by (cases s rule: hex4.cases) (auto split: option.splits prod.splits)

text \<open>
  The rune a \<^verbatim>\<open>\uXXXX\<close> escape denotes and the input after it: a surrogate pair is combined,
  a lone surrogate becomes U+FFFD.
\<close>

definition u_rune :: "nat \<Rightarrow> string \<Rightarrow> nat \<times> string" where
  "u_rune r rest =
     (if \<not> (0xD800 \<le> r \<and> r < 0xE000) then (r, rest)
      else case rest of
        b # u # rest' \<Rightarrow>
          (case (if b = backslash \<and> u = CHR ''u'' \<and> r < 0xDC00 then hex4 rest' else None) of
             Some (r2, rest'') \<Rightarrow>
               (if 0xDC00 \<le> r2 \<and> r2 < 0xE000
                then (0x10000 + (r - 0xD800) * 0x400 + (r2 - 0xDC00), rest'')
                else (0xFFFD, rest))
           | None \<Rightarrow> (0xFFFD, rest))
      | _ \<Rightarrow> (0xFFFD, rest))"

lemma u_rune_length: "length (snd (u_rune r rest)) \<le> length rest"
  by (auto simp: u_rune_def split: list.splits option.splits dest!: hex4_length)

text \<open>The body of a string literal up to its closing quote.\<close>

function parse_str_body :: "string \<Rightarrow> (string \<times> string) option" where
  "parse_str_body [] = None"
| "parse_str_body (c # cs) =
     (if c = quote_char then Some ([], cs)
      else if c = backslash then
        (case cs of
           [] \<Rightarrow> None
         | e # cs' \<Rightarrow>
             if e = quote_char \<or> e = backslash \<or> e = CHR ''/'' then prepend [e] (parse_str_body cs')
             else if e = CHR ''b'' then prepend [CHR 0x08] (parse_str_body cs')
             else if e = CHR ''f'' then prepend [CHR 0x0C] (parse_str_body cs')
             else if e = CHR ''n'' then prepend [CHR 0x0A] (parse_str_body cs')
             else if e = CHR ''r'' then prepend [CHR 0x0D] (parse_str_body cs')
             else if e = CHR ''t'' then prepend [CHR 0x09] (parse_str_body cs')
             else if e = CHR ''u'' then
               (case hex4 cs' of
                  None \<Rightarrow> None
                | Some (r, rest) \<Rightarrow>
                    prepend (encode_rune (fst (u_rune r rest))) (parse_str_body (snd (u_rune r rest))))
             else None)
      else if (of_char c :: nat) < 0x20 then None
      else if ascii c then prepend [c] (parse_str_body cs)
      else let n = utf8_len (c # cs) in
        if n = 0 then prepend (encode_rune 0xFFFD) (parse_str_body cs)
        else prepend (take n (c # cs)) (parse_str_body (drop (n - 1) cs)))"
  by pat_completeness auto
termination
  by (relation "measure length")
    (auto dest!: hex4_length intro: le_less_trans [OF u_rune_length] less_trans)

definition is_digit :: "char \<Rightarrow> bool" where
  "is_digit c \<longleftrightarrow> byte_in c 0x30 0x39"

definition num_char :: "char \<Rightarrow> bool" where
  "num_char c \<longleftrightarrow> is_digit c \<or> c = CHR ''-'' \<or> c = CHR ''+'' \<or> c = CHR ''.'' \<or>
     c = CHR ''e'' \<or> c = CHR ''E''"

definition nonempty_digits :: "string \<Rightarrow> bool" where
  "nonempty_digits s \<longleftrightarrow> s \<noteq> [] \<and> list_all is_digit s"

definition valid_exp :: "string \<Rightarrow> bool" where
  "valid_exp s = (case s of
      [] \<Rightarrow> True
    | e # ds \<Rightarrow> (e = CHR ''e'' \<or> e = CHR ''E'') \<and>
        (case ds of [] \<Rightarrow> False
         | d # ds' \<Rightarrow> if d = CHR ''+'' \<or> d = CHR ''-'' then nonempty_digits ds'
                    else nonempty_digits ds))"

definition valid_frac :: "string \<Rightarrow> bool" where
  "valid_frac s = (case s of
      [] \<Rightarrow> True
    | c # cs \<Rightarrow> if c = CHR ''.''
        then takeWhile is_digit cs \<noteq> [] \<and> valid_exp (dropWhile is_digit cs)
        else valid_exp s)"

definition valid_unsigned :: "string \<Rightarrow> bool" where
  "valid_unsigned s = (case s of
      [] \<Rightarrow> False
    | c # cs \<Rightarrow> if c = CHR ''0'' then valid_frac cs
        else is_digit c \<and> valid_frac (dropWhile is_digit cs))"

text \<open>The number grammar of RFC 8259 that the scanner enforces.\<close>

definition valid_num :: "string \<Rightarrow> bool" where
  "valid_num s = (case s of
      [] \<Rightarrow> False
    | c # cs \<Rightarrow> if c = CHR ''-'' then valid_unsigned cs else valid_unsigned s)"

fun strip_prefix :: "string \<Rightarrow> string \<Rightarrow> string option" where
  "strip_prefix [] s = Some s"
| "strip_prefix (p # ps) [] = None"
| "strip_prefix (p # ps) (c # cs) = (if p = c then strip_prefix ps cs else None)"

definition parse_lit :: "string \<Rightarrow> json \<Rightarrow> string \<Rightarrow> (json \<times> string) option" where
  "parse_lit l j s = map_option (Pair j) (strip_prefix l s)"

text \<open>
  The parser for one value and for the tails of arrays and objects. The first argument is
  fuel; \<open>parse_value_print\<close> below shows that the length of the input suffices for every
  encoded value.
\<close>

fun parse_value :: "nat \<Rightarrow> string \<Rightarrow> (json \<times> string) option"
  and parse_elems :: "nat \<Rightarrow> string \<Rightarrow> (json list \<times> string) option"
  and parse_members :: "nat \<Rightarrow> string \<Rightarrow> ((string \<times> json) list \<times> string) option"
where
  "parse_value 0 s = None"
| "parse_value (Suc f) s =
     (case skip_ws s of
        [] \<Rightarrow> None
      | c # cs \<Rightarrow>
          if c = CHR ''n'' then parse_lit ''null'' JNull (c # cs)
          else if c = CHR ''t'' then parse_lit ''true'' (JBool True) (c # cs)
          else if c = CHR ''f'' then parse_lit ''false'' (JBool False) (c # cs)
          else if c = quote_char then map_option (\<lambda>(t, r). (JStr t, r)) (parse_str_body cs)
          else if c = CHR ''['' then
            (case skip_ws cs of
               [] \<Rightarrow> None
             | d # ds \<Rightarrow>
                 if d = CHR '']'' then Some (JArr [], ds)
                 else map_option (\<lambda>(js, r). (JArr js, r)) (parse_elems f (d # ds)))
          else if c = CHR ''{'' then
            (case skip_ws cs of
               [] \<Rightarrow> None
             | d # ds \<Rightarrow>
                 if d = CHR ''}'' then Some (JObj [], ds)
                 else map_option (\<lambda>(ms, r). (JObj ms, r)) (parse_members f (d # ds)))
          else if valid_num (takeWhile num_char (c # cs))
            then Some (JNum (takeWhile num_char (c # cs)), dropWhile num_char (c # cs))
          else None)"
| "parse_elems 0 s = None"
| "parse_elems (Suc f) s =
     (case parse_value f s of
        None \<Rightarrow> None
      | Some (j, r) \<Rightarrow>
          (case skip_ws r of
             [] \<Rightarrow> None
           | d # ds \<Rightarrow>
               if d = CHR '']'' then Some ([j], ds)
               else if d = CHR '','' then map_option (\<lambda>(js, r'). (j # js, r')) (parse_elems f ds)
               else None))"
| "parse_members 0 s = None"
| "parse_members (Suc f) s =
     (case skip_ws s of
        [] \<Rightarrow> None
      | c # cs \<Rightarrow>
          if c \<noteq> quote_char then None
          else (case parse_str_body cs of
             None \<Rightarrow> None
           | Some (k, r) \<Rightarrow>
               (case skip_ws r of
                  [] \<Rightarrow> None
                | d # ds \<Rightarrow>
                    if d \<noteq> CHR '':'' then None
                    else (case parse_value f ds of
                       None \<Rightarrow> None
                     | Some (j, r') \<Rightarrow>
                         (case skip_ws r' of
                            [] \<Rightarrow> None
                          | e # es \<Rightarrow>
                              if e = CHR ''}'' then Some ([(k, j)], es)
                              else if e = CHR '',''
                                then map_option (\<lambda>(ms, r''). ((k, j) # ms, r'')) (parse_members f es)
                              else None)))))"

definition parse_fuel :: "string \<Rightarrow> nat" where
  "parse_fuel s = 2 * length s + 2"

text \<open>\<^verbatim>\<open>json.Unmarshal\<close> reads one value and nothing but white space after it.\<close>

definition parse_json :: "string \<Rightarrow> json option" where
  "parse_json s = (case parse_value (parse_fuel s) s of
      None \<Rightarrow> None
    | Some (j, r) \<Rightarrow> if skip_ws r = [] then Some j else None)"

text \<open>\<^verbatim>\<open>json.NewDecoder(r).Decode\<close> reads the first value and leaves the rest unread.\<close>

definition parse_first :: "string \<Rightarrow> json option" where
  "parse_first s = map_option fst (parse_value (parse_fuel s) s)"

section \<open>Round trip of string literals\<close>

lemma prepend_Some [simp]: "prepend p (Some (s, r)) = Some (p @ s, r)"
  by (simp add: prepend_def)

lemma prepend_None [simp]: "prepend p None = None"
  by (simp add: prepend_def)

lemma hex_val_hex_digit: "hex_val (hex_digit n) = Some (n mod 16)"
proof -
  have "k < 16 \<Longrightarrow> hex_val (''0123456789abcdef'' ! k) = Some k" for k :: nat
  proof -
    assume "k < 16"
    then have "k = 0 \<or> k = 1 \<or> k = 2 \<or> k = 3 \<or> k = 4 \<or> k = 5 \<or> k = 6 \<or> k = 7 \<or>
        k = 8 \<or> k = 9 \<or> k = 10 \<or> k = 11 \<or> k = 12 \<or> k = 13 \<or> k = 14 \<or> k = 15"
      by arith
    then show ?thesis by (elim disjE) (simp_all add: hex_val_def byte_in_def)
  qed
  then show ?thesis by (simp add: hex_digit_def)
qed

lemma nat_hex4:
  assumes "n < 0x10000"
  shows "n div 4096 mod 16 * 4096 + n div 256 mod 16 * 256 + n div 16 mod 16 * 16 + n mod 16 = (n::nat)"
proof -
  have "n mod 256 = 16 * (n div 16 mod 16) + n mod 16"
    using mod_mult2_eq [of n 16 16] by simp
  moreover have "n mod 4096 = 256 * (n div 256 mod 16) + n mod 256"
    using mod_mult2_eq [of n 256 16] by simp
  moreover have "n mod 65536 = 4096 * (n div 4096 mod 16) + n mod 4096"
    using mod_mult2_eq [of n 4096 16] by simp
  moreover have "n mod 65536 = n" using assms by simp
  ultimately show ?thesis by linarith
qed

lemma hex4_u_escape: "n < 0x10000 \<Longrightarrow> hex4 (drop 2 (u_escape n) @ rest) = Some (n, rest)"
  using nat_hex4 [of n] by (simp add: u_escape_def hex_val_hex_digit)

declare parse_str_body.simps [simp del] quote_body.simps [simp del] utf8_len.simps [simp del]

lemma parse_str_body_close [simp]: "parse_str_body (quote_char # cs) = Some ([], cs)"
  by (simp add: parse_str_body.simps)

lemma parse_str_body_escapes [simp]:
  "parse_str_body (backslash # quote_char # cs) = prepend [quote_char] (parse_str_body cs)"
  "parse_str_body (backslash # backslash # cs) = prepend [backslash] (parse_str_body cs)"
  "parse_str_body (backslash # CHR ''b'' # cs) = prepend [CHR 0x08] (parse_str_body cs)"
  "parse_str_body (backslash # CHR ''f'' # cs) = prepend [CHR 0x0C] (parse_str_body cs)"
  "parse_str_body (backslash # CHR ''n'' # cs) = prepend [CHR 0x0A] (parse_str_body cs)"
  "parse_str_body (backslash # CHR ''r'' # cs) = prepend [CHR 0x0D] (parse_str_body cs)"
  "parse_str_body (backslash # CHR ''t'' # cs) = prepend [CHR 0x09] (parse_str_body cs)"
  by (subst parse_str_body.simps(2), simp)+

lemma parse_str_body_plain:
  "\<lbrakk>ascii c; c \<noteq> quote_char; c \<noteq> backslash; \<not> (of_char c :: nat) < 0x20\<rbrakk>
    \<Longrightarrow> parse_str_body (c # cs) = prepend [c] (parse_str_body cs)"
  by (simp add: parse_str_body.simps(2) [of c])

lemma parse_u_escape:
  assumes "n < 0x10000" and "n < 0xD800 \<or> 0xE000 \<le> n"
  shows "parse_str_body (u_escape n @ rest) = prepend (encode_rune n) (parse_str_body rest)"
proof -
  have *: "u_escape n @ rest = backslash # CHR ''u'' # (drop 2 (u_escape n) @ rest)"
    by (simp add: u_escape_def)
  have r: "u_rune n rest = (n, rest)" using assms(2) by (auto simp: u_rune_def)
  have "parse_str_body (backslash # CHR ''u'' # cs) =
      (case hex4 cs of None \<Rightarrow> None
       | Some (r, rest) \<Rightarrow> prepend (encode_rune (fst (u_rune r rest))) (parse_str_body (snd (u_rune r rest))))"
    for cs
    by (subst parse_str_body.simps(2)) simp
  then show ?thesis
    unfolding * using hex4_u_escape [OF assms(1), of rest] r by simp
qed

lemma parse_esc_ascii:
  assumes "ascii c"
  shows "parse_str_body (esc_ascii c @ rest) = prepend [c] (parse_str_body rest)"
proof -
  have "encode_rune (of_char c) = [c]"
    using assms by (simp add: encode_rune_def byte_def ascii_def)
  moreover have "(of_char c :: nat) < 0xD800" using assms by (simp add: ascii_def)
  ultimately have u: "parse_str_body (u_escape (of_char c) @ rest) = prepend [c] (parse_str_body rest)"
    using parse_u_escape [of "of_char c" rest] by simp
  consider "c = quote_char" | "c = backslash" | "c = CHR 0x08" | "c = CHR 0x0C" | "c = CHR 0x0A"
    | "c = CHR 0x0D" | "c = CHR 0x09"
    | (u) "c \<notin> {quote_char, backslash, CHR 0x08, CHR 0x0C, CHR 0x0A, CHR 0x0D, CHR 0x09}"
        "(of_char c :: nat) < 0x20 \<or> c = CHR ''<'' \<or> c = CHR ''>'' \<or> c = CHR ''&''"
    | (plain) "c \<notin> {quote_char, backslash, CHR 0x08, CHR 0x0C, CHR 0x0A, CHR 0x0D, CHR 0x09}"
        "\<not> ((of_char c :: nat) < 0x20 \<or> c = CHR ''<'' \<or> c = CHR ''>'' \<or> c = CHR ''&'')"
    by blast
  then show ?thesis
  proof cases
    case u
    then have "esc_ascii c = u_escape (of_char c)" by (simp add: esc_ascii_def)
    with \<open>parse_str_body (u_escape (of_char c) @ rest) = _\<close> show ?thesis by simp
  next
    case plain
    then have "esc_ascii c = [c]" by (simp add: esc_ascii_def)
    with plain assms show ?thesis by (simp add: parse_str_body_plain)
  qed (simp_all add: esc_ascii_def)
qed

lemma utf8_len_bounds: "utf8_len (c # cs) \<le> Suc (length cs)"
  by (cases "c # cs" rule: utf8_len.cases) (auto simp: utf8_len.simps)

text \<open>The length of a sequence only depends on the sequence.\<close>

lemma utf8_len_pos:
  "utf8_len s = 2 \<longleftrightarrow> (\<exists>a b t. s = a # b # t \<and> seq2 a b)"
  "utf8_len s = 3 \<longleftrightarrow> (\<exists>a b c t. s = a # b # c # t \<and> \<not> seq2 a b \<and> seq3 a b c)"
  "utf8_len s = 4 \<longleftrightarrow> (\<exists>a b c d t. s = a # b # c # d # t \<and> \<not> seq2 a b \<and> \<not> seq3 a b c \<and> seq4 a b c d)"
  by (cases s rule: utf8_len.cases; auto simp: utf8_len.simps)+

lemma utf8_len_range: "utf8_len s \<in> {0, 2, 3, 4}"
  by (cases s rule: utf8_len.cases) (auto simp: utf8_len.simps)

lemma utf8_len_take:
  assumes "utf8_len s \<noteq> 0"
  shows "utf8_len (take (utf8_len s) s @ t) = utf8_len s"
proof -
  consider "utf8_len s = 2" | "utf8_len s = 3" | "utf8_len s = 4"
    using assms utf8_len_range [of s] by auto
  then show ?thesis
  proof cases
    case 1
    then obtain a b u where "s = a # b # u" "seq2 a b" using utf8_len_pos(1) by blast
    then have "utf8_len (take 2 s @ t) = 2" by (simp add: utf8_len_pos(1))
    with 1 show ?thesis by simp
  next
    case 2
    then obtain a b c u where "s = a # b # c # u" "\<not> seq2 a b" "seq3 a b c"
      using utf8_len_pos(2) by blast
    then have "utf8_len (take 3 s @ t) = 3" by (simp add: utf8_len_pos(2))
    with 2 show ?thesis by simp
  next
    case 3
    then obtain a b c d u where "s = a # b # c # d # u" "\<not> seq2 a b" "\<not> seq3 a b c" "seq4 a b c d"
      using utf8_len_pos(3) by blast
    then have "utf8_len (take 4 s @ t) = 4" by (simp add: utf8_len_pos(3))
    with 3 show ?thesis by simp
  qed
qed

lemma utf8_lead_high:
  assumes "utf8_len (c # cs) \<noteq> 0"
  shows "0x80 \<le> (of_char c :: nat)"
proof -
  have "seq2 c b \<Longrightarrow> ?thesis" "seq3 c b d \<Longrightarrow> ?thesis" "seq4 c b d e \<Longrightarrow> ?thesis" for b d e
    by (auto simp: seq2_def seq3_def seq4_def byte_in_def)
  then show ?thesis
    using assms by (cases "c # cs" rule: utf8_len.cases) (auto simp: utf8_len.simps split: if_splits)
qed

lemma parse_utf8_copy:
  assumes "utf8_len (c # cs) \<noteq> 0"
  shows "parse_str_body (take (utf8_len (c # cs)) (c # cs) @ t)
    = prepend (take (utf8_len (c # cs)) (c # cs)) (parse_str_body t)"
proof -
  let ?n = "utf8_len (c # cs)"
  obtain k where k: "?n = Suc k" using assms not0_implies_Suc by blast
  define w where "w = take k cs"
  have w: "take ?n (c # cs) = c # w" and lw: "?n = Suc (length w)"
    using k utf8_len_bounds [of c cs] by (simp_all add: w_def)
  have "utf8_len (c # w @ t) = Suc (length w)"
    using utf8_len_take [OF assms, of t] w lw by simp
  moreover have "c \<noteq> quote_char" "c \<noteq> backslash" "\<not> (of_char c :: nat) < 0x20" "\<not> ascii c"
    using utf8_lead_high [OF assms] by (auto simp: ascii_def)
  ultimately show ?thesis
    unfolding w by (simp add: parse_str_body.simps(2) [of c] Let_def)
qed

lemma parse_quote_body:
  "utf8_valid s \<Longrightarrow> parse_str_body (quote_body s @ quote_char # rest) = Some (s, rest)"
proof (induction s rule: quote_body.induct)
  case 1
  then show ?case by (simp add: quote_body.simps)
next
  case (2 c cs)
  show ?case
  proof (cases "ascii c")
    case True
    with "2" show ?thesis by (simp add: parse_esc_ascii quote_body.simps)
  next
    case False
    let ?n = "utf8_len (c # cs)"
    from False "2.prems" have n: "?n \<noteq> 0" and v: "utf8_valid (drop (?n - 1) cs)" by auto
    have sep: "encode_rune 0x2028 = line_sep" "encode_rune 0x2029 = para_sep"
      by (simp_all add: encode_rune_def byte_def line_sep_def para_sep_def char_of_eq_iff)
    have whole: "take ?n (c # cs) @ drop (?n - 1) cs = c # cs"
      using n by (cases ?n) auto
    have IH: "parse_str_body (quote_body (drop (?n - 1) cs) @ quote_char # rest) = Some (drop (?n - 1) cs, rest)"
      using "2.IH" False n v by blast
    consider (line) "take ?n (c # cs) = line_sep"
      | (para) "take ?n (c # cs) = para_sep" "take ?n (c # cs) \<noteq> line_sep"
      | (copy) "take ?n (c # cs) \<noteq> para_sep" "take ?n (c # cs) \<noteq> line_sep"
      by blast
    then show ?thesis
    proof cases
      case line
      with False n have "quote_body (c # cs) = u_escape 0x2028 @ quote_body (drop (?n - 1) cs)"
        by (simp add: quote_body.simps(2) Let_def)
      then show ?thesis using IH whole line sep by (simp add: parse_u_escape)
    next
      case para
      with False n have "quote_body (c # cs) = u_escape 0x2029 @ quote_body (drop (?n - 1) cs)"
        by (simp add: quote_body.simps(2) Let_def)
      then show ?thesis using IH whole para sep by (simp add: parse_u_escape)
    next
      case copy
      with False n have "quote_body (c # cs) = take ?n (c # cs) @ quote_body (drop (?n - 1) cs)"
        by (simp add: quote_body.simps(2) Let_def)
      with parse_utf8_copy [OF n] IH whole show ?thesis by simp
    qed
  qed
qed

section \<open>Round trip of values\<close>

text \<open>The values the encoder is given: valid UTF-8 texts and number literals.\<close>

fun json_wf :: "json \<Rightarrow> bool" where
  "json_wf (JNum l) = valid_num l"
| "json_wf (JStr s) = utf8_valid s"
| "json_wf (JArr js) = list_all json_wf js"
| "json_wf (JObj ms) = list_all (\<lambda>(k, v). utf8_valid k \<and> json_wf v) ms"
| "json_wf _ = True"

text \<open>What may follow a value without extending it.\<close>

definition delim :: "string \<Rightarrow> bool" where
  "delim rest \<longleftrightarrow> (case rest of [] \<Rightarrow> True | c # _ \<Rightarrow> \<not> num_char c)"

lemma delim_simps [simp]:
  "delim []" "delim (CHR '','' # r)" "delim (CHR '']'' # r)" "delim (CHR ''}'' # r)"
  by (simp_all add: delim_def num_char_def is_digit_def byte_in_def)

lemma digit_num_char: "is_digit c \<Longrightarrow> num_char c"
  by (simp add: num_char_def)

lemma all_num_dropWhile: "list_all num_char (dropWhile is_digit s) \<Longrightarrow> list_all num_char s"
  by (induction s) (auto simp: digit_num_char split: if_splits)

lemma all_num_digits: "nonempty_digits s \<Longrightarrow> list_all num_char s"
  by (auto simp: nonempty_digits_def list_all_iff digit_num_char)

lemma valid_exp_chars: "valid_exp s \<Longrightarrow> list_all num_char s"
  by (auto simp: valid_exp_def num_char_def split: list.splits if_splits dest!: all_num_digits)

lemma valid_frac_chars: "valid_frac s \<Longrightarrow> list_all num_char s"
  by (auto simp: valid_frac_def num_char_def split: list.splits if_splits
      dest!: valid_exp_chars all_num_dropWhile)

lemma valid_unsigned_chars:
  "valid_unsigned s \<Longrightarrow> list_all num_char s \<and> s \<noteq> [] \<and> is_digit (hd s)"
  by (auto simp: valid_unsigned_def is_digit_def byte_in_def split: list.splits if_splits
      dest!: valid_frac_chars intro: all_num_dropWhile digit_num_char)

lemma valid_num_chars:
  "valid_num s \<Longrightarrow> list_all num_char s \<and> s \<noteq> [] \<and> (is_digit (hd s) \<or> hd s = CHR ''-'')"
  by (auto simp: valid_num_def num_char_def split: list.splits if_splits dest!: valid_unsigned_chars)

lemma span_num_char:
  assumes "list_all num_char l" and "delim rest"
  shows "takeWhile num_char (l @ rest) = l \<and> dropWhile num_char (l @ rest) = rest"
proof -
  have "takeWhile num_char rest = [] \<and> dropWhile num_char rest = rest"
    using assms(2) by (auto simp: delim_def split: list.splits)
  with assms(1) show ?thesis by (auto simp: list_all_iff takeWhile_append2 dropWhile_append2)
qed

definition val_head :: "char \<Rightarrow> bool" where
  "val_head c \<longleftrightarrow> \<not> is_ws c \<and> c \<noteq> CHR '']'' \<and> c \<noteq> CHR ''}''"

lemma print_json_head:
  assumes "json_wf j"
  shows "\<exists>c cs. print_json j = c # cs \<and> val_head c"
proof (cases j)
  case (JNum l)
  with assms valid_num_chars obtain c cs where l: "l = c # cs" "is_digit c \<or> c = CHR ''-''"
    by (cases l) force+
  then have "val_head c" by (auto simp: val_head_def is_ws_def is_digit_def byte_in_def)
  with JNum l show ?thesis by simp
qed (simp_all add: val_head_def is_ws_def quote_def)

lemma skip_ws_nonws [simp]: "\<not> is_ws c \<Longrightarrow> skip_ws (c # cs) = c # cs"
  by (simp add: skip_ws_def)

lemma is_ws_punct [simp]:
  "\<not> is_ws (CHR '']'')" "\<not> is_ws (CHR '','')" "\<not> is_ws (CHR ''}'')" "\<not> is_ws (CHR '':'')"
  "\<not> is_ws quote_char" "\<not> is_ws (CHR ''['')" "\<not> is_ws (CHR ''{'')"
  by (simp_all add: is_ws_def)

lemma comma_sep_Cons: "xs \<noteq> [] \<Longrightarrow> comma_sep (x # xs) = x @ CHR '','' # comma_sep xs"
  by (cases xs) simp_all

lemma parse_elems_print:
  assumes "\<And>j f r. \<lbrakk>j \<in> set js; delim r; 2 * length (print_json j) \<le> f\<rbrakk>
      \<Longrightarrow> parse_value f (print_json j @ r) = Some (j, r)"
    and "js \<noteq> []" and "2 * length (comma_sep (map print_json js)) < f"
  shows "parse_elems f (comma_sep (map print_json js) @ CHR '']'' # rest) = Some (js, rest)"
  using assms
proof (induction js arbitrary: f)
  case Nil
  then show ?case by simp
next
  case (Cons j js)
  from Cons.prems(3) obtain g where f: "f = Suc g" by (cases f) auto
  show ?case
  proof (cases "js = []")
    case True
    with Cons.prems f show ?thesis by simp
  next
    case False
    let ?t = "CHR '','' # comma_sep (map print_json js) @ CHR '']'' # rest"
    have len: "2 * length (print_json j) \<le> g" "2 * length (comma_sep (map print_json js)) < g"
      using Cons.prems(3) False f by (simp_all add: comma_sep_Cons)
    then have "parse_value g (print_json j @ ?t) = Some (j, ?t)"
      using Cons.prems(1) by simp
    moreover have "parse_elems g (comma_sep (map print_json js) @ CHR '']'' # rest) = Some (js, rest)"
      using Cons.IH Cons.prems(1) False len by simp
    ultimately show ?thesis using False f by (simp add: comma_sep_Cons)
  qed
qed

definition print_member :: "string \<times> json \<Rightarrow> string" where
  "print_member m = quote (fst m) @ CHR '':'' # print_json (snd m)"

lemma print_json_JObj:
  "print_json (JObj ms) = CHR ''{'' # comma_sep (map print_member ms) @ ''}''"
  by (simp add: print_member_def [abs_def] case_prod_unfold)

lemma print_member_pair: "print_member (k, j) = quote k @ CHR '':'' # print_json j"
  by (simp add: print_member_def)

lemma parse_members_print:
  assumes "\<And>k j f r. \<lbrakk>(k, j) \<in> set ms; delim r; 2 * length (print_json j) \<le> f\<rbrakk>
      \<Longrightarrow> parse_value f (print_json j @ r) = Some (j, r)"
    and "list_all (\<lambda>(k, v). utf8_valid k) ms"
    and "ms \<noteq> []" and "2 * length (comma_sep (map print_member ms)) < f"
  shows "parse_members f (comma_sep (map print_member ms) @ CHR ''}'' # rest) = Some (ms, rest)"
  using assms
proof (induction ms arbitrary: f)
  case Nil
  then show ?case by simp
next
  case (Cons m ms)
  obtain k j where m: "m = (k, j)" by (cases m)
  from Cons.prems(4) obtain g where f: "f = Suc g" by (cases f) auto
  have key: "parse_str_body (quote_body k @ quote_char # r) = Some (k, r)" for r
    using Cons.prems(2) m by (simp add: parse_quote_body)
  show ?case
  proof (cases "ms = []")
    case True
    with Cons.prems f m key show ?thesis by (simp add: print_member_pair quote_def)
  next
    case False
    let ?t = "CHR '','' # comma_sep (map print_member ms) @ CHR ''}'' # rest"
    have len: "2 * length (print_json j) \<le> g" "2 * length (comma_sep (map print_member ms)) < g"
      using Cons.prems(4) False f m by (simp_all add: comma_sep_Cons print_member_pair)
    then have "parse_value g (print_json j @ ?t) = Some (j, ?t)"
      using Cons.prems(1) [of k j ?t g] m by simp
    moreover have "parse_members g (comma_sep (map print_member ms) @ CHR ''}'' # rest) = Some (ms, rest)"
    proof (rule Cons.IH)
      show "parse_value h (print_json i @ r) = Some (i, r)"
        if "(l, i) \<in> set ms" "delim r" "2 * length (print_json i) \<le> h" for l i h r
        using Cons.prems(1) [of l i r h] that by simp
    qed (use Cons.prems(2) False len in simp_all)
    ultimately show ?thesis
      using False f m key by (simp add: comma_sep_Cons print_member_pair quote_def)
  qed
qed

lemma comma_sep_head:
  assumes "xs \<noteq> []" and "hd xs = c # cs"
  shows "\<exists>t. comma_sep xs = c # t"
  using assms by (cases xs rule: comma_sep.cases) auto

lemma parse_value_print:
  "\<lbrakk>json_wf j; delim rest; 2 * length (print_json j) \<le> f\<rbrakk>
    \<Longrightarrow> parse_value f (print_json j @ rest) = Some (j, rest)"
proof (induction j arbitrary: f rest)
  case (JNum l)
  then obtain g where f: "f = Suc g" using valid_num_chars by (cases f) auto
  obtain c cs where l: "l = c # cs" "is_digit c \<or> c = CHR ''-''"
    using JNum valid_num_chars by (cases l) force+
  then have head: "\<not> is_ws c" "c \<noteq> CHR ''n''" "c \<noteq> CHR ''t''" "c \<noteq> CHR ''f''" "c \<noteq> quote_char"
      "c \<noteq> CHR ''[''" "c \<noteq> CHR ''{''"
    by (auto simp: is_ws_def is_digit_def byte_in_def)
  have span: "takeWhile num_char (c # cs @ rest) = c # cs \<and> dropWhile num_char (c # cs @ rest) = rest"
    using span_num_char [of l rest] valid_num_chars [of l] JNum.prems l by (simp del: takeWhile.simps dropWhile.simps)
  show ?case
    unfolding f l print_json.simps append_Cons
    using head span JNum.prems(1) l by (simp del: takeWhile.simps dropWhile.simps)
next
  case (JStr s)
  then show ?case by (cases f) (simp_all add: quote_def parse_quote_body)
next
  case (JArr js)
  show ?case
  proof (cases js)
    case Nil
    with JArr.prems show ?thesis by (cases f) simp_all
  next
    case (Cons x xs)
    with JArr.prems obtain g where f: "f = Suc g" by (cases f) auto
    from Cons JArr.prems(1) obtain c cs where x: "print_json x = c # cs" "val_head c"
      using print_json_head [of x] by auto
    then obtain t where t: "comma_sep (map print_json js) = c # t"
      using comma_sep_head [of "map print_json js" c cs] Cons by auto
    have "parse_elems g (comma_sep (map print_json js) @ CHR '']'' # rest) = Some (js, rest)"
      using JArr Cons f by (intro parse_elems_print) (auto simp: list_all_iff)
    then show ?thesis
      using f t x by (simp add: val_head_def)
  qed
next
  case (JObj ms)
  show ?case
  proof (cases ms)
    case Nil
    with JObj.prems show ?thesis by (cases f) simp_all
  next
    case (Cons x xs)
    with JObj.prems obtain g where f: "f = Suc g" by (cases f) auto
    obtain cs where x: "print_member x = quote_char # cs"
      by (simp add: print_member_def quote_def)
    then obtain t where t: "comma_sep (map print_member ms) = quote_char # t"
      using comma_sep_head [of "map print_member ms" quote_char cs] Cons by auto
    have "parse_members g (comma_sep (map print_member ms) @ CHR ''}'' # rest) = Some (ms, rest)"
    proof (rule parse_members_print)
      show "parse_value h (print_json j @ r) = Some (j, r)"
        if "(k, j) \<in> set ms" "delim r" "2 * length (print_json j) \<le> h" for k j h r
        using JObj.IH [OF that(1), of j r h] that JObj.prems(1) by (auto simp: list_all_iff)
      show "list_all (\<lambda>(k, v). utf8_valid k) ms"
        using JObj.prems(1) by (auto simp: list_all_iff)
      show "2 * length (comma_sep (map print_member ms)) < g"
        using JObj.prems(3) f unfolding print_json_JObj by simp
    qed (simp add: Cons)
    then show ?thesis
      unfolding print_json_JObj using f t by simp
  qed
next
  case JNull
  then obtain g where "f = Suc g" by (cases f) auto
  then show ?case by (simp add: parse_lit_def is_ws_def)
next
  case (JBool b)
  then obtain g where "f = Suc g" by (cases f) (auto split: if_splits)
  then show ?case by (simp add: parse_lit_def is_ws_def)
qed

theorem parse_print_json: "json_wf j \<Longrightarrow> parse_json (print_json j) = Some j"
  using parse_value_print [of j "[]" "parse_fuel (print_json j)"]
  by (simp add: parse_json_def parse_fuel_def skip_ws_def)

lemma parse_first_print_json: "json_wf j \<Longrightarrow> delim rest \<Longrightarrow> parse_first (print_json j @ rest) = Some j"
  using parse_value_print [of j rest "parse_fuel (print_json j @ rest)"]
  by (simp add: parse_first_def parse_fuel_def)

end
