(* ===== verification/Go_Raw.thy ===== *)
theory Go_Raw
  imports Go_Json
begin

text \<open>
  Raw JSON: the text of object members as \<^verbatim>\<open>json.RawMessage\<close> captures it, and the
  compaction \<^verbatim>\<open>json.Marshal\<close> applies to a raw message. Texts the encoder produced are
  fixed points of compaction, and capturing the members of an encoded object returns the
  encodings of its values.
\<close>

section \<open>Capturing raw members\<close>

datatype raw_top = RawNull | RawObj "(string \<times> string) list" | RawOther

text \<open>The members of an object with the exact text of each value.\<close>

fun raw_members :: "nat \<Rightarrow> string \<Rightarrow> ((string \<times> string) list \<times> string) option" where
  "raw_members 0 s = None"
| "raw_members (Suc f) s =
     (case skip_ws s of
        [] \<Rightarrow> None
      | c # cs \<Rightarrow>
          if c \<noteq> quote_char then None
          else (case parse_str_body cs of
             None \<Rightarrow> None
           | Some (k, r) \<Rightarrow>
               (case skip_ws r of
                  [] \<Rightarrow> None
                | d # ds \<Rightarrow>
                    if d \<noteq> CHR '':'' then None
                    else (case parse_value f ds of
                       None \<Rightarrow> None
                     | Some (j, r') \<Rightarrow>
                         let raw = take (length (skip_ws ds) - length r') (skip_ws ds) in
                         (case skip_ws r' of
                            [] \<Rightarrow> None
                          | e # es \<Rightarrow>
                              if e = CHR ''}'' then Some ([(k, raw)], es)
                              else if e = CHR '',''
                                then map_option (\<lambda>(ms, r''). ((k, raw) # ms, r'')) (raw_members f es)
                              else None)))))"

definition parse_raw :: "string \<Rightarrow> raw_top option" where
  "parse_raw s =
     (case parse_json s of
        None \<Rightarrow> None
      | Some JNull \<Rightarrow> Some RawNull
      | Some (JObj []) \<Rightarrow> Some (RawObj [])
      | Some (JObj (_ # _)) \<Rightarrow>
          map_option (\<lambda>(ms, _). RawObj ms) (raw_members (parse_fuel s) (tl (skip_ws s)))
      | Some _ \<Rightarrow> Some RawOther)"

lemma raw_members_print:
  assumes "list_all (\<lambda>(k, v). utf8_valid k \<and> json_wf v) ms"
    and "ms \<noteq> []" and "2 * length (comma_sep (map print_member ms)) < f"
  shows "raw_members f (comma_sep (map print_member ms) @ CHR ''}'' # rest)
    = Some (map (\<lambda>(k, v). (k, print_json v)) ms, rest)"
  using assms
proof (induction ms arbitrary: f)
  case Nil
  then show ?case by simp
next
  case (Cons m ms)
  obtain k j where m: "m = (k, j)" by (cases m)
  with Cons.prems(1) have wf: "utf8_valid k" "json_wf j" by auto
  from Cons.prems(3) obtain g where f: "f = Suc g" by (cases f) auto
  have key: "parse_str_body (quote_body k @ quote_char # r) = Some (k, r)" for r
    using wf by (simp add: parse_quote_body)
  have val: "parse_value g (print_json j @ r) = Some (j, r)"
      "take (length (skip_ws (print_json j @ r)) - length r) (skip_ws (print_json j @ r)) = print_json j"
    if "delim r" for r
  proof -
    have "2 * length (print_json j) \<le> g"
      using Cons.prems(3) f m by (cases "ms = []") (simp_all add: comma_sep_Cons print_member_pair)
    with that wf show "parse_value g (print_json j @ r) = Some (j, r)"
      by (intro parse_value_print)
    from print_json_head [OF wf(2)] obtain c cs where "print_json j = c # cs" "\<not> is_ws c"
      by (auto simp: val_head_def)
    then show "take (length (skip_ws (print_json j @ r)) - length r) (skip_ws (print_json j @ r))
        = print_json j"
      by simp
  qed
  show ?case
  proof (cases "ms = []")
    case True
    with f m key val [of "CHR ''}'' # rest"] show ?thesis
      by (simp add: print_member_pair quote_def Let_def)
  next
    case False
    let ?t = "CHR '','' # comma_sep (map print_member ms) @ CHR ''}'' # rest"
    have "raw_members g (comma_sep (map print_member ms) @ CHR ''}'' # rest)
        = Some (map (\<lambda>(k, v). (k, print_json v)) ms, rest)"
    proof (rule Cons.IH)
      show "2 * length (comma_sep (map print_member ms)) < g"
        using Cons.prems(3) False f m by (simp add: comma_sep_Cons print_member_pair)
    qed (use Cons.prems(1) False in simp_all)
    with False f m key val [of ?t] show ?thesis
      by (simp add: comma_sep_Cons print_member_pair quote_def Let_def)
  qed
qed

lemma parse_raw_print:
  assumes "json_wf (JObj ms)"
  shows "parse_raw (print_json (JObj ms)) = Some (RawObj (map (\<lambda>(k, v). (k, print_json v)) ms))"
proof (cases ms)
  case Nil
  then show ?thesis using parse_print_json [of "JObj []"] by (simp add: parse_raw_def)
next
  case (Cons m ms')
  let ?s = "print_json (JObj ms)"
  have "skip_ws ?s = ?s" unfolding print_json_JObj by simp
  then have "tl (skip_ws ?s) = comma_sep (map print_member ms) @ CHR ''}'' # []"
    unfolding print_json_JObj by simp
  moreover have "raw_members (parse_fuel ?s) (comma_sep (map print_member ms) @ CHR ''}'' # [])
      = Some (map (\<lambda>(k, v). (k, print_json v)) ms, [])"
    using assms Cons by (intro raw_members_print) (simp_all add: parse_fuel_def print_json_JObj del: print_json.simps)
  ultimately show ?thesis
    using parse_print_json [OF assms] Cons by (simp add: parse_raw_def del: print_json.simps)
qed

section \<open>Compaction\<close>

text \<open>
  \<^verbatim>\<open>appendCompact\<close> with HTML escaping. The flags say whether the position is inside a
  string literal and whether the previous byte was its escape character.
\<close>

fun compact_go :: "bool \<Rightarrow> bool \<Rightarrow> string \<Rightarrow> string" where
  "compact_go q e [] = []"
| "compact_go q e (c # cs) =
     (if \<not> q \<and> is_ws c then compact_go q e cs
      else if c = CHR ''<'' \<or> c = CHR ''>'' \<or> c = CHR ''&''
        then u_escape (of_char c) @ compact_go q False cs
      else if take 3 (c # cs) = line_sep then u_escape 0x2028 @ compact_go q False (drop 2 cs)
      else if take 3 (c # cs) = para_sep then u_escape 0x2029 @ compact_go q False (drop 2 cs)
      else c # (if q then compact_go (e \<or> c \<noteq> quote_char) (\<not> e \<and> c = backslash) cs
                else compact_go (c = quote_char) False cs))"

definition compact :: "string \<Rightarrow> string" where
  "compact s = compact_go False False s"

declare compact_go.simps [simp del]

text \<open>Bytes compaction copies wherever they stand.\<close>

definition inert :: "char \<Rightarrow> bool" where
  "inert c \<longleftrightarrow> c \<noteq> CHR ''<'' \<and> c \<noteq> CHR ''>'' \<and> c \<noteq> CHR ''&'' \<and> c \<noteq> CHR 0xE2"

lemma sep_lead [simp]:
  "c \<noteq> CHR 0xE2 \<Longrightarrow> c # cs \<noteq> line_sep" "c \<noteq> CHR 0xE2 \<Longrightarrow> c # cs \<noteq> para_sep"
  by (simp_all add: line_sep_def para_sep_def)

lemma compact_in_string [simp]:
  "\<lbrakk>inert c; c \<noteq> quote_char; c \<noteq> backslash\<rbrakk>
    \<Longrightarrow> compact_go True False (c # cs) = c # compact_go True False cs"
  "inert c \<Longrightarrow> compact_go True False (backslash # c # cs) = backslash # c # compact_go True False cs"
  "compact_go True False (quote_char # cs) = quote_char # compact_go False False cs"
  by (simp_all add: compact_go.simps inert_def)

lemma compact_outside [simp]:
  "\<lbrakk>inert c; c \<noteq> quote_char; \<not> is_ws c\<rbrakk>
    \<Longrightarrow> compact_go False False (c # cs) = c # compact_go False False cs"
  "compact_go False False (quote_char # cs) = quote_char # compact_go True False cs"
  by (simp_all add: compact_go.simps inert_def)

lemma hex_digit_inert: "inert (hex_digit n) \<and> hex_digit n \<noteq> quote_char \<and> hex_digit n \<noteq> backslash"
proof -
  have "hex_val (CHR ''<'') = None" "hex_val (CHR ''>'') = None" "hex_val (CHR ''&'') = None"
      "hex_val (CHR 0xE2) = None" "hex_val quote_char = None" "hex_val backslash = None"
    by (simp_all add: hex_val_def byte_in_def)
  with hex_val_hex_digit [of n] show ?thesis by (auto simp: inert_def)
qed

lemma compact_u_escape [simp]:
  "compact_go True False (u_escape n @ t) = u_escape n @ compact_go True False t"
proof -
  have "inert (CHR ''u'')" by (simp add: inert_def)
  then show ?thesis by (simp add: u_escape_def hex_digit_inert)
qed

lemma compact_esc_ascii:
  assumes "ascii c"
  shows "compact_go True False (esc_ascii c @ t) = esc_ascii c @ compact_go True False t"
proof -
  have lit: "inert (CHR ''b'')" "inert (CHR ''f'')" "inert (CHR ''n'')" "inert (CHR ''r'')"
      "inert (CHR ''t'')" "inert quote_char" "inert backslash"
    by (simp_all add: inert_def)
  have "c \<noteq> CHR 0xE2" using assms by (auto simp: ascii_def)
  then show ?thesis by (auto simp: esc_ascii_def lit) (simp add: inert_def)
qed

lemma cont_byte_inert: "cont_byte c \<Longrightarrow> inert c \<and> c \<noteq> quote_char \<and> c \<noteq> backslash"
  by (auto simp: cont_byte_def inert_def)

lemma byte_in_cont: "byte_in b lo hi \<Longrightarrow> 0x80 \<le> lo \<Longrightarrow> hi \<le> 0xBF \<Longrightarrow> cont_byte b"
  by (simp add: byte_in_def cont_byte_def)

lemma seq_tail_cont:
  "seq2 a b \<Longrightarrow> cont_byte b" "seq3 a b c \<Longrightarrow> cont_byte b \<and> cont_byte c"
  "seq4 a b c d \<Longrightarrow> cont_byte b \<and> cont_byte c \<and> cont_byte d"
  by (auto simp: seq2_def seq3_def seq4_def intro: byte_in_cont)

lemma compact_utf8_copy:
  assumes n: "utf8_len s \<noteq> 0" and "take (utf8_len s) s \<noteq> line_sep" "take (utf8_len s) s \<noteq> para_sep"
  shows "compact_go True False (take (utf8_len s) s @ t) = take (utf8_len s) s @ compact_go True False t"
proof -
  have lead: "compact_go True False (a # v) = a # compact_go True False v"
    if "0x80 \<le> (of_char a :: nat)" "take 3 (a # v) \<noteq> line_sep" "take 3 (a # v) \<noteq> para_sep" for a v
  proof -
    have "a \<noteq> CHR ''<''" "a \<noteq> CHR ''>''" "a \<noteq> CHR ''&''" "a \<noteq> quote_char" "a \<noteq> backslash"
      using that(1) by auto
    with that(2,3) show ?thesis by (subst compact_go.simps) simp
  qed
  from n have "s \<noteq> []" by (auto simp: utf8_len.simps)
  with utf8_lead_high n have hi: "0x80 \<le> (of_char (hd s) :: nat)" by (cases s) auto
  consider "utf8_len s = 2" | "utf8_len s = 3" | "utf8_len s = 4"
    using n utf8_len_range [of s] by auto
  then show ?thesis
  proof cases
    case 1
    then obtain a b u where s: "s = a # b # u" and ab: "seq2 a b" using utf8_len_pos(1) by blast
    moreover have "a \<noteq> CHR 0xE2" using ab by (auto simp: seq2_def byte_in_def)
    ultimately show ?thesis
      using hi cont_byte_inert [OF seq_tail_cont(1) [OF ab]] 1 lead [of a "b # t"] by (simp add: numeral_2_eq_2)
  next
    case 2
    then obtain a b c u where s: "s = a # b # c # u" and abc: "seq3 a b c"
      using utf8_len_pos(2) by blast
    then show ?thesis
      using hi cont_byte_inert seq_tail_cont(2) [OF abc] 2 assms(2,3) lead [of a "b # c # t"]
      by (simp add: numeral_3_eq_3)
  next
    case 3
    then obtain a b c d u where s: "s = a # b # c # d # u" and abcd: "seq4 a b c d"
      using utf8_len_pos(3) by blast
    moreover have "a \<noteq> CHR 0xE2" using abcd by (auto simp: seq4_def byte_in_def)
    ultimately show ?thesis
      using hi cont_byte_inert seq_tail_cont(3) [OF abcd] 3 lead [of a "b # c # d # t"]
      by (simp add: eval_nat_numeral)
  qed
qed

lemma compact_quote_body:
  "compact_go True False (quote_body s @ t) = quote_body s @ compact_go True False t"
proof (induction s rule: quote_body.induct)
  case 1
  then show ?case by (simp add: quote_body.simps)
next
  case (2 c cs)
  show ?case
  proof (cases "ascii c")
    case True
    with "2" show ?thesis by (simp add: quote_body.simps compact_esc_ascii)
  next
    case False
    with "2" compact_utf8_copy [of "c # cs"] show ?thesis
      by (simp add: quote_body.simps Let_def)
  qed
qed

lemma compact_quote [simp]: "compact_go False False (quote s @ t) = quote s @ compact_go False False t"
  by (simp add: quote_def compact_quote_body)

lemma compact_inert_string:
  "list_all (\<lambda>c. inert c \<and> c \<noteq> quote_char \<and> \<not> is_ws c) w
    \<Longrightarrow> compact_go False False (w @ t) = w @ compact_go False False t"
  by (induction w) auto

lemma compact_comma_sep:
  assumes "\<And>x r. x \<in> set xs \<Longrightarrow> compact_go False False (x @ r) = x @ compact_go False False r"
  shows "compact_go False False (comma_sep xs @ t) = comma_sep xs @ compact_go False False t"
  using assms
proof (induction xs rule: comma_sep.induct)
  case (3 x y ys)
  have "inert (CHR '','')" by (simp add: inert_def)
  with 3 show ?case by simp
qed simp_all

lemma inert_punct [simp]:
  "inert (CHR ''['')" "inert (CHR '']'')" "inert (CHR ''{'')" "inert (CHR ''}'')" "inert (CHR '':'')"
  by (simp_all add: inert_def)

lemma compact_print_app:
  "json_wf j \<Longrightarrow> compact_go False False (print_json j @ t) = print_json j @ compact_go False False t"
proof (induction j arbitrary: t)
  case (JNum l)
  have "num_char c \<Longrightarrow> inert c \<and> c \<noteq> quote_char \<and> \<not> is_ws c" for c
    by (auto simp: num_char_def is_digit_def byte_in_def inert_def is_ws_def)
  with JNum valid_num_chars [of l] have "list_all (\<lambda>c. inert c \<and> c \<noteq> quote_char \<and> \<not> is_ws c) l"
    by (auto simp: list_all_iff)
  then show ?case by (simp add: compact_inert_string)
next
  case (JArr js)
  then have "compact_go False False (comma_sep (map print_json js) @ r)
      = comma_sep (map print_json js) @ compact_go False False r" for r
    by (intro compact_comma_sep) (auto simp: list_all_iff)
  then show ?case by simp
next
  case (JObj ms)
  have "compact_go False False (comma_sep (map print_member ms) @ r)
      = comma_sep (map print_member ms) @ compact_go False False r" for r
  proof (rule compact_comma_sep)
    fix x r assume "x \<in> set (map print_member ms)"
    then obtain k v where kv: "(k, v) \<in> set ms" "x = print_member (k, v)" by auto
    with JObj show "compact_go False False (x @ r) = x @ compact_go False False r"
      by (force simp: print_member_pair list_all_iff)
  qed
  then show ?case unfolding print_json_JObj by simp
qed (auto simp: inert_def is_ws_def)

text \<open>Re-encoding a message the encoder produced copies it byte for byte.\<close>

lemma compact_print [simp]: "json_wf j \<Longrightarrow> compact (print_json j) = print_json j"
  using compact_print_app [of j "[]"] by (simp add: compact_def compact_go.simps)

section \<open>Objects with raw members\<close>

definition print_raw_obj :: "(string \<times> string) list \<Rightarrow> string" where
  "print_raw_obj ms = CHR ''{'' # comma_sep (map (\<lambda>(k, r). quote k @ CHR '':'' # r) ms) @ ''}''"

lemma print_raw_obj_JObj:
  "print_raw_obj (map (\<lambda>(k, v). (k, print_json v)) ms) = print_json (JObj ms)"
  by (simp add: print_raw_obj_def case_prod_unfold comp_def)

end
