(* ===== verification/Go_Time.thy ===== *)
theory Go_Time
  imports Go_Json
begin

text \<open>
  Decimal integers (\<^verbatim>\<open>strconv\<close>) and \<^verbatim>\<open>time.Time\<close> with its RFC 3339 text, as the JSON
  encoder and decoder use them. A time is kept as its civil fields and its zone offset, so
  that printing and parsing need no calendar arithmetic.
\<close>

section \<open>Digits\<close>

definition dig :: "nat \<Rightarrow> char" where
  "dig n = char_of (48 + n mod 10)"

definition dig_val :: "char \<Rightarrow> nat" where
  "dig_val c = of_char c - 48"

definition digits_val :: "string \<Rightarrow> nat" where
  "digits_val s = foldl (\<lambda>a c. a * 10 + dig_val c) 0 s"

text \<open>Fixed width, zero padded.\<close>

fun digits_w :: "nat \<Rightarrow> nat \<Rightarrow> string" where
  "digits_w 0 n = []"
| "digits_w (Suc w) n = digits_w w (n div 10) @ [dig n]"

lemma of_char_dig: "of_char (dig n) = (48 + n mod 10 :: nat)"
proof -
  have "n mod 10 < 10" by simp
  then have "48 + n mod 10 < 256" by linarith
  then show ?thesis by (simp add: dig_def)
qed

lemma is_digit_dig [simp]: "is_digit (dig n)"
proof -
  have "n mod 10 \<le> 9" using mod_less_divisor [of 10 n] by linarith
  then show ?thesis by (simp add: is_digit_def byte_in_def of_char_dig)
qed

lemma dig_val_dig [simp]: "dig_val (dig n) = n mod 10"
  by (simp add: dig_val_def of_char_dig)

lemma digits_val_snoc: "digits_val (s @ [c]) = digits_val s * 10 + dig_val c"
  by (simp add: digits_val_def)

lemma digits_w_length [simp]: "length (digits_w w n) = w"
  by (induction w arbitrary: n) simp_all

lemma digits_w_digits [simp]: "list_all is_digit (digits_w w n)"
  by (induction w arbitrary: n) simp_all

lemma digits_val_digits_w: "n < 10 ^ w \<Longrightarrow> digits_val (digits_w w n) = n"
proof (induction w arbitrary: n)
  case 0
  then show ?case by (simp add: digits_val_def)
next
  case (Suc w)
  then have "n div 10 < 10 ^ w" by (simp add: less_mult_imp_div_less mult.commute)
  with Suc.IH show ?case by (simp add: digits_val_snoc)
qed

section \<open>Integers\<close>

fun print_nat :: "nat \<Rightarrow> string" where
  "print_nat n = (if n < 10 then [dig n] else print_nat (n div 10) @ [dig n])"

declare print_nat.simps [simp del]

definition print_int :: "int \<Rightarrow> string" where
  "print_int n = (if n < 0 then CHR ''-'' # print_nat (nat (- n)) else print_nat (nat n))"

text \<open>The same digits by integer arithmetic, for evaluation.\<close>

function int_digits :: "int \<Rightarrow> string" where
  "int_digits n = (if n < 10 then [dig (nat n)] else int_digits (n div 10) @ [dig (nat (n mod 10))])"
  by pat_completeness auto
termination by (relation "measure nat") auto

declare int_digits.simps [simp del]

lemma int_digits_print_nat: "0 \<le> n \<Longrightarrow> int_digits n = print_nat (nat n)"
proof (induction n rule: int_digits.induct)
  case (1 n)
  have "dig (nat (n mod 10)) = dig (nat n)" using "1.prems" by (simp add: dig_def nat_mod_distrib)
  with 1 show ?case
    by (subst int_digits.simps, subst print_nat.simps) (simp add: nat_div_distrib pos_imp_zdiv_nonneg_iff nat_less_iff)
qed

lemma print_int_code [code]: "print_int n = (if n < 0 then CHR ''-'' # int_digits (- n) else int_digits n)"
  by (simp add: print_int_def int_digits_print_nat)

text \<open>\<^verbatim>\<open>strconv.ParseInt(s, 10, 64)\<close> on a JSON number literal: no fraction, no exponent, in range.\<close>

definition parse_int :: "string \<Rightarrow> int option" where
  "parse_int s =
     (let neg = (s \<noteq> [] \<and> hd s = CHR ''-''); ds = (if neg then tl s else s);
          v = (if neg then - int (digits_val ds) else int (digits_val ds))
      in if nonempty_digits ds \<and> - (2 ^ 63) \<le> v \<and> v < 2 ^ 63 then Some v else None)"

lemma print_nat_digits: "nonempty_digits (print_nat n)"
proof (induction n rule: print_nat.induct)
  case (1 n)
  then show ?case by (subst print_nat.simps) (simp add: nonempty_digits_def)
qed

lemma digits_val_print_nat: "digits_val (print_nat n) = n"
proof (induction n rule: print_nat.induct)
  case (1 n)
  then show ?case
    by (subst print_nat.simps) (simp add: digits_val_snoc, simp add: digits_val_def)
qed

lemma print_nat_head:
  assumes "0 < n"
  shows "\<exists>c cs. print_nat n = c # cs \<and> is_digit c \<and> c \<noteq> CHR ''0''"
  using assms
proof (induction n rule: print_nat.induct)
  case (1 n)
  show ?case
  proof (cases "n < 10")
    case True
    have "dig n \<noteq> CHR ''0''"
    proof
      assume "dig n = CHR ''0''"
      then have "(of_char (dig n) :: nat) = 48" by simp
      with True "1.prems" show False by (simp add: of_char_dig)
    qed
    with True show ?thesis by (subst print_nat.simps) simp
  next
    case False
    then have "0 < n div 10" by (simp add: div_greater_zero_iff)
    with False "1.IH" obtain c cs where "print_nat (n div 10) = c # cs \<and> is_digit c \<and> c \<noteq> CHR ''0''"
      by blast
    with False show ?thesis by (subst print_nat.simps) simp
  qed
qed

lemma dropWhile_all_digits: "list_all is_digit s \<Longrightarrow> dropWhile is_digit s = []"
  by (auto simp: list_all_iff)

lemma print_nat_valid: "valid_unsigned (print_nat n)"
proof (cases "n = 0")
  case True
  have "dig 0 = CHR ''0''" by (simp add: dig_def char_of_eq_iff)
  with True show ?thesis
    by (simp add: print_nat.simps valid_unsigned_def valid_frac_def)
next
  case False
  then obtain c cs where p: "print_nat n = c # cs" "is_digit c" "c \<noteq> CHR ''0''"
    using print_nat_head by blast
  then have "dropWhile is_digit cs = []"
    using print_nat_digits [of n] by (intro dropWhile_all_digits) (simp add: nonempty_digits_def)
  then have "valid_frac (dropWhile is_digit cs)" by (simp only: valid_frac_def list.case)
  with p show ?thesis by (simp add: valid_unsigned_def)
qed

lemma digit_not_minus: "is_digit c \<Longrightarrow> c \<noteq> CHR ''-''"
  by (auto simp: is_digit_def byte_in_def)

lemma print_nat_not_minus: "print_nat n = c # cs \<Longrightarrow> c \<noteq> CHR ''-''"
  using print_nat_digits [of n] by (auto simp: nonempty_digits_def digit_not_minus)

lemma print_int_valid [simp]: "valid_num (print_int n)"
proof -
  obtain c cs where p: "print_nat (nat n) = c # cs"
    using print_nat_digits [of "nat n"] by (auto simp: nonempty_digits_def neq_Nil_conv)
  with print_nat_valid [of "nat n"] print_nat_not_minus [OF p] show ?thesis
    by (simp add: print_int_def valid_num_def print_nat_valid)
qed

text \<open>Every 64-bit integer survives printing and parsing.\<close>

lemma parse_print_int:
  assumes "- (2 ^ 63) \<le> n" and "n < 2 ^ 63"
  shows "parse_int (print_int n) = Some n"
proof (cases "n < 0")
  case True
  with assms print_nat_digits digits_val_print_nat show ?thesis
    by (simp add: print_int_def parse_int_def)
next
  case False
  obtain c cs where "print_nat (nat n) = c # cs"
    using print_nat_digits [of "nat n"] by (auto simp: nonempty_digits_def neq_Nil_conv)
  with False assms print_nat_digits [of "nat n"] digits_val_print_nat [of "nat n"]
    print_nat_not_minus [of "nat n" c cs]
  show ?thesis by (simp add: print_int_def parse_int_def)
qed

section \<open>Times\<close>

record time =
  t_year :: nat
  t_month :: nat
  t_day :: nat
  t_hour :: nat
  t_min :: nat
  t_sec :: nat
  t_nsec :: nat
  t_off :: int

text \<open>The zero \<^verbatim>\<open>time.Time\<close>: January 1, year 1, 00:00:00 UTC.\<close>

definition zero_time :: time where
  "zero_time = \<lparr>t_year = 1, t_month = 1, t_day = 1, t_hour = 0, t_min = 0, t_sec = 0,
                t_nsec = 0, t_off = 0\<rparr>"

definition is_leap :: "nat \<Rightarrow> bool" where
  "is_leap y \<longleftrightarrow> y mod 4 = 0 \<and> (y mod 100 \<noteq> 0 \<or> y mod 400 = 0)"

definition days_in :: "nat \<Rightarrow> nat \<Rightarrow> nat" where
  "days_in m y = (if m = 2 then (if is_leap y then 29 else 28)
                  else if m = 4 \<or> m = 6 \<or> m = 9 \<or> m = 11 then 30 else 31)"

text \<open>Times the encoder accepts: civil fields in range, year up to 9999, offset below a day.\<close>

definition time_ok :: "time \<Rightarrow> bool" where
  "time_ok t \<longleftrightarrow> t_year t < 10000 \<and> 1 \<le> t_month t \<and> t_month t \<le> 12 \<and>
     1 \<le> t_day t \<and> t_day t \<le> days_in (t_month t) (t_year t) \<and>
     t_hour t < 24 \<and> t_min t < 60 \<and> t_sec t < 60 \<and> t_nsec t < 10 ^ 9 \<and> \<bar>t_off t\<bar> < 24 * 60"

lemma time_ok_code [code]:
  "time_ok t \<longleftrightarrow> int (t_year t) < 10000 \<and> 1 \<le> t_month t \<and> t_month t \<le> 12 \<and>
     1 \<le> t_day t \<and> t_day t \<le> days_in (t_month t) (t_year t) \<and>
     t_hour t < 24 \<and> t_min t < 60 \<and> t_sec t < 60 \<and> int (t_nsec t) < 10 ^ 9 \<and> \<bar>t_off t\<bar> < 24 * 60"
proof -
  have "(10 ^ 9 :: int) = int (10 ^ 9)" by simp
  then have "int (t_nsec t) < 10 ^ 9 \<longleftrightarrow> t_nsec t < 10 ^ 9" by (simp only: of_nat_less_iff)
  then show ?thesis by (simp add: time_ok_def)
qed

definition strip_zeros :: "string \<Rightarrow> string" where
  "strip_zeros s = rev (dropWhile (\<lambda>c. c = CHR ''0'') (rev s))"

definition frac_text :: "nat \<Rightarrow> string" where
  "frac_text n = (if n = 0 then [] else CHR ''.'' # strip_zeros (digits_w 9 n))"

definition zone_text :: "int \<Rightarrow> string" where
  "zone_text off =
     (if off = 0 then ''Z''
      else (if off < 0 then CHR ''-'' else CHR ''+'') #
           digits_w 2 (nat \<bar>off\<bar> div 60) @ '':'' @ digits_w 2 (nat \<bar>off\<bar> mod 60))"

text \<open>\<^verbatim>\<open>Time.MarshalJSON\<close> without the quotes: layout \<^verbatim>\<open>RFC3339Nano\<close>.\<close>

definition time_text :: "time \<Rightarrow> string" where
  "time_text t =
     digits_w 4 (t_year t) @ ''-'' @ digits_w 2 (t_month t) @ ''-'' @ digits_w 2 (t_day t) @ ''T'' @
     digits_w 2 (t_hour t) @ '':'' @ digits_w 2 (t_min t) @ '':'' @ digits_w 2 (t_sec t) @
     frac_text (t_nsec t) @ zone_text (t_off t)"

text \<open>Exactly \<open>w\<close> digits at the head of the input.\<close>

definition take_digits :: "nat \<Rightarrow> string \<Rightarrow> (nat \<times> string) option" where
  "take_digits w s =
     (if w \<le> length s \<and> list_all is_digit (take w s) then Some (digits_val (take w s), drop w s)
      else None)"

fun take_char :: "char \<Rightarrow> string \<Rightarrow> string option" where
  "take_char c (d # ds) = (if c = d then Some ds else None)"
| "take_char c [] = None"

definition parse_frac :: "string \<Rightarrow> (nat \<times> string) option" where
  "parse_frac s = (case s of
      [] \<Rightarrow> Some (0, s)
    | c # cs \<Rightarrow>
        if c = CHR ''.'' then
          (let ds = takeWhile is_digit cs in
           if ds = [] then None
           else Some (digits_val (take 9 (ds @ replicate 9 (CHR ''0''))), dropWhile is_digit cs))
        else Some (0, s))"

definition parse_zone :: "string \<Rightarrow> int option" where
  "parse_zone s = (case s of
      [] \<Rightarrow> None
    | c # cs \<Rightarrow>
        if c = CHR ''Z'' then (if cs = [] then Some 0 else None)
        else if c = CHR ''+'' \<or> c = CHR ''-'' then
          Option.bind (take_digits 2 cs) (\<lambda>(h, r).
          Option.bind (take_char (CHR '':'') r) (\<lambda>r.
          Option.bind (take_digits 2 r) (\<lambda>(m, r).
            if h < 24 \<and> m < 60 \<and> r = [] then
              Some (if c = CHR ''-'' then - int (h * 60 + m) else int (h * 60 + m))
            else None)))
        else None)"

text \<open>\<^verbatim>\<open>parseStrictRFC3339\<close>.\<close>

definition parse_time :: "string \<Rightarrow> time option" where
  "parse_time s =
     Option.bind (take_digits 4 s) (\<lambda>(y, s).
     Option.bind (take_char (CHR ''-'') s) (\<lambda>s.
     Option.bind (take_digits 2 s) (\<lambda>(mo, s).
     Option.bind (take_char (CHR ''-'') s) (\<lambda>s.
     Option.bind (take_digits 2 s) (\<lambda>(d, s).
     Option.bind (take_char (CHR ''T'') s) (\<lambda>s.
     Option.bind (take_digits 2 s) (\<lambda>(h, s).
     Option.bind (take_char (CHR '':'') s) (\<lambda>s.
     Option.bind (take_digits 2 s) (\<lambda>(mi, s).
     Option.bind (take_char (CHR '':'') s) (\<lambda>s.
     Option.bind (take_digits 2 s) (\<lambda>(se, s).
     Option.bind (parse_frac s) (\<lambda>(ns, s).
     Option.bind (parse_zone s) (\<lambda>off.
       if 1 \<le> mo \<and> mo \<le> 12 \<and> 1 \<le> d \<and> d \<le> days_in mo y \<and> h < 24 \<and> mi < 60 \<and> se < 60
       then Some \<lparr>t_year = y, t_month = mo, t_day = d, t_hour = h, t_min = mi, t_sec = se,
                  t_nsec = ns, t_off = off\<rparr>
       else None)))))))))))))"

subsection \<open>Round trip\<close>

lemma take_digits_w [simp]: "n < 10 ^ w \<Longrightarrow> take_digits w (digits_w w n @ r) = Some (n, r)"
  by (simp add: take_digits_def digits_val_digits_w)

lemma takeWhile_eq_replicate: "takeWhile (\<lambda>c. c = x) xs = replicate (length (takeWhile (\<lambda>c. c = x) xs)) x"
  by (induction xs) auto

lemma strip_zeros_pad:
  "strip_zeros s @ replicate (length s - length (strip_zeros s)) (CHR ''0'') = s"
proof -
  let ?t = "takeWhile (\<lambda>c. c = CHR ''0'') (rev s)"
  have "rev s = ?t @ rev (strip_zeros s)" by (simp add: strip_zeros_def)
  then have s: "s = strip_zeros s @ rev ?t" by (metis rev_append rev_rev_ident)
  also have "rev ?t = replicate (length ?t) (CHR ''0'')"
    using takeWhile_eq_replicate [of "CHR ''0''" "rev s"] by (metis rev_replicate)
  also have "length ?t = length s - length (strip_zeros s)"
    using arg_cong [OF s, of length] by simp
  finally show ?thesis by simp
qed

lemma strip_zeros_digits: "list_all is_digit s \<Longrightarrow> list_all is_digit (strip_zeros s)"
  by (auto simp: strip_zeros_def list_all_iff dest: set_dropWhileD)

lemma digits_w_zero_val: "list_all (\<lambda>c. c = CHR ''0'') s \<Longrightarrow> digits_val s = 0"
  by (induction s rule: rev_induct) (simp add: digits_val_def, simp add: digits_val_snoc dig_val_def)

lemma strip_zeros_nonempty:
  assumes "0 < n" and "n < 10 ^ w"
  shows "strip_zeros (digits_w w n) \<noteq> []"
proof
  assume "strip_zeros (digits_w w n) = []"
  then have "list_all (\<lambda>c. c = CHR ''0'') (digits_w w n)"
    by (simp add: strip_zeros_def list_all_iff)
  with assms digits_val_digits_w digits_w_zero_val show False by fastforce
qed

lemma parse_frac_text:
  assumes "n < 10 ^ 9" and r: "r \<noteq> []" "\<not> is_digit (hd r)" "hd r \<noteq> CHR ''.''"
  shows "parse_frac (frac_text n @ r) = Some (n, r)"
proof (cases "n = 0")
  case True
  with r show ?thesis by (cases r) (simp_all add: parse_frac_def frac_text_def)
next
  case False
  let ?d = "digits_w 9 n" and ?s = "strip_zeros (digits_w 9 n)"
  have len: "length ?s \<le> 9"
    unfolding strip_zeros_def using length_dropWhile_le [of _ "rev ?d"] by simp
  have span: "takeWhile is_digit (?s @ r) = ?s \<and> dropWhile is_digit (?s @ r) = r"
  proof -
    have "\<forall>x \<in> set ?s. is_digit x"
      using strip_zeros_digits [OF digits_w_digits] by (simp add: list_all_iff)
    with r show ?thesis by (cases r) (simp_all add: takeWhile_append2 dropWhile_append2)
  qed
  have "take 9 (?s @ replicate 9 (CHR ''0'')) = ?s @ replicate (9 - length ?s) (CHR ''0'')"
    using len by simp
  also have "\<dots> = ?d" using strip_zeros_pad [of ?d] by simp
  finally have "digits_val (take 9 (?s @ replicate 9 (CHR ''0''))) = n"
    using assms(1) by (simp add: digits_val_digits_w)
  with False span strip_zeros_nonempty [of n 9] assms(1) show ?thesis
    by (simp add: parse_frac_def frac_text_def Let_def)
qed

lemma parse_zone_text: "\<bar>off\<bar> < 24 * 60 \<Longrightarrow> parse_zone (zone_text off) = Some off"
  by (auto simp: parse_zone_def zone_text_def less_mult_imp_div_less nat_less_iff
      take_digits_w [where r = "[]", simplified])

lemma zone_text_head: "zone_text off \<noteq> [] \<and> \<not> is_digit (hd (zone_text off)) \<and> hd (zone_text off) \<noteq> CHR ''.''"
  by (auto simp: zone_text_def is_digit_def byte_in_def)

lemma parse_time_text: "time_ok t \<Longrightarrow> parse_time (time_text t) = Some t"
proof -
  assume ok: "time_ok t"
  then have "t_day t < 100"
    by (auto simp: time_ok_def days_in_def split: if_splits)
  with ok have small: "t_year t < 10 ^ 4" "t_month t < 10 ^ 2" "t_day t < 10 ^ 2" "t_hour t < 10 ^ 2"
      "t_min t < 10 ^ 2" "t_sec t < 10 ^ 2"
    by (simp_all add: time_ok_def)
  have "parse_frac (frac_text (t_nsec t) @ zone_text (t_off t)) = Some (t_nsec t, zone_text (t_off t))"
    using ok zone_text_head by (intro parse_frac_text) (simp_all add: time_ok_def)
  with small ok parse_zone_text [of "t_off t"] show ?thesis
    unfolding parse_time_def time_text_def by (simp add: time_ok_def)
qed

text \<open>The text is ASCII and needs no escaping.\<close>

lemma digit_ascii: "is_digit c \<Longrightarrow> ascii c"
  by (auto simp: is_digit_def byte_in_def ascii_def)

lemma digits_ascii: "list_all is_digit s \<Longrightarrow> list_all ascii s"
  by (auto simp: list_all_iff digit_ascii)

lemma utf8_valid_ascii: "list_all ascii s \<Longrightarrow> utf8_valid s"
  by (induction s) auto

lemma time_text_utf8 [simp]: "utf8_valid (time_text t)"
proof (rule utf8_valid_ascii)
  have lit: "ascii (CHR ''-'')" "ascii (CHR ''T'')" "ascii (CHR '':'')" "ascii (CHR ''.'')"
      "ascii (CHR ''Z'')" "ascii (CHR ''+'')"
    by (simp_all add: ascii_def)
  then show "list_all ascii (time_text t)"
    by (simp add: time_text_def frac_text_def zone_text_def digits_ascii strip_zeros_digits)
qed

end
