(* ===== verification/Go_Struct.thy ===== *)
theory Go_Struct
  imports Go_Raw Go_Time
begin

text \<open>
  How \<^verbatim>\<open>encoding/json\<close> fills a Go struct: keys match a field tag exactly or up to case
  folding, unknown keys are skipped, \<^verbatim>\<open>null\<close> leaves a scalar unchanged, a later duplicate
  overwrites an earlier one and a value of the wrong type is an error. A decoder takes the
  JSON value and the value the field already holds. (Spare capacity of a slice that was
  decoded earlier for the same key is not tracked, and the texts of times and decimals are
  read after unescaping.)
\<close>

section \<open>JSON texts are valid UTF-8\<close>

lemma utf8_valid_append: "utf8_valid a \<Longrightarrow> utf8_valid b \<Longrightarrow> utf8_valid (a @ b)"
proof (induction a rule: utf8_valid.induct)
  case (2 c cs)
  show ?case
  proof (cases "ascii c")
    case True
    with 2 show ?thesis by simp
  next
    case False
    let ?n = "utf8_len (c # cs)"
    have n: "?n \<noteq> 0" "utf8_valid (drop (?n - 1) cs)" using "2.prems"(1) False by (auto simp: Let_def split: if_splits)
    have "utf8_len (c # cs @ b) = ?n"
      using utf8_len_take [OF n(1), of "drop ?n (c # cs) @ b"] by (simp flip: append_assoc)
    moreover have "drop (?n - 1) (cs @ b) = drop (?n - 1) cs @ b" using utf8_len_bounds [of c cs] by simp
    ultimately show ?thesis using 2 False n by (simp add: Let_def)
  qed
qed simp

lemma utf8_valid_ConsI [simp]: "ascii c \<Longrightarrow> utf8_valid (c # s) = utf8_valid s"
  by simp

lemma utf8_valid_take:
  assumes "utf8_len s \<noteq> 0"
  shows "utf8_valid (take (utf8_len s) s)"
proof (cases s)
  case Nil
  then show ?thesis by simp
next
  case (Cons c cs)
  have "utf8_len (take (utf8_len s) s) = utf8_len s" using utf8_len_take [OF assms, of "[]"] by simp
  moreover have "\<not> ascii c" using utf8_lead_high [of c cs] assms Cons by (simp add: ascii_def)
  ultimately show ?thesis using assms Cons by (cases "utf8_len s") (simp_all add: Let_def)
qed

lemma ascii_hex_digit [simp]: "ascii (hex_digit n)"
proof -
  have "list_all ascii ''0123456789abcdef''" by (simp add: ascii_def)
  moreover have "hex_digit n \<in> set ''0123456789abcdef''"
    unfolding hex_digit_def by (intro nth_mem) simp
  ultimately show ?thesis by (meson list_all_iff)
qed

lemma ascii_u_escape: "list_all ascii (u_escape n)"
  by (simp add: u_escape_def) (simp add: ascii_def)

lemma ascii_esc: "ascii c \<Longrightarrow> list_all ascii (esc_ascii c)"
proof -
  have "ascii backslash" "ascii (CHR ''b'')" "ascii (CHR ''f'')" "ascii (CHR ''n'')" "ascii (CHR ''r'')"
      "ascii (CHR ''t'')"
    by (simp_all add: ascii_def)
  moreover assume "ascii c"
  ultimately show ?thesis unfolding esc_ascii_def by (simp add: ascii_u_escape)
qed

lemma utf8_quote_body: "utf8_valid (quote_body s)"
proof (induction s rule: quote_body.induct)
  case (2 c cs)
  then show ?case
    using utf8_valid_take [of "c # cs"] ascii_u_escape [THEN utf8_valid_ascii] ascii_esc [THEN utf8_valid_ascii]
    by (auto simp: quote_body.simps(2) Let_def intro!: utf8_valid_append)
qed (simp add: quote_body.simps)

lemma ascii_punct [simp]:
  "ascii quote_char" "ascii (CHR '','')" "ascii (CHR '':'')" "ascii (CHR ''['')" "ascii (CHR '']'')"
  "ascii (CHR ''{'')" "ascii (CHR ''}'')" "ascii (CHR ''-'')" "ascii (CHR ''+'')" "ascii (CHR ''.'')"
  by (simp_all add: ascii_def)

lemma utf8_quote: "utf8_valid (quote s)"
  by (simp add: quote_def utf8_quote_body utf8_valid_append)

lemma utf8_comma_sep: "list_all utf8_valid xs \<Longrightarrow> utf8_valid (comma_sep xs)"
  by (induction xs rule: comma_sep.induct) (auto intro!: utf8_valid_append)

lemma num_char_ascii: "num_char c \<Longrightarrow> ascii c"
  by (auto simp: num_char_def digit_ascii) (simp_all add: ascii_def)

lemma utf8_literals: "utf8_valid ''null''" "utf8_valid ''true''" "utf8_valid ''false''"
  by (rule utf8_valid_ascii, simp add: ascii_def)+

lemma utf8_print_json: "json_wf j \<Longrightarrow> utf8_valid (print_json j)"
proof (induction j)
  case (JNum l)
  then show ?case
    using valid_num_chars by (auto simp: list_all_iff num_char_ascii intro!: utf8_valid_ascii)
next
  case (JArr js)
  then show ?case by (auto simp: list_all_iff intro!: utf8_valid_append utf8_comma_sep)
next
  case (JObj ms)
  have "utf8_valid (quote k @ CHR '':'' # print_json v)" if "(k, v) \<in> set ms" for k v
    using JObj that by (intro utf8_valid_append) (auto simp: utf8_quote list_all_iff)
  then have "utf8_valid (comma_sep (map (\<lambda>(k, v). quote k @ CHR '':'' # print_json v) ms))"
    by (intro utf8_comma_sep) (auto simp: list_all_iff simp del: utf8_valid.simps)
  then show ?case by (simp add: utf8_valid_append)
qed (simp_all add: utf8_quote utf8_literals del: utf8_valid.simps utf8_valid_ConsI)

section \<open>Field names\<close>

definition upper_ascii :: "char \<Rightarrow> char" where
  "upper_ascii c = (if byte_in c 0x61 0x7A then char_of (of_char c - 32 :: nat) else c)"

text \<open>
  \<^verbatim>\<open>foldName\<close>, for tags that are ASCII: letters to upper case, and the two other code points
  whose simple folding is an ASCII letter (U+017F, long s, and U+212A, the Kelvin sign).
\<close>

function fold_name :: "string \<Rightarrow> string" where
  "fold_name [] = []"
| "fold_name (c # cs) =
     (if take 2 (c # cs) = [CHR 0xC5, CHR 0xBF] then CHR ''S'' # fold_name (drop 1 cs)
      else if take 3 (c # cs) = [CHR 0xE2, CHR 0x84, CHR 0xAA] then CHR ''K'' # fold_name (drop 2 cs)
      else upper_ascii c # fold_name cs)"
  by pat_completeness auto
termination by (relation "measure length") auto

definition field_of :: "(string \<times> 'f) list \<Rightarrow> string \<Rightarrow> 'f option" where
  "field_of fs k = (case map_of fs k of
      Some f \<Rightarrow> Some f
    | None \<Rightarrow> map_option snd (List.find (\<lambda>nf. fold_name (fst nf) = fold_name k) fs))"

lemma field_of_exact [simp]: "map_of fs k = Some f \<Longrightarrow> field_of fs k = Some f"
  by (simp add: field_of_def)

section \<open>Structs\<close>

type_synonym ('j, 'r) fields = "(string \<times> ('j \<Rightarrow> 'r \<Rightarrow> 'r option)) list"

fun decode_members :: "('j, 'r) fields \<Rightarrow> (string \<times> 'j) list \<Rightarrow> 'r \<Rightarrow> 'r option" where
  "decode_members fs [] r = Some r"
| "decode_members fs ((k, j) # ms) r =
     (case field_of fs k of
        None \<Rightarrow> decode_members fs ms r
      | Some f \<Rightarrow> (case f j r of None \<Rightarrow> None | Some r' \<Rightarrow> decode_members fs ms r'))"

fun decode_struct :: "(json, 'r) fields \<Rightarrow> json \<Rightarrow> 'r \<Rightarrow> 'r option" where
  "decode_struct fs JNull r = Some r"
| "decode_struct fs (JObj ms) r = decode_members fs ms r"
| "decode_struct fs _ r = None"

text \<open>A field given by its selector, its record update and the decoder of its type.\<close>

definition fld :: "('r \<Rightarrow> 'v) \<Rightarrow> (('v \<Rightarrow> 'v) \<Rightarrow> 'r \<Rightarrow> 'r) \<Rightarrow> ('j \<Rightarrow> 'v \<Rightarrow> 'v option) \<Rightarrow> 'j \<Rightarrow> 'r \<Rightarrow> 'r option" where
  "fld get upd d = (\<lambda>j r. map_option (\<lambda>v. upd (\<lambda>_. v) r) (d j (get r)))"

lemma fld_apply [simp]: "fld get upd d j r = map_option (\<lambda>v. upd (\<lambda>_. v) r) (d j (get r))"
  by (simp add: fld_def)

section \<open>Scalars, slices and pointers\<close>

fun dec_string :: "json \<Rightarrow> string \<Rightarrow> string option" where
  "dec_string JNull old = Some old"
| "dec_string (JStr s) old = Some s"
| "dec_string _ old = None"

fun dec_int :: "json \<Rightarrow> int \<Rightarrow> int option" where
  "dec_int JNull old = Some old"
| "dec_int (JNum l) old = parse_int l"
| "dec_int _ old = None"

fun dec_bool :: "json \<Rightarrow> bool \<Rightarrow> bool option" where
  "dec_bool JNull old = Some old"
| "dec_bool (JBool b) old = Some b"
| "dec_bool _ old = None"

fun dec_time :: "json \<Rightarrow> time \<Rightarrow> time option" where
  "dec_time JNull old = Some old"
| "dec_time (JStr s) old = parse_time s"
| "dec_time _ old = None"

fun dec_elems :: "(json \<Rightarrow> 'a \<Rightarrow> 'a option) \<Rightarrow> 'a \<Rightarrow> 'a list \<Rightarrow> json list \<Rightarrow> 'a list option" where
  "dec_elems d z old [] = Some []"
| "dec_elems d z old (j # js) =
     (case d j (case old of [] \<Rightarrow> z | x # _ \<Rightarrow> x) of
        None \<Rightarrow> None
      | Some v \<Rightarrow> map_option (Cons v) (dec_elems d z (tl old) js))"

text \<open>A slice is nil (\<open>None\<close>) or a list; an empty JSON array gives an empty, non-nil slice.\<close>

fun dec_slice :: "(json \<Rightarrow> 'a \<Rightarrow> 'a option) \<Rightarrow> 'a \<Rightarrow> json \<Rightarrow> 'a list option \<Rightarrow> 'a list option option" where
  "dec_slice d z JNull old = Some None"
| "dec_slice d z (JArr js) old =
     map_option Some (dec_elems d z (case old of None \<Rightarrow> [] | Some xs \<Rightarrow> xs) js)"
| "dec_slice d z _ old = None"

definition dec_ptr :: "(json \<Rightarrow> 'a \<Rightarrow> 'a option) \<Rightarrow> 'a \<Rightarrow> json \<Rightarrow> 'a option \<Rightarrow> 'a option option" where
  "dec_ptr d z j old =
     (if j = JNull then Some None
      else map_option Some (d j (case old of None \<Rightarrow> z | Some x \<Rightarrow> x)))"

section \<open>Encoding\<close>

definition int64 :: "int \<Rightarrow> bool" where
  "int64 n \<longleftrightarrow> - (2 ^ 63) \<le> n \<and> n < 2 ^ 63"

definition json_int :: "int \<Rightarrow> json" where
  "json_int n = JNum (print_int n)"

text \<open>A nil slice is \<^verbatim>\<open>null\<close>.\<close>

definition json_slice :: "('a \<Rightarrow> json) \<Rightarrow> 'a list option \<Rightarrow> json" where
  "json_slice f xs = (case xs of None \<Rightarrow> JNull | Some ys \<Rightarrow> JArr (map f ys))"

text \<open>The tag option \<^verbatim>\<open>omitempty\<close>: the member is left out when the value is the zero one.\<close>

definition omitempty :: "bool \<Rightarrow> string \<Rightarrow> json \<Rightarrow> (string \<times> json) list" where
  "omitempty z k j = (if z then [] else [(k, j)])"

lemma dec_json_int [simp]: "int64 n \<Longrightarrow> dec_int (json_int n) old = Some n"
  by (simp add: json_int_def int64_def parse_print_int)

lemma json_wf_json_int [simp]: "json_wf (json_int n)"
  by (simp add: json_int_def)

lemma dec_time_text [simp]: "time_ok t \<Longrightarrow> dec_time (JStr (time_text t)) old = Some t"
  by (simp add: parse_time_text)

lemma dec_elems_map:
  "(\<And>x old. x \<in> set xs \<Longrightarrow> d (f x) old = Some (g x)) \<Longrightarrow> dec_elems d z old (map f xs) = Some (map g xs)"
  by (induction xs arbitrary: old) simp_all

lemma dec_slice_json [simp]:
  assumes "\<And>ys x old. xs = Some ys \<Longrightarrow> x \<in> set ys \<Longrightarrow> d (f x) old = Some x"
  shows "dec_slice d z (json_slice f xs) old = Some xs"
  using assms dec_elems_map [of _ d f "\<lambda>x. x" z] by (cases xs) (simp_all add: json_slice_def)

lemma json_wf_slice [simp]:
  "json_wf (json_slice f xs) \<longleftrightarrow> (\<forall>ys. xs = Some ys \<longrightarrow> list_all (\<lambda>x. json_wf (f x)) ys)"
  by (cases xs) (simp_all add: json_slice_def list_all_iff)

end
