(* ===== verification/Money.thy ===== *)
theory Money
  imports Go_Time "HOL-Library.Log_Nat"
begin

text \<open>
  Numbers of the pricing code: Go's \<^verbatim>\<open>float64\<close> (IEEE 754 binary64, round to nearest even)
  and the interface of the third-party package \<^verbatim>\<open>shopspring/decimal\<close>. The decimal package is
  a parameter of the model: a record of the operations the repository calls, and a locale
  with their documented behaviour. An instance with an integer coefficient and a decimal
  exponent shows that the laws can hold together.
\<close>

section \<open>Binary64\<close>

text \<open>Finite values are represented by the rational they denote; the sign of zero is not kept.\<close>

datatype float64 = Fin rat | PosInf | NegInf | NaN

definition round_he :: "rat \<Rightarrow> int" where
  "round_he x =
     (let n = \<lfloor>x\<rfloor>; d = x - of_int n
      in if d < 1 / 2 then n else if 1 / 2 < d then n + 1 else if even n then n else n + 1)"

text \<open>The exponent \<open>e\<close> with \<open>2 ^ e \<le> q < 2 ^ (e + 1)\<close>, for positive \<open>q\<close>.\<close>

definition ilog2 :: "rat \<Rightarrow> int" where
  "ilog2 q = (case quotient_of q of (n, d) \<Rightarrow>
     let k = int (floorlog 2 (nat n)) - int (floorlog 2 (nat d))
     in if 2 powi k \<le> q then k else k - 1)"

text \<open>The number of binary digits, by integer arithmetic, for evaluation.\<close>

function blen :: "int \<Rightarrow> int" where
  "blen n = (if n \<le> 0 then 0 else 1 + blen (n div 2))"
  by pat_completeness auto
termination by (relation "measure nat") auto

declare blen.simps [simp del]

lemma blen_floorlog: "blen n = int (floorlog 2 (nat n))"
proof (induction n rule: blen.induct)
  case (1 n)
  then show ?case
    by (subst blen.simps, subst compute_floorlog) (simp add: nat_div_distrib)
qed

lemma ilog2_code [code]:
  "ilog2 q = (case quotient_of q of (n, d) \<Rightarrow>
     let k = blen n - blen d in if 2 powi k \<le> q then k else k - 1)"
  by (simp add: ilog2_def blen_floorlog)

text \<open>The weight of the last bit of the significand, with gradual underflow.\<close>

definition ulp_exp :: "rat \<Rightarrow> int" where
  "ulp_exp q = max (ilog2 \<bar>q\<bar> - 52) (-1074)"

definition round64 :: "rat \<Rightarrow> float64" where
  "round64 q =
     (if q = 0 then Fin 0
      else let u = ulp_exp q; v = of_int (round_he (q / 2 powi u)) * 2 powi u
        in if 2 ^ 1024 \<le> \<bar>v\<bar> then (if 0 < q then PosInf else NegInf) else Fin v)"

fun fneg :: "float64 \<Rightarrow> float64" where
  "fneg (Fin q) = Fin (- q)"
| "fneg PosInf = NegInf"
| "fneg NegInf = PosInf"
| "fneg NaN = NaN"

fun fadd :: "float64 \<Rightarrow> float64 \<Rightarrow> float64" where
  "fadd NaN _ = NaN"
| "fadd _ NaN = NaN"
| "fadd (Fin a) (Fin b) = round64 (a + b)"
| "fadd PosInf NegInf = NaN"
| "fadd NegInf PosInf = NaN"
| "fadd PosInf _ = PosInf"
| "fadd NegInf _ = NegInf"
| "fadd _ PosInf = PosInf"
| "fadd _ NegInf = NegInf"

definition fsub :: "float64 \<Rightarrow> float64 \<Rightarrow> float64" where
  "fsub a b = fadd a (fneg b)"

definition is_finite :: "float64 \<Rightarrow> bool" where
  "is_finite f \<longleftrightarrow> (case f of Fin _ \<Rightarrow> True | _ \<Rightarrow> False)"

text \<open>The rationals that are binary64 values.\<close>

definition representable :: "rat \<Rightarrow> bool" where
  "representable q \<longleftrightarrow> round64 q = Fin q"

subsection \<open>Rounding a representable value changes nothing\<close>

lemma round_he_of_int [simp]: "round_he (of_int n) = n"
  by (simp add: round_he_def)

lemma round_he_le: "x \<le> of_int n \<Longrightarrow> round_he x \<le> n"
proof (cases "x = of_int n")
  case False
  assume "x \<le> of_int n"
  with False have "\<lfloor>x\<rfloor> < n" by (simp add: floor_less_iff)
  then show ?thesis by (auto simp: round_he_def Let_def)
qed simp

lemma round_he_ge: "of_int n \<le> x \<Longrightarrow> n \<le> round_he x"
proof -
  assume "of_int n \<le> x"
  then have "n \<le> \<lfloor>x\<rfloor>" by (simp add: le_floor_iff)
  then show ?thesis by (auto simp: round_he_def Let_def)
qed

lemma floorlog_rat:
  assumes "0 < n"
  shows "(2::rat) powi (int (floorlog 2 (nat n)) - 1) \<le> of_int n \<and> of_int n < (2::rat) powi int (floorlog 2 (nat n))"
proof -
  let ?w = "floorlog 2 (nat n)"
  have "2 ^ (?w - 1) \<le> nat n \<and> nat n < 2 ^ ?w" using assms by (intro floorlog_bounds) simp_all
  moreover have "0 < ?w" using assms by (simp add: floorlog_def)
  ultimately have "(2::int) ^ (?w - 1) \<le> n \<and> n < 2 ^ ?w"
    using assms by (metis int_nat_eq less_imp_le of_nat_le_iff of_nat_less_iff of_nat_numeral of_nat_power)
  then have "(2::rat) ^ (?w - 1) \<le> of_int n \<and> of_int n < (2::rat) ^ ?w"
    by (metis of_int_le_iff of_int_less_iff of_int_numeral of_int_power)
  moreover have "int ?w - 1 = int (?w - 1)" using \<open>0 < ?w\<close> by simp
  ultimately show ?thesis by (metis power_int_of_nat)
qed

lemma powi_frac:
  fixes n d :: rat
  assumes "2 powi a \<le> n" "n < 2 powi b" "2 powi c \<le> d" "d < 2 powi e"
  shows "2 powi (a - e) < n / d \<and> n / d < 2 powi (b - c)"
proof -
  have pos: "(0::rat) < 2 powi k" for k by simp
  then have d: "0 < d" using assms(3) by (meson less_le_trans)
  have "2 powi (a - e) * d < 2 powi (a - e) * 2 powi e" using assms(4) pos by simp
  also have "\<dots> = 2 powi a" by (simp flip: power_int_add)
  also have "\<dots> \<le> n" by fact
  finally have 1: "2 powi (a - e) < n / d" using d by (simp add: field_simps)
  have "n < 2 powi (b - c) * 2 powi c" using assms(2) by (simp flip: power_int_add)
  also have "\<dots> \<le> 2 powi (b - c) * d" using assms(3) pos by simp
  finally have "n / d < 2 powi (b - c)" using d by (simp add: field_simps)
  with 1 show ?thesis by simp
qed

lemma ilog2_bounds:
  assumes "0 < q"
  shows "2 powi ilog2 q \<le> q \<and> q < 2 powi (ilog2 q + 1)"
proof -
  obtain n d where nd: "quotient_of q = (n, d)" by fastforce
  then have q: "q = of_int n / of_int d" and d: "0 < d"
    using quotient_of_div quotient_of_denom_pos by blast+
  with assms have n: "0 < n" by (simp add: zero_less_divide_iff)
  define k where "k = int (floorlog 2 (nat n)) - int (floorlog 2 (nat d))"
  have "2 powi (k - 1) < q \<and> q < 2 powi (k + 1)"
    using powi_frac [OF floorlog_rat [OF n, THEN conjunct1] floorlog_rat [OF n, THEN conjunct2]
        floorlog_rat [OF d, THEN conjunct1] floorlog_rat [OF d, THEN conjunct2]]
    unfolding q k_def by (simp add: algebra_simps)
  then show ?thesis
    by (auto simp: ilog2_def nd k_def [symmetric] Let_def)
qed

lemma powi_mono: "(a::int) \<le> b \<Longrightarrow> (2::rat) powi a \<le> 2 powi b"
  by (simp add: power_int_increasing)

lemma powi_strict: "(a::int) < b \<Longrightarrow> (2::rat) powi a < 2 powi b"
  by (simp add: power_int_strict_increasing)

lemma powi_less_cancel: "(2::rat) powi a < 2 powi b \<Longrightarrow> a < b"
  using powi_mono [of b a] by linarith

lemma round64_grid:
  assumes "m \<noteq> 0" and "\<bar>m\<bar> \<le> 2 ^ 53" and "-1074 \<le> u"
  shows "of_int (round_he ((of_int m * 2 powi u) / 2 powi ulp_exp (of_int m * 2 powi u)))
      * 2 powi ulp_exp (of_int m * 2 powi u) = (of_int m * 2 powi u :: rat)"
proof -
  let ?v = "of_int m * 2 powi u :: rat"
  let ?w = "ulp_exp ?v"
  have abs_v: "\<bar>?v\<bar> = of_int \<bar>m\<bar> * 2 powi u" by (simp add: abs_mult)
  have lb: "2 powi ilog2 \<bar>?v\<bar> \<le> \<bar>?v\<bar>" using assms(1) by (intro ilog2_bounds [THEN conjunct1]) simp
  have "\<exists>k::int. ?v / 2 powi ?w = of_int k"
  proof (cases "\<bar>m\<bar> = 2 ^ 53")
    case False
    with assms(2) have "\<bar>m\<bar> < 2 ^ 53" by simp
    then have "of_int \<bar>m\<bar> < (2 ^ 53 :: rat)" by (metis of_int_less_iff of_int_numeral of_int_power)
    then have "\<bar>?v\<bar> < 2 powi 53 * 2 powi u" unfolding abs_v by simp
    also have "\<dots> = 2 powi (53 + u)" by (simp add: power_int_add)
    finally have "ilog2 \<bar>?v\<bar> < 53 + u" using lb powi_less_cancel order.strict_trans1 by blast
    with assms(3) have "?w \<le> u" by (simp add: ulp_exp_def)
    then have "?v / 2 powi ?w = of_int m * 2 ^ nat (u - ?w)"
      by (simp add: power_int_def [of 2 "u - ?w"] flip: power_int_diff times_divide_eq_right)
    then show ?thesis by (metis of_int_mult of_int_numeral of_int_power)
  next
    case True
    have "\<bar>?v\<bar> = 2 powi (53 + u)" unfolding abs_v True by (simp add: power_int_add)
    with ilog2_bounds [of "\<bar>?v\<bar>"] have "2 powi ilog2 \<bar>?v\<bar> \<le> (2 powi (53 + u) :: rat)"
        "(2 powi (53 + u) :: rat) < 2 powi (ilog2 \<bar>?v\<bar> + 1)"
      by simp_all
    then have "ilog2 \<bar>?v\<bar> = 53 + u"
      using powi_less_cancel [of "53 + u" "ilog2 \<bar>?v\<bar> + 1"] powi_strict [of "53 + u" "ilog2 \<bar>?v\<bar>"]
      by linarith
    with assms(3) have w: "?w = u + 1" by (simp add: ulp_exp_def)
    have "even \<bar>m\<bar>" unfolding True by simp
    then have "m = 2 * (m div 2)" by simp
    then have "?v / 2 powi ?w = of_int (m div 2)"
      unfolding w by (simp add: power_int_add field_simps)
    then show ?thesis by blast
  qed
  then obtain k :: int where k: "?v / 2 powi ?w = of_int k" by blast
  then have "?v = of_int k * 2 powi ?w" by (simp add: field_simps)
  with k show ?thesis by simp
qed

lemma round64_Fin:
  assumes "round64 q = Fin v"
  shows "representable v"
proof (cases "q = 0")
  case True
  with assms show ?thesis by (auto simp: round64_def representable_def)
next
  case False
  let ?u = "ulp_exp q"
  define m where "m = round_he (q / 2 powi ?u)"
  have v: "v = of_int m * 2 powi ?u" and fin: "\<bar>v\<bar> < 2 ^ 1024"
    using assms False by (auto simp: round64_def m_def Let_def split: if_splits)
  have u: "-1074 \<le> ?u" "ilog2 \<bar>q\<bar> - 52 \<le> ?u" by (simp_all add: ulp_exp_def)
  have "\<bar>q\<bar> < 2 powi (ilog2 \<bar>q\<bar> + 1)" using False by (intro ilog2_bounds [THEN conjunct2]) simp
  also have "\<dots> \<le> 2 powi (53 + ?u)" using u(2) by (intro powi_mono) simp
  finally have "\<bar>q / 2 powi ?u\<bar> \<le> 2 ^ 53" by (simp add: power_int_add field_simps abs_mult)
  then have "q / 2 powi ?u \<le> 2 ^ 53 \<and> - (q / 2 powi ?u) \<le> 2 ^ 53" by (simp only: abs_le_iff)
  then have "q / 2 powi ?u \<le> of_int (2 ^ 53)" "of_int (- (2 ^ 53)) \<le> q / 2 powi ?u"
    by simp_all
  then have "\<bar>m\<bar> \<le> 2 ^ 53"
    unfolding m_def using round_he_le round_he_ge by (metis abs_le_iff minus_le_iff)
  then have grid: "of_int (round_he (v / 2 powi ulp_exp v)) * 2 powi ulp_exp v = v" if "m \<noteq> 0"
    using round64_grid [OF that _ u(1)] v by simp
  show ?thesis
  proof (cases "m = 0")
    case True
    with v show ?thesis by (simp add: representable_def round64_def)
  next
    case False
    with grid fin v show ?thesis unfolding representable_def round64_def by (simp add: Let_def)
  qed
qed

lemma representable_zero [simp]: "representable 0"
  by (simp add: representable_def round64_def)

text \<open>Integers up to \<open>2 ^ 53\<close> are exact.\<close>

lemma representable_int:
  assumes "\<bar>n\<bar> \<le> 2 ^ 53"
  shows "representable (of_int n)"
proof (cases "n = 0")
  case False
  have "of_int (round_he (of_int n / 2 powi ulp_exp (of_int n))) * 2 powi ulp_exp (of_int n) = (of_int n :: rat)"
    using round64_grid [OF False assms, of 0] by simp
  moreover have "\<bar>of_int n :: rat\<bar> \<le> of_int (2 ^ 53)" using assms by (metis of_int_abs of_int_le_iff)
  then have "\<bar>of_int n :: rat\<bar> < 2 ^ 1024" by (rule le_less_trans) simp
  ultimately show ?thesis using False by (simp add: representable_def round64_def Let_def)
qed simp

lemma fsub_zero [simp]: "fsub (round64 q) (Fin 0) = round64 q"
  using round64_Fin [of q] by (cases "round64 q") (simp_all add: fsub_def representable_def)

lemma fadd_zero [simp]: "fadd (Fin 0) (round64 q) = round64 q"
  using round64_Fin [of q] by (cases "round64 q") (simp_all add: representable_def)

section \<open>The decimal package\<close>

text \<open>
  The operations of \<^verbatim>\<open>shopspring/decimal\<close> the repository calls. \<open>d_marshal\<close> and
  \<open>d_unmarshal\<close> are the JSON codec of a decimal field; \<^verbatim>\<open>NewFromFloat\<close> panics on NaN and
  infinities, so its result is an outcome.
\<close>

record 'd decimal_ops =
  d_zero :: 'd
  d_add :: "'d \<Rightarrow> 'd \<Rightarrow> 'd"
  d_sub :: "'d \<Rightarrow> 'd \<Rightarrow> 'd"
  d_mul :: "'d \<Rightarrow> 'd \<Rightarrow> 'd"
  d_less :: "'d \<Rightarrow> 'd \<Rightarrow> bool"
  d_of_int :: "int \<Rightarrow> 'd"
  d_of_float :: "float64 \<Rightarrow> 'd res"
  d_to_float :: "'d \<Rightarrow> float64"
  d_marshal :: "'d \<Rightarrow> json"
  d_unmarshal :: "json \<Rightarrow> 'd option"

text \<open>
  Documented behaviour: decimals are exact numbers under addition, subtraction and
  multiplication; \<^verbatim>\<open>InexactFloat64\<close> is the nearest binary64 value; \<^verbatim>\<open>NewFromFloat\<close> keeps
  enough digits for a reliable round trip, and the literals 0 and 0.1 become those
  decimals; the JSON codec keeps the value.
\<close>

locale decimal_lib =
  fixes dec :: "'d decimal_ops" and val :: "'d \<Rightarrow> rat"
  assumes val_zero [simp]: "val (d_zero dec) = 0"
    and val_add [simp]: "val (d_add dec a b) = val a + val b"
    and val_sub [simp]: "val (d_sub dec a b) = val a - val b"
    and val_mul [simp]: "val (d_mul dec a b) = val a * val b"
    and val_less [simp]: "d_less dec a b \<longleftrightarrow> val a < val b"
    and val_of_int [simp]: "val (d_of_int dec n) = of_int n"
    and of_float_round: "representable q \<Longrightarrow> \<exists>d. d_of_float dec (Fin q) = Ok d \<and> d_to_float dec d = Fin q"
    and of_float_zero: "\<exists>d. d_of_float dec (Fin 0) = Ok d \<and> val d = 0"
    and of_float_tenth: "\<exists>d. d_of_float dec (round64 (1 / 10)) = Ok d \<and> val d = 1 / 10"
    and to_float [simp]: "d_to_float dec d = round64 (val d)"
    and marshal_wf [simp]: "json_wf (d_marshal dec d)"
    and marshal_not_null [simp]: "d_marshal dec d \<noteq> JNull"
    and unmarshal_marshal: "\<exists>d'. d_unmarshal dec (d_marshal dec d) = Some d' \<and> val d' = val d"
begin

lemma val_fold_add: "val (foldl (d_add dec) d xs) = val d + sum_list (map val xs)"
  by (induction xs arbitrary: d) (simp_all add: algebra_simps)

end

section \<open>An instance: coefficient and exponent\<close>

type_synonym dec10 = "int \<times> int"

definition dec10_val :: "dec10 \<Rightarrow> rat" where
  "dec10_val d = of_int (fst d) * 10 powi snd d"

text \<open>The coefficient of a decimal at a smaller exponent.\<close>

definition dec10_at :: "int \<Rightarrow> dec10 \<Rightarrow> int" where
  "dec10_at e d = fst d * 10 ^ nat (snd d - e)"

definition dec10_add :: "dec10 \<Rightarrow> dec10 \<Rightarrow> dec10" where
  "dec10_add a b = (let e = min (snd a) (snd b) in (dec10_at e a + dec10_at e b, e))"

definition dec10_neg :: "dec10 \<Rightarrow> dec10" where
  "dec10_neg a = (- fst a, snd a)"

definition dec10_mul :: "dec10 \<Rightarrow> dec10 \<Rightarrow> dec10" where
  "dec10_mul a b = (fst a * fst b, snd a + snd b)"

text \<open>The fewest decimals that still round to the given binary64 value (at most 1074 are needed).\<close>

definition max_decimals :: nat where
  "max_decimals = 1074"

definition dec10_of_rat :: "rat \<Rightarrow> dec10 res" where
  "dec10_of_rat q =
     (case List.find (\<lambda>k. round64 (of_int (round_he (q * 10 ^ k)) / 10 ^ k) = Fin q) [0..<Suc max_decimals] of
        None \<Rightarrow> Panic
      | Some k \<Rightarrow> Ok (round_he (q * 10 ^ k), - int k))"

text \<open>The same search step by step, for evaluation.\<close>

fun find_decimals :: "rat \<Rightarrow> nat \<Rightarrow> nat \<Rightarrow> dec10 res" where
  "find_decimals q k 0 = Panic"
| "find_decimals q k (Suc n) =
     (let m = round_he (q * 10 ^ k) in
      if round64 (of_int m / 10 ^ k) = Fin q then Ok (m, - int k) else find_decimals q (Suc k) n)"

lemma find_decimals_find:
  "find_decimals q k n =
     (case List.find (\<lambda>k. round64 (of_int (round_he (q * 10 ^ k)) / 10 ^ k) = Fin q) [k..<k + n] of
        None \<Rightarrow> Panic
      | Some k \<Rightarrow> Ok (round_he (q * 10 ^ k), - int k))"
  by (induction n arbitrary: k) (simp_all add: upt_conv_Cons Let_def del: upt_Suc)

lemma dec10_of_rat_code [code]: "dec10_of_rat q = find_decimals q 0 (Suc max_decimals)"
  by (simp add: find_decimals_find dec10_of_rat_def del: upt_Suc find_decimals.simps)

definition dec10_of_float :: "float64 \<Rightarrow> dec10 res" where
  "dec10_of_float f = (case f of Fin q \<Rightarrow> dec10_of_rat q | _ \<Rightarrow> Panic)"

text \<open>The scientific notation \<^verbatim>\<open>NewFromString\<close> accepts, in a JSON string.\<close>

definition dec10_marshal :: "dec10 \<Rightarrow> json" where
  "dec10_marshal d = JStr (print_int (fst d) @ CHR ''e'' # print_int (snd d))"

definition signed_val :: "string \<Rightarrow> int" where
  "signed_val s = (case s of
      [] \<Rightarrow> 0
    | c # cs \<Rightarrow> if c = CHR ''-'' then - int (digits_val cs) else int (digits_val s))"

fun dec10_unmarshal :: "json \<Rightarrow> dec10 option" where
  "dec10_unmarshal (JStr s) =
     (case dropWhile (\<lambda>c. c \<noteq> CHR ''e'') s of
        [] \<Rightarrow> None
      | _ # ex \<Rightarrow> Some (signed_val (takeWhile (\<lambda>c. c \<noteq> CHR ''e'') s), signed_val ex))"
| "dec10_unmarshal _ = None"

definition dec10 :: "dec10 decimal_ops" where
  "dec10 = \<lparr>d_zero = (0, 0), d_add = dec10_add, d_sub = (\<lambda>a b. dec10_add a (dec10_neg b)),
            d_mul = dec10_mul, d_less = (\<lambda>a b. dec10_val a < dec10_val b),
            d_of_int = (\<lambda>n. (n, 0)), d_of_float = dec10_of_float,
            d_to_float = (\<lambda>d. round64 (dec10_val d)),
            d_marshal = dec10_marshal, d_unmarshal = dec10_unmarshal\<rparr>"

lemma dec10_at_val: "e \<le> snd d \<Longrightarrow> of_int (dec10_at e d) * 10 powi e = dec10_val d"
proof -
  assume "e \<le> snd d"
  then have "(10::rat) ^ nat (snd d - e) = 10 powi (snd d - e)" by (simp add: power_int_def)
  then show ?thesis by (simp add: dec10_at_def dec10_val_def power_int_diff)
qed

lemma dec10_val_add: "dec10_val (dec10_add a b) = dec10_val a + dec10_val b"
proof -
  let ?e = "min (snd a) (snd b)"
  have "dec10_val (dec10_add a b) = of_int (dec10_at ?e a) * 10 powi ?e + of_int (dec10_at ?e b) * 10 powi ?e"
    by (simp add: dec10_add_def dec10_val_def Let_def distrib_right)
  then show ?thesis by (simp add: dec10_at_val)
qed

lemma dec10_val_neg: "dec10_val (dec10_neg a) = - dec10_val a"
  by (simp add: dec10_neg_def dec10_val_def)

lemma dec10_val_mul: "dec10_val (dec10_mul a b) = dec10_val a * dec10_val b"
  by (simp add: dec10_mul_def dec10_val_def power_int_add)

lemma signed_val_print: "signed_val (print_int n) = n"
proof (cases "n < 0")
  case True
  then show ?thesis by (simp add: signed_val_def print_int_def digits_val_print_nat)
next
  case False
  obtain c cs where p: "print_nat (nat n) = c # cs"
    using print_nat_digits [of "nat n"] by (auto simp: nonempty_digits_def neq_Nil_conv)
  with False print_nat_not_minus [OF p] digits_val_print_nat [of "nat n"] show ?thesis
    by (simp add: signed_val_def print_int_def)
qed

lemma print_int_chars: "list_all (\<lambda>c. is_digit c \<or> c = CHR ''-'') (print_int n)"
  using print_nat_digits by (auto simp: print_int_def nonempty_digits_def list_all_iff)

lemma dec10_unmarshal_marshal: "dec10_unmarshal (dec10_marshal d) = Some d"
proof -
  have "\<forall>c \<in> set (print_int (fst d)). c \<noteq> CHR ''e''"
    using print_int_chars [of "fst d"] by (auto simp: list_all_iff is_digit_def byte_in_def)
  then show ?thesis
    by (simp add: dec10_marshal_def signed_val_print takeWhile_append2 dropWhile_append2)
qed

lemma dec10_marshal_wf: "json_wf (dec10_marshal d)"
proof -
  have "list_all ascii (print_int n)" for n
    using print_int_chars [of n] digit_ascii by (auto simp: list_all_iff ascii_def)
  moreover have "ascii (CHR ''e'')" by (simp add: ascii_def)
  ultimately show ?thesis by (simp add: dec10_marshal_def utf8_valid_ascii)
qed

lemma shift_decimals:
  fixes q :: rat
  assumes "q = of_int m * 2 powi u" and "- int N \<le> u"
  shows "q * 10 ^ N = of_int (m * 2 ^ nat (u + int N) * 5 ^ N)"
proof -
  have "(2::rat) powi u * 2 ^ N = 2 powi (u + int N)" by (simp add: power_int_add)
  also have "\<dots> = 2 ^ nat (u + int N)" using assms(2) by (simp add: power_int_def)
  finally have "2 powi u * 2 ^ N = (2::rat) ^ nat (u + int N)" .
  moreover have "(10::rat) ^ N = 2 ^ N * 5 ^ N" by (simp flip: power_mult_distrib)
  ultimately show ?thesis unfolding assms(1) by (simp add: mult.assoc [symmetric])
qed

text \<open>Every binary64 value has at most 1074 decimals, so the search always ends.\<close>

lemma representable_decimals:
  assumes "representable q"
  shows "of_int (round_he (q * 10 ^ max_decimals)) / 10 ^ max_decimals = q"
proof -
  define u where "u = ulp_exp q"
  define m where "m = round_he (q / 2 powi u)"
  have "q = of_int (if q = 0 then 0 else m) * 2 powi u"
    using assms by (auto simp: representable_def round64_def m_def u_def Let_def split: if_splits)
  moreover have "- int max_decimals \<le> u" by (simp add: u_def ulp_exp_def max_decimals_def)
  ultimately obtain k :: int where k: "q * 10 ^ max_decimals = of_int k" using shift_decimals by blast
  then have "of_int (round_he (q * 10 ^ max_decimals)) / 10 ^ max_decimals
      = q * 10 ^ max_decimals / 10 ^ max_decimals" by simp
  also have "\<dots> = q" by (rule nonzero_mult_div_cancel_right) simp
  finally show ?thesis .
qed

lemma dec10_of_rat_round:
  assumes "representable q"
  shows "\<exists>d. dec10_of_rat q = Ok d \<and> round64 (dec10_val d) = Fin q"
proof -
  let ?P = "\<lambda>k. round64 (of_int (round_he (q * 10 ^ k)) / 10 ^ k) = Fin q"
  have "?P max_decimals" using representable_decimals [OF assms] assms by (simp only: representable_def)
  then have "List.find ?P [0..<Suc max_decimals] \<noteq> None"
    unfolding find_None_iff by (metis atLeast_upt lessThan_iff lessI)
  then obtain k where k: "List.find ?P [0..<Suc max_decimals] = Some k" by blast
  then have "?P k" unfolding find_Some_iff by blast
  moreover have "dec10_val (round_he (q * 10 ^ k), - int k) = of_int (round_he (q * 10 ^ k)) / 10 ^ k"
    by (simp add: dec10_val_def power_int_minus divide_inverse)
  ultimately show ?thesis unfolding dec10_of_rat_def k by simp
qed

lemma dec10_of_zero: "dec10_of_rat 0 = Ok (0, 0)"
proof -
  have "round64 (of_int (round_he (0 * 10 ^ 0)) / 10 ^ 0) = Fin (0 :: rat)"
    using round_he_of_int [of 0] by (simp add: round64_def)
  then have "List.find (\<lambda>k. round64 (of_int (round_he (0 * 10 ^ k)) / 10 ^ k) = Fin (0 :: rat)) [0..<Suc max_decimals] = Some 0"
    by (simp add: upt_conv_Cons del: upt_Suc)
  then show ?thesis unfolding dec10_of_rat_def using round_he_of_int [of 0] by simp
qed

lemma round64_tenth: "round64 (1 / 10) = Fin (3602879701896397 / 36028797018963968)"
  by code_simp

lemma dec10_of_tenth: "dec10_of_rat (3602879701896397 / 36028797018963968) = Ok (1, -1)"
proof -
  let ?q = "3602879701896397 / 36028797018963968 :: rat"
  let ?P = "\<lambda>k. round64 (of_int (round_he (?q * 10 ^ k)) / 10 ^ k) = Fin ?q"
  have r: "round_he (?q * 10) = 1" "round_he (18014398509481985 / 18014398509481984) = 1" "round_he ?q = 0"
    by code_simp+
  have "1 < Suc max_decimals" by (simp add: max_decimals_def)
  then have u: "[0..<Suc max_decimals] = 0 # 1 # [2..<Suc max_decimals]"
    by (simp add: upt_conv_Cons numeral_2_eq_2 del: upt_Suc)
  have "\<not> ?P 0" by (simp add: r round64_def)
  moreover have "?P 1" by (simp add: r round64_tenth)
  ultimately have "List.find ?P [0..<Suc max_decimals] = Some 1" unfolding u by simp
  then show ?thesis unfolding dec10_of_rat_def by (simp add: r)
qed

interpretation dec10: decimal_lib dec10 dec10_val
proof unfold_locales
  fix q assume "representable q"
  then show "\<exists>d. d_of_float dec10 (Fin q) = Ok d \<and> d_to_float dec10 d = Fin q"
    using dec10_of_rat_round by (simp add: dec10_def dec10_of_float_def)
next
  show "\<exists>d. d_of_float dec10 (Fin 0) = Ok d \<and> dec10_val d = 0"
    by (simp add: dec10_def dec10_of_float_def dec10_of_zero dec10_val_def)
next
  show "\<exists>d. d_of_float dec10 (round64 (1 / 10)) = Ok d \<and> dec10_val d = 1 / 10"
    unfolding round64_tenth
    by (simp add: dec10_def dec10_of_float_def dec10_of_tenth dec10_val_def power_int_minus)
qed (simp_all add: dec10_def dec10_val_add dec10_val_neg dec10_val_mul dec10_marshal_wf
    dec10_unmarshal_marshal dec10_val_def [of "(_, 0)"], simp_all add: dec10_marshal_def)

end
