(* ===== verification/Model.thy ===== *)
theory Model
  imports Go_Struct Money
begin

text \<open>
  The package \<^verbatim>\<open>model\<close>: items, orders, outbox rows, notifications, the request and response
  bodies, with their validation and JSON codecs. \<^verbatim>\<open>int\<close> and \<^verbatim>\<open>int64\<close> are integers that
  the codec bounds to 64 bits; a decimal has the type parameter \<^typ>\<open>'d\<close>.
\<close>

section \<open>Items\<close>

record 'd item =
  i_ID :: int
  i_SKU :: string
  i_Name :: string
  i_Price :: 'd
  i_InventoryQuantity :: int

definition zero_item :: "'d decimal_ops \<Rightarrow> 'd item" where
  "zero_item dec = \<lparr>i_ID = 0, i_SKU = [], i_Name = [], i_Price = d_zero dec, i_InventoryQuantity = 0\<rparr>"

definition sku_char :: "char \<Rightarrow> bool" where
  "sku_char c \<longleftrightarrow> byte_in c 0x61 0x7A \<or> byte_in c 0x41 0x5A \<or> byte_in c 0x30 0x39"

text \<open>The regular expression is anchored at both ends, with a class and a repetition of six.\<close>

definition IsSKU :: "string \<Rightarrow> bool" where
  "IsSKU s \<longleftrightarrow> length s = 6 \<and> list_all sku_char s"

definition Item_Validate :: "'d decimal_ops \<Rightarrow> 'd item \<Rightarrow> unit res" where
  "Item_Validate dec i =
     (if i_Name i = [] then Fail (ErrExt ''item name must be a non-empty string'')
      else if \<not> IsSKU (i_SKU i) then Fail (ErrExt ''item SKU must be a valid SKU of length 6'')
      else if d_less dec (i_Price i) (d_zero dec) then Fail (ErrExt ''invalid price less than 0'')
      else if i_InventoryQuantity i < 1 then Fail (ErrExt ''invalid inventory_quantity less than 1'')
      else Ok ())"

text \<open>Calling the method through a nil pointer dereferences it.\<close>

definition Item_Validate_ptr :: "'d decimal_ops \<Rightarrow> 'd item option \<Rightarrow> unit res" where
  "Item_Validate_ptr dec p = (case p of None \<Rightarrow> Panic | Some i \<Rightarrow> Item_Validate dec i)"

definition item_json :: "'d decimal_ops \<Rightarrow> 'd item \<Rightarrow> json" where
  "item_json dec i = JObj (omitempty (i_ID i = 0) ''id'' (json_int (i_ID i)) @
     [(''sku'', JStr (i_SKU i)), (''name'', JStr (i_Name i)), (''price'', d_marshal dec (i_Price i)),
      (''inventory_quantity'', json_int (i_InventoryQuantity i))])"

definition dec_decimal :: "'d decimal_ops \<Rightarrow> json \<Rightarrow> 'd \<Rightarrow> 'd option" where
  "dec_decimal dec j old = (if j = JNull then Some old else d_unmarshal dec j)"

definition item_fields :: "'d decimal_ops \<Rightarrow> (json, 'd item) fields" where
  "item_fields dec =
     [(''id'', fld i_ID i_ID_update dec_int),
      (''sku'', fld i_SKU i_SKU_update dec_string),
      (''name'', fld i_Name i_Name_update dec_string),
      (''price'', fld i_Price i_Price_update (dec_decimal dec)),
      (''inventory_quantity'', fld i_InventoryQuantity i_InventoryQuantity_update dec_int)]"

definition dec_item :: "'d decimal_ops \<Rightarrow> json \<Rightarrow> 'd item \<Rightarrow> 'd item option" where
  "dec_item dec = decode_struct (item_fields dec)"

text \<open>A slice of item pointers, some of them possibly nil.\<close>

record 'd add_items_request =
  ar_Items :: "'d item option list option"

definition dec_add_items_request :: "'d decimal_ops \<Rightarrow> json \<Rightarrow> 'd add_items_request option" where
  "dec_add_items_request dec j =
     decode_struct
       [(''items'', fld ar_Items ar_Items_update (dec_slice (dec_ptr (dec_item dec) (zero_item dec)) None))]
       j \<lparr>ar_Items = None\<rparr>"

record purchase_items_request =
  pr_SKUs :: "string list option"

definition dec_purchase_items_request :: "json \<Rightarrow> purchase_items_request option" where
  "dec_purchase_items_request j =
     decode_struct [(''skus'', fld pr_SKUs pr_SKUs_update (dec_slice dec_string []))] j \<lparr>pr_SKUs = None\<rparr>"

record purchase_items_response =
  ps_OrderReference :: string
  ps_Cost :: float64

section \<open>Prices\<close>

record items_price_request =
  ip_SKUs :: "string list option"

definition dec_items_price_request :: "json \<Rightarrow> items_price_request option" where
  "dec_items_price_request j =
     decode_struct [(''skus'', fld ip_SKUs ip_SKUs_update (dec_slice dec_string []))] j \<lparr>ip_SKUs = None\<rparr>"

text \<open>These two slices only grow by \<^verbatim>\<open>append\<close>: the nil slice is the empty list.\<close>

record 'd promotions =
  pm_Deduction :: float64
  pm_AddedItems :: "'d item list"

record 'd price_response =
  rs_Items :: "'d item list"
  rs_Promotions :: "'d promotions option"
  rs_TotalGross :: float64
  rs_TotalWithDiscount :: float64

section \<open>Orders\<close>

record 'd order =
  o_ID :: int
  o_Reference :: string
  o_CustomerID :: string
  o_SKUList :: string
  o_Price :: 'd

definition zero_order :: "'d decimal_ops \<Rightarrow> 'd order" where
  "zero_order dec = \<lparr>o_ID = 0, o_Reference = [], o_CustomerID = [], o_SKUList = [], o_Price = d_zero dec\<rparr>"

text \<open>A slice of strings always marshals.\<close>

definition SetSKUList :: "'d order \<Rightarrow> string list option \<Rightarrow> 'd order" where
  "SetSKUList ord skus = ord\<lparr>o_SKUList := print_json (json_slice JStr skus)\<rparr>"

definition GetSKUList :: "'d order \<Rightarrow> string list option res" where
  "GetSKUList ord =
     (case Option.bind (parse_json (o_SKUList ord)) (\<lambda>j. dec_slice dec_string [] j None) of
        None \<Rightarrow> Fail (Wrap ''failed to unmarshal SKU list: '' (ErrExt ''json'') [])
      | Some skus \<Rightarrow> Ok skus)"

definition order_json :: "'d decimal_ops \<Rightarrow> 'd order \<Rightarrow> json" where
  "order_json dec ord = JObj (omitempty (o_ID ord = 0) ''id'' (json_int (o_ID ord)) @
     [(''reference'', JStr (o_Reference ord)), (''customer_id'', JStr (o_CustomerID ord)),
      (''sku_list'', JStr (o_SKUList ord)), (''price'', d_marshal dec (o_Price ord))])"

definition order_fields :: "'d decimal_ops \<Rightarrow> (json, 'd order) fields" where
  "order_fields dec =
     [(''id'', fld o_ID o_ID_update dec_int),
      (''reference'', fld o_Reference o_Reference_update dec_string),
      (''customer_id'', fld o_CustomerID o_CustomerID_update dec_string),
      (''sku_list'', fld o_SKUList o_SKUList_update dec_string),
      (''price'', fld o_Price o_Price_update (dec_decimal dec))]"

definition dec_order :: "'d decimal_ops \<Rightarrow> json \<Rightarrow> 'd order \<Rightarrow> 'd order option" where
  "dec_order dec = decode_struct (order_fields dec)"

section \<open>Outbox rows, notifications and probes\<close>

text \<open>A nil timestamp pointer is \<open>None\<close>.\<close>

record outbox_item =
  ob_ID :: int
  ob_EventID :: string
  ob_Topic :: string
  ob_PartitionKey :: string
  ob_Data :: string
  ob_OccurredAt :: time
  ob_CreatedAt :: time
  ob_PublishedAt :: "time option"
  ob_DeliveredAt :: "time option"

record notification =
  n_EventID :: string
  n_Reference :: string
  n_CustomerID :: string
  n_OccurredAt :: time
  n_Delivered :: bool

record status_response =
  st_Message :: string
  st_Version :: string
  st_Service :: string

record health_response =
  hr_Version :: string
  hr_Service :: string
  hr_Failures :: "string list option"

section \<open>Facts\<close>

text \<open>Validation accepts exactly the items that meet all four conditions.\<close>

lemma Item_Validate_Ok_iff:
  "Item_Validate dec i = Ok () \<longleftrightarrow>
     i_Name i \<noteq> [] \<and> IsSKU (i_SKU i) \<and> \<not> d_less dec (i_Price i) (d_zero dec) \<and> 1 \<le> i_InventoryQuantity i"
  by (auto simp: Item_Validate_def)

lemma Item_Validate_no_panic: "Item_Validate dec i \<noteq> Panic"
  by (simp add: Item_Validate_def)

lemma sku_char_ascii: "sku_char c \<Longrightarrow> ascii c"
  by (auto simp: sku_char_def byte_in_def ascii_def)

lemma IsSKU_utf8: "IsSKU s \<Longrightarrow> utf8_valid s"
  by (auto simp: IsSKU_def list_all_iff sku_char_ascii intro!: utf8_valid_ascii)

subsection \<open>Codecs\<close>

lemma SetSKUList_fields [simp]:
  "o_ID (SetSKUList ord skus) = o_ID ord" "o_Reference (SetSKUList ord skus) = o_Reference ord"
  "o_CustomerID (SetSKUList ord skus) = o_CustomerID ord" "o_Price (SetSKUList ord skus) = o_Price ord"
  by (simp_all add: SetSKUList_def)

lemma GetSKUList_SetSKUList:
  assumes "\<And>ys. skus = Some ys \<Longrightarrow> list_all utf8_valid ys"
  shows "GetSKUList (SetSKUList ord skus) = Ok skus"
proof -
  have "parse_json (print_json (json_slice JStr skus)) = Some (json_slice JStr skus)"
    using assms by (intro parse_print_json) simp
  then show ?thesis by (simp add: GetSKUList_def SetSKUList_def)
qed

lemmas codec_simps = omitempty_def decode_struct.simps decode_members.simps dec_string.simps

context decimal_lib
begin

text \<open>Decoding what was encoded gives the same record, up to the representation of the price.\<close>

lemma dec_order_json:
  assumes "int64 (o_ID ord)"
  shows "\<exists>p. val p = val (o_Price ord) \<and> dec_order dec (order_json dec ord) (zero_order dec) = Some (ord\<lparr>o_Price := p\<rparr>)"
proof -
  obtain p where p: "d_unmarshal dec (d_marshal dec (o_Price ord)) = Some p" "val p = val (o_Price ord)"
    using unmarshal_marshal by blast
  have "dec_order dec (order_json dec ord) (zero_order dec) = Some (ord\<lparr>o_Price := p\<rparr>)"
    using assms p(1)
    by (simp add: dec_order_def order_json_def order_fields_def zero_order_def dec_decimal_def codec_simps)
  with p(2) show ?thesis by blast
qed

lemma dec_item_json:
  assumes "int64 (i_ID i)" and "int64 (i_InventoryQuantity i)"
  shows "\<exists>p. val p = val (i_Price i) \<and> dec_item dec (item_json dec i) (zero_item dec) = Some (i\<lparr>i_Price := p\<rparr>)"
proof -
  obtain p where p: "d_unmarshal dec (d_marshal dec (i_Price i)) = Some p" "val p = val (i_Price i)"
    using unmarshal_marshal by blast
  have "dec_item dec (item_json dec i) (zero_item dec) = Some (i\<lparr>i_Price := p\<rparr>)"
    using assms p(1)
    by (simp add: dec_item_def item_json_def item_fields_def zero_item_def dec_decimal_def codec_simps)
  with p(2) show ?thesis by blast
qed

lemma order_json_wf:
  "utf8_valid (o_Reference ord) \<Longrightarrow> utf8_valid (o_CustomerID ord) \<Longrightarrow> utf8_valid (o_SKUList ord)
    \<Longrightarrow> json_wf (order_json dec ord)"
  by (simp add: order_json_def omitempty_def utf8_valid_ascii ascii_def)

end

end
