(* ===== verification/Database.thy ===== *)
theory Database
  imports Model
begin

text \<open>
  The package \<^verbatim>\<open>database\<close>: the interface \<^verbatim>\<open>Database\<close> of the stores and its implementation
  \<^verbatim>\<open>GormDB\<close>. The object-relational mapper and the SQL engine under it are a parameter: a
  record of the statements the package builds, over an engine state.
\<close>

section \<open>Statements\<close>

datatype item_col = ColName | ColSKU

datatype item_cond = ItemEq item_col string | ItemSKUIn "string list"

datatype order_cond = CustomerEq string

datatype outbox_cond = PublishedNull | DeliveredNull | OutboxIdEq int | EventIdEq string

datatype outbox_col = PublishedAtCol | DeliveredAtCol

datatype id_order = IdAsc | IdDesc

text \<open>A query under construction: its conditions, its ordering and its limit.\<close>

record 'c query =
  q_where :: "'c list"
  q_order :: "id_order option"
  q_limit :: "int option"

definition all_rows :: "'c query" where
  "all_rows = \<lparr>q_where = [], q_order = None, q_limit = None\<rparr>"

definition Where :: "'c \<Rightarrow> 'c query \<Rightarrow> 'c query" where
  "Where c q = q\<lparr>q_where := q_where q @ [c]\<rparr>"

definition Limit :: "int \<Rightarrow> 'c query \<Rightarrow> 'c query" where
  "Limit n q = q\<lparr>q_limit := Some n\<rparr>"

definition OrderBy :: "id_order \<Rightarrow> 'c query \<Rightarrow> 'c query" where
  "OrderBy ord q = q\<lparr>q_order := Some ord\<rparr>"

datatype table = InventoryTable | OrdersTable | OutboxTable

text \<open>
  The statements executed through GORM. A find into a single pointer yields an optional
  item; \<open>g_upsert_items\<close> is an insert with \<^verbatim>\<open>ON CONFLICT\<close> on the primary key updating all
  columns; inserts give back the values with their generated identifiers; an update gives
  the number of affected rows; \<open>g_tx\<close> runs a body in a transaction.
\<close>

record ('d, 's) gorm_ops =
  g_open :: "('s, unit) io"
  g_migrate :: "table \<Rightarrow> ('s, unit) io"
  g_drop :: "table \<Rightarrow> ('s, unit) io"
  g_db :: "('s, unit) io"
  g_ping :: "('s, unit) io"
  g_find_item :: "item_cond query \<Rightarrow> ('s, 'd item option) io"
  g_find_items :: "item_cond query \<Rightarrow> ('s, 'd item list) io"
  g_upsert_items :: "'d item list \<Rightarrow> ('s, 'd item list) io"
  g_create_order :: "'d order \<Rightarrow> ('s, 'd order) io"
  g_find_orders :: "order_cond query \<Rightarrow> ('s, 'd order list) io"
  g_create_outbox :: "outbox_item list \<Rightarrow> ('s, outbox_item list) io"
  g_find_outbox :: "outbox_cond query \<Rightarrow> ('s, outbox_item list) io"
  g_update_outbox :: "outbox_cond list \<Rightarrow> outbox_col \<Rightarrow> time \<Rightarrow> ('s, int) io"
  g_tx :: "('s, unit) io \<Rightarrow> ('s, unit) io"

section \<open>The interface\<close>

record outbox_query =
  OnlyUnpublished :: bool
  OnlyUndelivered :: bool
  QLimit :: int

text \<open>
  The methods of \<^verbatim>\<open>Database\<close>. The function given to \<^verbatim>\<open>Transaction\<close> receives a handle on the
  transaction; the handle is the same record of methods, run on the transaction's state.
\<close>

record ('d, 's) db_ops =
  db_Ping :: "('s, unit) io"
  db_UpsertItems :: "'d item list \<Rightarrow> ('s, 'd item list) io"
  db_ListItems :: "('s, 'd item list) io"
  db_GetItemByName :: "string \<Rightarrow> ('s, 'd item option) io"
  db_GetItemBySKU :: "string \<Rightarrow> ('s, 'd item option) io"
  db_GetItemsBySKU :: "string list \<Rightarrow> ('s, 'd item list) io"
  db_AddOrder :: "'d order \<Rightarrow> ('s, 'd order) io"
  db_GetOrders :: "string \<Rightarrow> ('s, 'd order list) io"
  db_AddOutboxItems :: "outbox_item list \<Rightarrow> ('s, unit) io"
  db_GetOutboxItems :: "outbox_query option \<Rightarrow> ('s, outbox_item list) io"
  db_SetPublishedAt :: "int \<Rightarrow> time \<Rightarrow> ('s, unit) io"
  db_SetDeliveredAt :: "int \<Rightarrow> time \<Rightarrow> ('s, unit) io"
  db_SetDeliveredByEventID :: "string \<Rightarrow> time \<Rightarrow> ('s, unit) io"
  db_Transaction :: "('s, unit) io \<Rightarrow> ('s, unit) io"

section \<open>GormDB\<close>

subsection \<open>Construction\<close>

definition deleteStorage :: "('d, 's) gorm_ops \<Rightarrow> ('s, unit) io" where
  "deleteStorage g =
     bindS (wrapS (\<lambda>e. Wrap ''failed to drop table inventory: '' e []) (g_drop g InventoryTable)) (\<lambda>_.
     bindS (wrapS (\<lambda>e. Wrap ''failed to drop table orders: '' e []) (g_drop g OrdersTable)) (\<lambda>_.
     bindS (wrapS (\<lambda>e. Wrap ''failed to drop table outbox: '' e []) (g_drop g OutboxTable)) (\<lambda>_.
       returnS ())))"

definition newStorage :: "('d, 's) gorm_ops \<Rightarrow> ('s, unit) io" where
  "newStorage g =
     bindS (wrapS (\<lambda>e. Wrap ''failed to auto migrate inventory table: '' e []) (g_migrate g InventoryTable)) (\<lambda>_.
     bindS (wrapS (\<lambda>e. Wrap ''failed to auto migrate orders table: '' e []) (g_migrate g OrdersTable)) (\<lambda>_.
     bindS (wrapS (\<lambda>e. Wrap ''failed to auto migrate outbox table: '' e []) (g_migrate g OutboxTable)) (\<lambda>_.
       returnS ())))"

definition NewGormDB :: "('d, 's) gorm_ops \<Rightarrow> bool \<Rightarrow> ('s, unit) io" where
  "NewGormDB g recreateSchema =
     bindS (g_open g) (\<lambda>_.
     bindS (if recreateSchema then deleteStorage g else returnS ()) (\<lambda>_.
       newStorage g))"

definition Ping :: "('d, 's) gorm_ops \<Rightarrow> ('s, unit) io" where
  "Ping g = bindS (wrapS (\<lambda>e. Wrap ''failed to get underlying sql.DB: '' e []) (g_db g)) (\<lambda>_. g_ping g)"

subsection \<open>Inventory\<close>

definition getItemByKey :: "('d, 's) gorm_ops \<Rightarrow> item_col \<Rightarrow> string \<Rightarrow> ('s, 'd item option) io" where
  "getItemByKey g key name = g_find_item g (Where (ItemEq key name) all_rows)"

definition GetItemByName :: "('d, 's) gorm_ops \<Rightarrow> string \<Rightarrow> ('s, 'd item option) io" where
  "GetItemByName g name = getItemByKey g ColName name"

definition GetItemBySKU :: "('d, 's) gorm_ops \<Rightarrow> string \<Rightarrow> ('s, 'd item option) io" where
  "GetItemBySKU g sku = getItemByKey g ColSKU sku"

text \<open>The options are nil or a list of SKUs.\<close>

definition getItems :: "('d, 's) gorm_ops \<Rightarrow> string list option \<Rightarrow> ('s, 'd item list) io" where
  "getItems g opts =
     g_find_items g (case opts of
        None \<Rightarrow> all_rows
      | Some skus \<Rightarrow> if 0 < length skus then Where (ItemSKUIn skus) all_rows else all_rows)"

definition ListItems :: "('d, 's) gorm_ops \<Rightarrow> ('s, 'd item list) io" where
  "ListItems g = getItems g None"

definition GetItemsBySKU :: "('d, 's) gorm_ops \<Rightarrow> string list \<Rightarrow> ('s, 'd item list) io" where
  "GetItemsBySKU g skus = getItems g (Some skus)"

text \<open>The statement fills in the generated identifiers of the items, which are returned.\<close>

definition UpsertItems :: "('d, 's) gorm_ops \<Rightarrow> 'd item list \<Rightarrow> ('s, 'd item list) io" where
  "UpsertItems g items = g_upsert_items g items"

subsection \<open>Orders\<close>

text \<open>The order is given by pointer; the result is the order with its identifier filled in.\<close>

definition AddOrder :: "('d, 's) gorm_ops \<Rightarrow> 'd order \<Rightarrow> ('s, 'd order) io" where
  "AddOrder g ord = g_create_order g ord"

definition GetOrders :: "('d, 's) gorm_ops \<Rightarrow> string \<Rightarrow> ('s, 'd order list) io" where
  "GetOrders g customerID = g_find_orders g (Where (CustomerEq customerID) (OrderBy IdDesc all_rows))"

subsection \<open>Outbox\<close>

definition AddOutboxItems :: "('d, 's) gorm_ops \<Rightarrow> outbox_item list \<Rightarrow> ('s, unit) io" where
  "AddOutboxItems g items =
     (if length items = 0 then returnS () else bindS (g_create_outbox g items) (\<lambda>_. returnS ()))"

definition outbox_select :: "outbox_query option \<Rightarrow> outbox_cond query" where
  "outbox_select q =
     OrderBy IdAsc (case q of
        None \<Rightarrow> all_rows
      | Some p \<Rightarrow>
          let db = all_rows;
              db = (if OnlyUnpublished p then Where PublishedNull db else db);
              db = (if OnlyUndelivered p then Where DeliveredNull db else db)
          in if 0 < QLimit p then Limit (QLimit p) db else db)"

definition GetOutboxItems :: "('d, 's) gorm_ops \<Rightarrow> outbox_query option \<Rightarrow> ('s, outbox_item list) io" where
  "GetOutboxItems g q = g_find_outbox g (outbox_select q)"

fun column_name :: "outbox_col \<Rightarrow> string" where
  "column_name PublishedAtCol = ''published_at''"
| "column_name DeliveredAtCol = ''delivered_at''"

definition strict_update :: "string \<Rightarrow> ('s, int) io \<Rightarrow> ('s, unit) io" where
  "strict_update ctx m =
     bindS (wrapS (\<lambda>e. Wrap ctx e []) m) (\<lambda>n.
       if n \<noteq> 1 then failS (Wrap ctx ErrOutboxItemNotFound []) else returnS ())"

definition setOutboxTimestamp :: "('d, 's) gorm_ops \<Rightarrow> int \<Rightarrow> outbox_col \<Rightarrow> time \<Rightarrow> ('s, unit) io" where
  "setOutboxTimestamp g uid col t =
     strict_update (''set '' @ column_name col @ '' for outbox item '' @ print_int uid @ '': '')
       (g_update_outbox g [OutboxIdEq uid] col t)"

definition SetPublishedAt :: "('d, 's) gorm_ops \<Rightarrow> int \<Rightarrow> time \<Rightarrow> ('s, unit) io" where
  "SetPublishedAt g uid t = setOutboxTimestamp g uid PublishedAtCol t"

definition SetDeliveredAt :: "('d, 's) gorm_ops \<Rightarrow> int \<Rightarrow> time \<Rightarrow> ('s, unit) io" where
  "SetDeliveredAt g uid t = setOutboxTimestamp g uid DeliveredAtCol t"

definition SetDeliveredByEventID :: "('d, 's) gorm_ops \<Rightarrow> string \<Rightarrow> time \<Rightarrow> ('s, unit) io" where
  "SetDeliveredByEventID g eventID t =
     strict_update (''set delivered_at for event '' @ eventID @ '': '')
       (g_update_outbox g [EventIdEq eventID] DeliveredAtCol t)"

definition Transaction :: "('d, 's) gorm_ops \<Rightarrow> ('s, unit) io \<Rightarrow> ('s, unit) io" where
  "Transaction g fn = g_tx g fn"

definition GormDB :: "('d, 's) gorm_ops \<Rightarrow> ('d, 's) db_ops" where
  "GormDB g =
     \<lparr>db_Ping = Ping g, db_UpsertItems = UpsertItems g, db_ListItems = ListItems g,
      db_GetItemByName = GetItemByName g, db_GetItemBySKU = GetItemBySKU g,
      db_GetItemsBySKU = GetItemsBySKU g, db_AddOrder = AddOrder g, db_GetOrders = GetOrders g,
      db_AddOutboxItems = AddOutboxItems g, db_GetOutboxItems = GetOutboxItems g,
      db_SetPublishedAt = SetPublishedAt g, db_SetDeliveredAt = SetDeliveredAt g,
      db_SetDeliveredByEventID = SetDeliveredByEventID g, db_Transaction = Transaction g\<rparr>"

section \<open>The two engines\<close>

text \<open>
  What a driver's \<open>Open\<close> makes of a connection string. The mapper over a dialector is third-party
  code: \<open>gorm_of\<close> is its interface.
\<close>

datatype dialector = Sqlite_Open string | Postgres_Open string

definition InMemoryDSN :: string where "InMemoryDSN = '':memory:''"
definition DBName :: string where "DBName = ''checkout''"

definition NewSQLiteDB :: "(dialector \<Rightarrow> ('d, 's) gorm_ops) \<Rightarrow> string \<Rightarrow> bool \<Rightarrow> ('s, ('d, 's) db_ops) io" where
  "NewSQLiteDB gorm_of databaseDSN recreateSchema =
     (let g = gorm_of (Sqlite_Open databaseDSN)
      in bindS (NewGormDB g recreateSchema) (\<lambda>_. returnS (GormDB g)))"

definition postgres_dsn :: "string \<Rightarrow> string \<Rightarrow> string \<Rightarrow> int \<Rightarrow> string" where
  "postgres_dsn host user password port =
     ''host='' @ host @ '' user='' @ user @ '' password='' @ password @ '' dbname='' @ DBName @
     '' port='' @ print_int port @ '' sslmode=disable TimeZone=UTC''"

definition NewPostgresDB ::
  "(dialector \<Rightarrow> ('d, 's) gorm_ops) \<Rightarrow> string \<Rightarrow> string \<Rightarrow> string \<Rightarrow> int \<Rightarrow> ('s, ('d, 's) db_ops) io" where
  "NewPostgresDB gorm_of host user password port =
     (let g = gorm_of (Postgres_Open (postgres_dsn host user password port))
      in bindS (NewGormDB g False) (\<lambda>_. returnS (GormDB g)))"

end
