(* ===== verification/Store.thy ===== *)
theory Store
  imports Database
begin

text \<open>
  What the database promises. The locale \<open>gorm\<close> states what \<^verbatim>\<open>GormDB\<close> relies on in the
  mapper and the engine: statements are atomic, constraints are enforced, a transaction
  commits as a whole or not at all. The locales \<open>inventory_store\<close>, \<open>order_store\<close>,
  \<open>outbox_store\<close> and \<open>database\<close> are the contracts of the interfaces of
  \<^verbatim>\<open>database/store.go\<close>; \<^verbatim>\<open>GormDB\<close> meets them over every engine that satisfies \<open>gorm\<close>.
\<close>

section \<open>Tables\<close>

record 'd tables =
  tb_inventory :: "'d item list"
  tb_orders :: "'d order list"
  tb_outbox :: "outbox_item list"

text \<open>The constraints of the schema: primary keys, unique columns and the quantity check.\<close>

definition inventory_ok :: "'d item list \<Rightarrow> bool" where
  "inventory_ok rows \<longleftrightarrow> distinct (map i_ID rows) \<and> distinct (map i_SKU rows) \<and> distinct (map i_Name rows) \<and>
     list_all (\<lambda>i. i_ID i \<noteq> 0 \<and> 0 \<le> i_InventoryQuantity i) rows"

definition orders_ok :: "'d order list \<Rightarrow> bool" where
  "orders_ok rows \<longleftrightarrow> distinct (map o_ID rows) \<and> distinct (map o_Reference rows)"

definition outbox_ok :: "outbox_item list \<Rightarrow> bool" where
  "outbox_ok rows \<longleftrightarrow> distinct (map ob_ID rows) \<and> distinct (map ob_EventID rows)"

definition db_ok :: "'d tables \<Rightarrow> bool" where
  "db_ok T \<longleftrightarrow> inventory_ok (tb_inventory T) \<and> orders_ok (tb_orders T) \<and> outbox_ok (tb_outbox T)"

fun item_matches :: "item_cond \<Rightarrow> 'd item \<Rightarrow> bool" where
  "item_matches (ItemEq ColName v) i = (i_Name i = v)"
| "item_matches (ItemEq ColSKU v) i = (i_SKU i = v)"
| "item_matches (ItemSKUIn vs) i = (i_SKU i \<in> set vs)"

fun order_matches :: "order_cond \<Rightarrow> 'd order \<Rightarrow> bool" where
  "order_matches (CustomerEq v) ord = (o_CustomerID ord = v)"

fun outbox_matches :: "outbox_cond \<Rightarrow> outbox_item \<Rightarrow> bool" where
  "outbox_matches PublishedNull r = (ob_PublishedAt r = None)"
| "outbox_matches DeliveredNull r = (ob_DeliveredAt r = None)"
| "outbox_matches (OutboxIdEq n) r = (ob_ID r = n)"
| "outbox_matches (EventIdEq v) r = (ob_EventID r = v)"

definition sel :: "('c \<Rightarrow> 'r \<Rightarrow> bool) \<Rightarrow> 'c list \<Rightarrow> 'r list \<Rightarrow> 'r list" where
  "sel matches cs rows = filter (\<lambda>r. list_all (\<lambda>c. matches c r) cs) rows"

definition limited :: "int option \<Rightarrow> 'r list \<Rightarrow> 'r list" where
  "limited n rows = (case n of None \<Rightarrow> rows | Some k \<Rightarrow> take (nat k) rows)"

text \<open>What a select may answer: without an ordering, the rows come in any order.\<close>

definition answers :: "('c \<Rightarrow> 'r \<Rightarrow> bool) \<Rightarrow> ('r \<Rightarrow> int) \<Rightarrow> 'c query \<Rightarrow> 'r list \<Rightarrow> 'r list \<Rightarrow> bool" where
  "answers matches key q rows xs =
     (let ys = sel matches (q_where q) rows in
      case q_order q of
        None \<Rightarrow> (\<exists>zs. mset zs = mset ys \<and> xs = limited (q_limit q) zs)
      | Some IdAsc \<Rightarrow> xs = limited (q_limit q) (sort_key key ys)
      | Some IdDesc \<Rightarrow> xs = limited (q_limit q) (rev (sort_key key ys)))"

text \<open>A find into one pointer: a matching row, or a pointer to a zero item when there is none.\<close>

definition found_item :: "'d decimal_ops \<Rightarrow> 'd item list \<Rightarrow> 'd item option \<Rightarrow> bool" where
  "found_item dec rows x \<longleftrightarrow>
     (if rows = [] then x = Some (zero_item dec) else \<exists>r \<in> set rows. x = Some r)"

text \<open>An upserted row replaces the row with its identifier or is added.\<close>

definition upsert_row :: "'d item list \<Rightarrow> 'd item \<Rightarrow> 'd item list" where
  "upsert_row rows i =
     (if i_ID i \<in> i_ID ` set rows then map (\<lambda>r. if i_ID r = i_ID i then i else r) rows else rows @ [i])"

text \<open>Identifiers filled in by an insert: a zero identifier becomes an unused one.\<close>

fun fills :: "int set \<Rightarrow> 'd item list \<Rightarrow> 'd item list \<Rightarrow> bool" where
  "fills used [] [] = True"
| "fills used (i # xs) (i' # ys) =
     (i' = i\<lparr>i_ID := i_ID i'\<rparr> \<and> i_ID i' \<noteq> 0 \<and> (if i_ID i = 0 then i_ID i' \<notin> used else i_ID i' = i_ID i) \<and>
      fills (insert (i_ID i') used) xs ys)"
| "fills used _ _ = False"

definition store_item :: "('d \<Rightarrow> 'd) \<Rightarrow> 'd item \<Rightarrow> 'd item" where
  "store_item numcol i = i\<lparr>i_Price := numcol (i_Price i)\<rparr>"

definition store_order :: "('d \<Rightarrow> 'd) \<Rightarrow> 'd order \<Rightarrow> 'd order" where
  "store_order numcol ord = ord\<lparr>o_Price := numcol (o_Price ord)\<rparr>"

text \<open>An outbox row as stored: its identifier and creation time are set by the database.\<close>

definition store_outbox :: "(time \<Rightarrow> time) \<Rightarrow> outbox_item \<Rightarrow> outbox_item \<Rightarrow> bool" where
  "store_outbox timecol i r \<longleftrightarrow>
     r = i\<lparr>ob_ID := ob_ID r, ob_CreatedAt := ob_CreatedAt r, ob_OccurredAt := timecol (ob_OccurredAt i),
           ob_PublishedAt := map_option timecol (ob_PublishedAt i),
           ob_DeliveredAt := map_option timecol (ob_DeliveredAt i)\<rparr>"

lemma store_outbox_iff:
  "store_outbox timecol i r \<longleftrightarrow> ob_EventID r = ob_EventID i \<and> ob_Topic r = ob_Topic i \<and>
     ob_PartitionKey r = ob_PartitionKey i \<and> ob_Data r = ob_Data i \<and> ob_OccurredAt r = timecol (ob_OccurredAt i) \<and>
     ob_PublishedAt r = map_option timecol (ob_PublishedAt i) \<and> ob_DeliveredAt r = map_option timecol (ob_DeliveredAt i)"
  unfolding store_outbox_def by (cases r; cases i) auto

definition enqueued :: "(time \<Rightarrow> time) \<Rightarrow> outbox_item list \<Rightarrow> outbox_item list \<Rightarrow> outbox_item list \<Rightarrow> bool" where
  "enqueued timecol old xs rows \<longleftrightarrow>
     list_all2 (store_outbox timecol) xs rows \<and>
     (list_all (\<lambda>i. ob_ID i = 0) xs \<longrightarrow>
        sorted_wrt (<) (map ob_ID rows) \<and> (\<forall>r \<in> set rows. 0 < ob_ID r \<and> (\<forall>q \<in> set old. ob_ID q < ob_ID r)))"

fun set_column :: "outbox_col \<Rightarrow> time \<Rightarrow> outbox_item \<Rightarrow> outbox_item" where
  "set_column PublishedAtCol t r = r\<lparr>ob_PublishedAt := Some t\<rparr>"
| "set_column DeliveredAtCol t r = r\<lparr>ob_DeliveredAt := Some t\<rparr>"

fun drop_table :: "table \<Rightarrow> 'd tables \<Rightarrow> 'd tables" where
  "drop_table InventoryTable T = T\<lparr>tb_inventory := []\<rparr>"
| "drop_table OrdersTable T = T\<lparr>tb_orders := []\<rparr>"
| "drop_table OutboxTable T = T\<lparr>tb_outbox := []\<rparr>"

section \<open>Contracts\<close>

text \<open>An error that comes from the engine or the driver, not from this repository.\<close>

definition engine_error :: "error \<Rightarrow> bool" where
  "engine_error e \<longleftrightarrow> (\<exists>m. e = ErrExt m)"

text \<open>
  A statement: it does not panic; when it fails it has no effect; when it succeeds its
  answer and effect are related by \<open>R\<close> and the constraints of the schema still hold.
\<close>

definition stmt :: "('s \<Rightarrow> 'd tables) \<Rightarrow> ('s, 'a) io \<Rightarrow> ('d tables \<Rightarrow> 'a \<Rightarrow> 'd tables \<Rightarrow> bool) \<Rightarrow> bool" where
  "stmt tables m R \<longleftrightarrow> (\<forall>s. case m s of
      (Ok x, s') \<Rightarrow> R (tables s) x (tables s') \<and> (db_ok (tables s) \<longrightarrow> db_ok (tables s'))
    | (Fail e, s') \<Rightarrow> engine_error e \<and> tables s' = tables s
    | (Panic, s') \<Rightarrow> False)"

text \<open>A transaction: all of the body's effect or none; an error or a panic of the body is passed on.\<close>

definition transactional :: "('s \<Rightarrow> 'd tables) \<Rightarrow> (('s, unit) io \<Rightarrow> ('s, unit) io) \<Rightarrow> bool" where
  "transactional tables tx \<longleftrightarrow> (\<forall>body s. case tx body s of
      (Ok _, t) \<Rightarrow> \<exists>s0 s1. tables s0 = tables s \<and> body s0 = (Ok (), s1) \<and> tables t = tables s1
    | (Fail e, t) \<Rightarrow> tables t = tables s \<and>
        (engine_error e \<or> (\<exists>s0. tables s0 = tables s \<and> fst (body s0) = Fail e))
    | (Panic, t) \<Rightarrow> tables t = tables s \<and> (\<exists>s0. tables s0 = tables s \<and> fst (body s0) = Panic))"

lemma transactional_at:
  assumes "transactional tables tx"
  shows "case tx body s of
      (Ok _, t) \<Rightarrow> \<exists>s0 s1. tables s0 = tables s \<and> body s0 = (Ok (), s1) \<and> tables t = tables s1
    | (Fail e, t) \<Rightarrow> tables t = tables s \<and>
        (engine_error e \<or> (\<exists>s0. tables s0 = tables s \<and> fst (body s0) = Fail e))
    | (Panic, t) \<Rightarrow> tables t = tables s \<and> (\<exists>s0. tables s0 = tables s \<and> fst (body s0) = Panic)"
  using assms unfolding transactional_def by (elim allE)

lemma transactional_Ok:
  assumes "transactional tables tx" and "tx body s = (Ok u, t)"
  obtains s0 s1 where "tables s0 = tables s" "body s0 = (Ok (), s1)" "tables t = tables s1"
  using transactional_at [OF assms(1), where body = body and s = s] assms(2) by auto

lemma transactional_rollback:
  "transactional tables tx \<Longrightarrow> tx body s = (r, t) \<Longrightarrow> \<not> is_ok r \<Longrightarrow> tables t = tables s"
  using transactional_at [of tables tx, where body = body and s = s] by (cases r) auto

lemma transactional_Fail:
  "transactional tables tx \<Longrightarrow> tx body s = (Fail e, t) \<Longrightarrow>
    engine_error e \<or> (\<exists>s0. tables s0 = tables s \<and> fst (body s0) = Fail e)"
  using transactional_at [of tables tx, where body = body and s = s] by auto

lemma stmt_Ok: "stmt tables m R \<Longrightarrow> m s = (Ok x, s') \<Longrightarrow> R (tables s) x (tables s')"
  by (auto simp: stmt_def dest: spec [of _ s])

lemma stmt_keeps_ok: "stmt tables m R \<Longrightarrow> db_ok (tables s) \<Longrightarrow> m s = (r, s') \<Longrightarrow> db_ok (tables s')"
  by (cases r) (auto simp: stmt_def dest: spec [of _ s])

lemma stmt_Fail: "stmt tables m R \<Longrightarrow> m s = (Fail e, s') \<Longrightarrow> engine_error e \<and> tables s' = tables s"
  by (auto simp: stmt_def dest: spec [of _ s])

lemma stmt_no_panic: "stmt tables m R \<Longrightarrow> m s \<noteq> (Panic, s')"
  by (auto simp: stmt_def dest: spec [of _ s])

lemma stmt_read: "stmt tables m (\<lambda>T x T'. T' = T \<and> P T x) \<Longrightarrow> m s = (r, s') \<Longrightarrow> tables s' = tables s"
  by (cases r) (auto simp: stmt_def dest: spec [of _ s])

lemma stmtI:
  assumes "\<And>s x s'. m s = (Ok x, s') \<Longrightarrow> R (tables s) x (tables s')"
    and "\<And>s x s'. m s = (Ok x, s') \<Longrightarrow> db_ok (tables s) \<Longrightarrow> db_ok (tables s')"
    and "\<And>s e s'. m s = (Fail e, s') \<Longrightarrow> engine_error e \<and> tables s' = tables s"
    and "\<And>s s'. m s \<noteq> (Panic, s')"
  shows "stmt tables m R"
  unfolding stmt_def using assms by (auto split: prod.splits res.splits)

lemma stmt_mono: "stmt tables m R \<Longrightarrow> (\<And>T x T'. R T x T' \<Longrightarrow> R' T x T') \<Longrightarrow> stmt tables m R'"
  by (fastforce simp: stmt_def split: prod.splits res.splits)

section \<open>The mapper and the engine\<close>

text \<open>
  \<open>tables\<close> reads the committed rows off the engine state; \<open>numcol\<close> and \<open>timecol\<close> are the
  conversions of a price and of a time by their columns.
\<close>

locale gorm =
  fixes dec :: "'d decimal_ops" and g :: "('d, 's) gorm_ops" and tables :: "'s \<Rightarrow> 'd tables"
    and numcol :: "'d \<Rightarrow> 'd" and timecol :: "time \<Rightarrow> time"
  assumes numcol_idem [simp]: "numcol (numcol p) = numcol p"
    and open_ok: "stmt tables (g_open g) (\<lambda>T _ T'. T' = T)"
    and migrate: "stmt tables (g_migrate g t) (\<lambda>T _ T'. T' = T)"
    and drop: "stmt tables (g_drop g t) (\<lambda>T _ T'. T' = drop_table t T)"
    and handle: "stmt tables (g_db g) (\<lambda>T _ T'. T' = T)"
    and ping: "stmt tables (g_ping g) (\<lambda>T _ T'. T' = T)"
    and find_item: "stmt tables (g_find_item g q)
      (\<lambda>T x T'. T' = T \<and> found_item dec (sel item_matches (q_where q) (tb_inventory T)) x)"
    and find_items: "stmt tables (g_find_items g q)
      (\<lambda>T xs T'. T' = T \<and> answers item_matches i_ID q (tb_inventory T) xs)"
    and upsert_items: "stmt tables (g_upsert_items g items)
      (\<lambda>T xs T'. items \<noteq> [] \<and> fills (i_ID ` set (tb_inventory T)) items xs \<and>
         T' = T\<lparr>tb_inventory := foldl upsert_row (tb_inventory T) (map (store_item numcol) xs)\<rparr>)"
    and create_order: "stmt tables (g_create_order g ord)
      (\<lambda>T x T'. x = ord\<lparr>o_ID := o_ID x\<rparr> \<and> int64 (o_ID x) \<and> (o_ID ord \<noteq> 0 \<longrightarrow> o_ID x = o_ID ord) \<and>
         T' = T\<lparr>tb_orders := tb_orders T @ [store_order numcol x]\<rparr>)"
    and find_orders: "stmt tables (g_find_orders g oq)
      (\<lambda>T xs T'. T' = T \<and> answers order_matches o_ID oq (tb_orders T) xs)"
    and create_outbox: "stmt tables (g_create_outbox g obs)
      (\<lambda>T xs T'. obs \<noteq> [] \<and> (\<exists>rows. enqueued timecol (tb_outbox T) obs rows \<and>
         T' = T\<lparr>tb_outbox := tb_outbox T @ rows\<rparr>))"
    and find_outbox: "stmt tables (g_find_outbox g bq)
      (\<lambda>T xs T'. T' = T \<and> answers outbox_matches ob_ID bq (tb_outbox T) xs)"
    and update_outbox: "stmt tables (g_update_outbox g cs col t')
      (\<lambda>T n T'. n = int (length (sel outbox_matches cs (tb_outbox T))) \<and>
         T' = T\<lparr>tb_outbox := map (\<lambda>r. if list_all (\<lambda>c. outbox_matches c r) cs
                                     then set_column col (timecol t') r else r) (tb_outbox T)\<rparr>)"
    and tx: "transactional tables (g_tx g)"

section \<open>The stores\<close>

locale inventory_store =
  fixes dec :: "'d decimal_ops" and db :: "('d, 's) db_ops" and tables :: "'s \<Rightarrow> 'd tables"
    and numcol :: "'d \<Rightarrow> 'd"
  assumes numcol_idem: "numcol (numcol p) = numcol p"
    and UpsertItems: "stmt tables (db_UpsertItems db items)
      (\<lambda>T xs T'. items \<noteq> [] \<and> fills (i_ID ` set (tb_inventory T)) items xs \<and>
         T' = T\<lparr>tb_inventory := foldl upsert_row (tb_inventory T) (map (store_item numcol) xs)\<rparr>)"
    and ListItems: "stmt tables (db_ListItems db) (\<lambda>T xs T'. T' = T \<and> mset xs = mset (tb_inventory T))"
    and GetItemByName: "stmt tables (db_GetItemByName db name)
      (\<lambda>T x T'. T' = T \<and> found_item dec (filter (\<lambda>i. i_Name i = name) (tb_inventory T)) x)"
    and GetItemBySKU: "stmt tables (db_GetItemBySKU db sku)
      (\<lambda>T x T'. T' = T \<and> found_item dec (filter (\<lambda>i. i_SKU i = sku) (tb_inventory T)) x)"
    and GetItemsBySKU: "stmt tables (db_GetItemsBySKU db skus)
      (\<lambda>T xs T'. T' = T \<and> mset xs = mset (filter (\<lambda>i. skus = [] \<or> i_SKU i \<in> set skus) (tb_inventory T)))"

locale order_store =
  fixes db :: "('d, 's) db_ops" and tables :: "'s \<Rightarrow> 'd tables" and numcol :: "'d \<Rightarrow> 'd"
  assumes AddOrder: "stmt tables (db_AddOrder db ord)
      (\<lambda>T x T'. x = ord\<lparr>o_ID := o_ID x\<rparr> \<and> int64 (o_ID x) \<and> (o_ID ord \<noteq> 0 \<longrightarrow> o_ID x = o_ID ord) \<and>
         T' = T\<lparr>tb_orders := tb_orders T @ [store_order numcol x]\<rparr>)"
    and GetOrders: "stmt tables (db_GetOrders db customer)
      (\<lambda>T xs T'. T' = T \<and> xs = rev (sort_key o_ID (filter (\<lambda>x. o_CustomerID x = customer) (tb_orders T))))"

text \<open>The rows an outbox read returns, oldest first.\<close>

definition outbox_selected :: "outbox_query option \<Rightarrow> outbox_item \<Rightarrow> bool" where
  "outbox_selected q r = (case q of
      None \<Rightarrow> True
    | Some p \<Rightarrow> (OnlyUnpublished p \<longrightarrow> ob_PublishedAt r = None) \<and>
        (OnlyUndelivered p \<longrightarrow> ob_DeliveredAt r = None))"

definition outbox_view :: "outbox_query option \<Rightarrow> outbox_item list \<Rightarrow> outbox_item list" where
  "outbox_view q rows =
     limited (case q of None \<Rightarrow> None | Some p \<Rightarrow> if 0 < QLimit p then Some (QLimit p) else None)
       (sort_key ob_ID (filter (outbox_selected q) rows))"

definition mark :: "outbox_col \<Rightarrow> time \<Rightarrow> (outbox_item \<Rightarrow> bool) \<Rightarrow> outbox_item list \<Rightarrow> outbox_item list" where
  "mark col t P rows = map (\<lambda>r. if P r then set_column col t r else r) rows"

text \<open>
  A strict update of the row that satisfies \<open>P\<close>: it succeeds only when there is exactly one,
  and reports the absence of any as not found.
\<close>

definition strict_mark ::
  "('s \<Rightarrow> 'd tables) \<Rightarrow> (time \<Rightarrow> time) \<Rightarrow> outbox_col \<Rightarrow> time \<Rightarrow> (outbox_item \<Rightarrow> bool) \<Rightarrow> ('s, unit) io \<Rightarrow> bool" where
  "strict_mark tables timecol col t P m \<longleftrightarrow> (\<forall>s. db_ok (tables s) \<longrightarrow> (case m s of
      (Ok _, s') \<Rightarrow> (\<exists>!r. r \<in> set (tb_outbox (tables s)) \<and> P r) \<and>
        tables s' = (tables s)\<lparr>tb_outbox := mark col (timecol t) P (tb_outbox (tables s))\<rparr>
    | (Fail e, s') \<Rightarrow> tables s' = tables s \<and>
        (errors_is e ErrOutboxItemNotFound \<longrightarrow> (\<forall>r \<in> set (tb_outbox (tables s)). \<not> P r))
    | (Panic, s') \<Rightarrow> False))"

locale outbox_store =
  fixes db :: "('d, 's) db_ops" and tables :: "'s \<Rightarrow> 'd tables" and timecol :: "time \<Rightarrow> time"
  assumes AddOutboxItems: "stmt tables (db_AddOutboxItems db obs)
      (\<lambda>T _ T'. \<exists>rows. enqueued timecol (tb_outbox T) obs rows \<and> T' = T\<lparr>tb_outbox := tb_outbox T @ rows\<rparr>)"
    and GetOutboxItems: "stmt tables (db_GetOutboxItems db bq)
      (\<lambda>T xs T'. T' = T \<and> xs = outbox_view bq (tb_outbox T))"
    and SetPublishedAt: "strict_mark tables timecol PublishedAtCol t (\<lambda>r. ob_ID r = uid) (db_SetPublishedAt db uid t)"
    and SetDeliveredAt: "strict_mark tables timecol DeliveredAtCol t (\<lambda>r. ob_ID r = uid) (db_SetDeliveredAt db uid t)"
    and SetDeliveredByEventID: "strict_mark tables timecol DeliveredAtCol t (\<lambda>r. ob_EventID r = eid)
      (db_SetDeliveredByEventID db eid t)"

locale database = inventory_store dec db tables numcol + order_store db tables numcol + outbox_store db tables timecol
  for dec :: "'d decimal_ops" and db :: "('d, 's) db_ops" and tables :: "'s \<Rightarrow> 'd tables"
    and numcol :: "'d \<Rightarrow> 'd" and timecol :: "time \<Rightarrow> time" +
  assumes Ping: "db_Ping db s = (r, s') \<Longrightarrow> tables s' = tables s \<and> r \<noteq> Panic"
    and Transaction: "transactional tables (db_Transaction db)"

section \<open>GormDB implements the stores\<close>

lemma mark_none: "(\<forall>r \<in> set rows. \<not> P r) \<Longrightarrow> mark col t P rows = rows"
  by (simp add: mark_def map_idI)

lemma tables_outbox_id [simp]: "T\<lparr>tb_outbox := tb_outbox T\<rparr> = T"
  by simp

lemma strict_update_mark:
  fixes tables :: "'s \<Rightarrow> 'd tables"
  assumes m: "stmt tables m (\<lambda>T n T'. n = int (length (filter P (tb_outbox T))) \<and>
      T' = T\<lparr>tb_outbox := mark col (timecol t) P (tb_outbox T)\<rparr>)"
    and one: "\<And>T :: 'd tables. db_ok T \<Longrightarrow> length (filter P (tb_outbox T)) \<le> 1"
  shows "strict_mark tables timecol col t P (strict_update ctx m)"
  unfolding strict_mark_def
proof (intro allI impI)
  fix s assume ok: "db_ok (tables s)"
  let ?rows = "tb_outbox (tables s)"
  obtain r s' where ms: "m s = (r, s')" by fastforce
  have set: "set (filter P ?rows) = {x \<in> set ?rows. P x}" by simp
  show "case strict_update ctx m s of
      (Ok _, s') \<Rightarrow> (\<exists>!r. r \<in> set ?rows \<and> P r) \<and> tables s' = (tables s)\<lparr>tb_outbox := mark col (timecol t) P ?rows\<rparr>
    | (Fail e, s') \<Rightarrow> tables s' = tables s \<and> (errors_is e ErrOutboxItemNotFound \<longrightarrow> (\<forall>r \<in> set ?rows. \<not> P r))
    | (Panic, s') \<Rightarrow> False"
  proof (cases r)
    case (Ok n)
    have n: "n = int (length (filter P ?rows))" and T: "tables s' = (tables s)\<lparr>tb_outbox := mark col (timecol t) P ?rows\<rparr>"
      using stmt_Ok [OF m] ms Ok by blast+
    show ?thesis
    proof (cases "n = 1")
      case True
      then obtain x where "filter P ?rows = [x]" using n by (auto simp: length_Suc_conv)
      with set have "{x \<in> set ?rows. P x} = {x}" by simp
      then have "\<exists>!r. r \<in> set ?rows \<and> P r" by (intro ex1I [of _ x]) blast+
      with True T ms Ok show ?thesis by (simp add: strict_update_def go_simps)
    next
      case False
      with n one [OF ok] have "filter P ?rows = []" by (cases "filter P ?rows") auto
      then have none: "\<forall>r \<in> set ?rows. \<not> P r" by (simp add: filter_empty_conv)
      with T have "tables s' = tables s" by (simp add: mark_none)
      with False none ms Ok show ?thesis by (simp add: strict_update_def go_simps)
    qed
  next
    case (Fail e)
    with stmt_Fail [OF m] ms have "engine_error e" "tables s' = tables s" by blast+
    with ms Fail show ?thesis by (auto simp: strict_update_def go_simps engine_error_def)
  next
    case Panic
    with stmt_no_panic [OF m] ms show ?thesis by blast
  qed
qed

lemma answers_simps [simp]:
  "q_order q = None \<Longrightarrow> q_limit q = None \<Longrightarrow>
    answers matches key q rows xs \<longleftrightarrow> mset xs = mset (sel matches (q_where q) rows)"
  "q_order q = Some IdDesc \<Longrightarrow>
    answers matches key q rows xs \<longleftrightarrow> xs = limited (q_limit q) (rev (sort_key key (sel matches (q_where q) rows)))"
  "q_order q = Some IdAsc \<Longrightarrow>
    answers matches key q rows xs \<longleftrightarrow> xs = limited (q_limit q) (sort_key key (sel matches (q_where q) rows))"
  by (auto simp: answers_def limited_def Let_def)

lemma outbox_select_view:
  "answers outbox_matches ob_ID (outbox_select q) rows xs \<longleftrightarrow> xs = outbox_view q rows"
proof -
  have "sel outbox_matches (q_where (outbox_select q)) rows = filter (outbox_selected q) rows"
    by (auto simp: sel_def outbox_select_def outbox_selected_def Where_def OrderBy_def Limit_def all_rows_def
        Let_def split: option.splits intro!: filter_cong)
  moreover have "q_order (outbox_select q) = Some IdAsc" by (simp add: outbox_select_def OrderBy_def)
  moreover have "q_limit (outbox_select q)
      = (case q of None \<Rightarrow> None | Some p \<Rightarrow> if 0 < QLimit p then Some (QLimit p) else None)"
    by (auto simp: outbox_select_def Where_def OrderBy_def Limit_def all_rows_def Let_def split: option.splits)
  ultimately show ?thesis by (simp add: outbox_view_def)
qed

lemma db_ok_unique_outbox:
  assumes "db_ok T"
  shows "length (filter (\<lambda>r. ob_ID r = n) (tb_outbox T)) \<le> 1"
    and "length (filter (\<lambda>r. ob_EventID r = e) (tb_outbox T)) \<le> 1"
  using assms unfolding db_ok_def outbox_ok_def by (blast intro: length_filter_key_le1)+

lemma outbox_matches_fun:
  "outbox_matches (OutboxIdEq n) = (\<lambda>r. ob_ID r = n)" "outbox_matches (EventIdEq e) = (\<lambda>r. ob_EventID r = e)"
  by (rule ext, simp)+

lemmas query_simps = sel_def Where_def OrderBy_def Limit_def all_rows_def limited_def

context gorm
begin

lemma gorm_AddOutboxItems:
  "stmt tables (AddOutboxItems g obs)
     (\<lambda>T _ T'. \<exists>rows. enqueued timecol (tb_outbox T) obs rows \<and> T' = T\<lparr>tb_outbox := tb_outbox T @ rows\<rparr>)"
proof (cases "obs = []")
  case True
  have "enqueued timecol old [] []" for old by (simp add: enqueued_def)
  then show ?thesis unfolding True AddOutboxItems_def
    by (intro stmtI) (auto intro!: exI [of _ "[]"])
next
  case False
  note c = create_outbox [of obs]
  show ?thesis
  proof (rule stmtI)
    fix s x s'
    assume "AddOutboxItems g obs s = (Ok x, s')"
    with False obtain xs where "g_create_outbox g obs s = (Ok xs, s')"
      by (auto simp: AddOutboxItems_def bindS_eq_Ok)
    then show "\<exists>rows. enqueued timecol (tb_outbox (tables s)) obs rows \<and>
          tables s' = (tables s)\<lparr>tb_outbox := tb_outbox (tables s) @ rows\<rparr>"
      and "db_ok (tables s) \<Longrightarrow> db_ok (tables s')"
      using stmt_Ok [OF c] stmt_keeps_ok [OF c] by blast+
  next
    fix s e s'
    assume "AddOutboxItems g obs s = (Fail e, s')"
    with False have "g_create_outbox g obs s = (Fail e, s')"
      by (auto simp: AddOutboxItems_def bindS_def split: prod.splits res.splits)
    with stmt_Fail [OF c] show "engine_error e \<and> tables s' = tables s" by blast
  next
    fix s s'
    show "AddOutboxItems g obs s \<noteq> (Panic, s')"
      using False stmt_no_panic [OF c] by (auto simp: AddOutboxItems_def bindS_def split: prod.splits res.splits)
  qed
qed

lemma gorm_Ping: "Ping g s = (r, s') \<Longrightarrow> tables s' = tables s \<and> r \<noteq> Panic"
proof -
  assume P: "Ping g s = (r, s')"
  obtain x s1 where h: "g_db g s = (x, s1)" by fastforce
  obtain y s2 where p: "g_ping g s1 = (y, s2)" by fastforce
  have "tables s1 = tables s" "x \<noteq> Panic"
    using stmt_Ok [OF handle, of s] stmt_Fail [OF handle, of s] stmt_no_panic [OF handle, of s] h by (cases x; blast)+
  moreover have "tables s2 = tables s1" "y \<noteq> Panic"
    using stmt_Ok [OF ping, of s1] stmt_Fail [OF ping, of s1] stmt_no_panic [OF ping, of s1] p by (cases y; blast)+
  ultimately show ?thesis using P h p by (cases x) (auto simp: Ping_def go_simps)
qed

end

sublocale gorm \<subseteq> store: database dec "GormDB g" tables numcol timecol
proof unfold_locales
  show "numcol (numcol p) = numcol p" for p by simp
  show "stmt tables (db_UpsertItems (GormDB g) items)
      (\<lambda>T xs T'. items \<noteq> [] \<and> fills (i_ID ` set (tb_inventory T)) items xs \<and>
         T' = T\<lparr>tb_inventory := foldl upsert_row (tb_inventory T) (map (store_item numcol) xs)\<rparr>)" for items
    unfolding GormDB_def UpsertItems_def by (simp add: upsert_items)
  show "stmt tables (db_ListItems (GormDB g)) (\<lambda>T xs T'. T' = T \<and> mset xs = mset (tb_inventory T))"
    unfolding GormDB_def ListItems_def getItems_def db_ops.simps
    by (rule stmt_mono [OF find_items]) (simp add: query_simps)
  show "stmt tables (db_GetItemByName (GormDB g) name)
      (\<lambda>T x T'. T' = T \<and> found_item dec (filter (\<lambda>i. i_Name i = name) (tb_inventory T)) x)" for name
    unfolding GormDB_def GetItemByName_def getItemByKey_def db_ops.simps
    by (rule stmt_mono [OF find_item]) (simp add: query_simps)
  show "stmt tables (db_GetItemBySKU (GormDB g) sku)
      (\<lambda>T x T'. T' = T \<and> found_item dec (filter (\<lambda>i. i_SKU i = sku) (tb_inventory T)) x)" for sku
    unfolding GormDB_def GetItemBySKU_def getItemByKey_def db_ops.simps
    by (rule stmt_mono [OF find_item]) (simp add: query_simps)
  show "stmt tables (db_GetItemsBySKU (GormDB g) skus)
      (\<lambda>T xs T'. T' = T \<and> mset xs = mset (filter (\<lambda>i. skus = [] \<or> i_SKU i \<in> set skus) (tb_inventory T)))" for skus
    unfolding GormDB_def GetItemsBySKU_def getItems_def db_ops.simps
    by (rule stmt_mono [OF find_items]) (simp add: query_simps split: if_splits)
  show "stmt tables (db_AddOrder (GormDB g) ord)
      (\<lambda>T x T'. x = ord\<lparr>o_ID := o_ID x\<rparr> \<and> int64 (o_ID x) \<and> (o_ID ord \<noteq> 0 \<longrightarrow> o_ID x = o_ID ord) \<and>
         T' = T\<lparr>tb_orders := tb_orders T @ [store_order numcol x]\<rparr>)" for ord
    unfolding GormDB_def AddOrder_def db_ops.simps by (rule create_order)
  show "stmt tables (db_GetOrders (GormDB g) customer)
      (\<lambda>T xs T'. T' = T \<and> xs = rev (sort_key o_ID (filter (\<lambda>x. o_CustomerID x = customer) (tb_orders T))))" for customer
    unfolding GormDB_def GetOrders_def db_ops.simps
    by (rule stmt_mono [OF find_orders]) (simp add: query_simps)
  show "stmt tables (db_AddOutboxItems (GormDB g) obs)
      (\<lambda>T _ T'. \<exists>rows. enqueued timecol (tb_outbox T) obs rows \<and> T' = T\<lparr>tb_outbox := tb_outbox T @ rows\<rparr>)" for obs
    unfolding GormDB_def db_ops.simps by (rule gorm_AddOutboxItems)
  show "stmt tables (db_GetOutboxItems (GormDB g) bq) (\<lambda>T xs T'. T' = T \<and> xs = outbox_view bq (tb_outbox T))" for bq
    unfolding GormDB_def GetOutboxItems_def db_ops.simps
    by (rule stmt_mono [OF find_outbox]) (simp add: outbox_select_view)
  have mark: "stmt tables (g_update_outbox g [c] col t)
      (\<lambda>T n T'. n = int (length (filter (outbox_matches c) (tb_outbox T))) \<and>
         T' = T\<lparr>tb_outbox := mark col (timecol t) (outbox_matches c) (tb_outbox T)\<rparr>)" for c col t
    by (rule stmt_mono [OF update_outbox]) (simp add: sel_def mark_def)
  show "strict_mark tables timecol PublishedAtCol t (\<lambda>r. ob_ID r = uid) (db_SetPublishedAt (GormDB g) uid t)" for t uid
    unfolding GormDB_def SetPublishedAt_def setOutboxTimestamp_def db_ops.simps
    by (intro strict_update_mark db_ok_unique_outbox mark [of "OutboxIdEq uid", unfolded outbox_matches_fun])
  show "strict_mark tables timecol DeliveredAtCol t (\<lambda>r. ob_ID r = uid) (db_SetDeliveredAt (GormDB g) uid t)" for t uid
    unfolding GormDB_def SetDeliveredAt_def setOutboxTimestamp_def db_ops.simps
    by (intro strict_update_mark db_ok_unique_outbox mark [of "OutboxIdEq uid", unfolded outbox_matches_fun])
  show "strict_mark tables timecol DeliveredAtCol t (\<lambda>r. ob_EventID r = eid) (db_SetDeliveredByEventID (GormDB g) eid t)" for t eid
    unfolding GormDB_def SetDeliveredByEventID_def db_ops.simps
    by (intro strict_update_mark db_ok_unique_outbox mark [of "EventIdEq eid", unfolded outbox_matches_fun])
  show "db_Ping (GormDB g) s = (r, s') \<Longrightarrow> tables s' = tables s \<and> r \<noteq> Panic" for s r s'
    unfolding GormDB_def db_ops.simps by (rule gorm_Ping)
  show "transactional tables (db_Transaction (GormDB g))"
    using tx by (simp add: GormDB_def Transaction_def [abs_def])
qed

end
