(* ===== verification/Mem_Engine.thy ===== *)
theory Mem_Engine
  imports Store
begin

text \<open>
  A reference engine for the parameter of \<^verbatim>\<open>GormDB\<close>: tables in memory, the constraints of
  the schema, generated identifiers, transactions by rollback, a schedule of statement
  failures, and the two behaviours in which the dialects differ (PostgreSQL rounds prices to
  two decimals and times to microseconds and rejects an upsert that meets a row twice).
  It satisfies the laws of \<open>gorm\<close>, so what is proved from them is not vacuous, and the
  program can be run on it.
\<close>

record mem =
  m_tables :: "dec10 tables"
  m_faults :: "bool list"
  m_clock :: time

text \<open>Fails when the schedule says so, when the statement is rejected or breaks a constraint.\<close>

definition mem_stmt :: "(dec10 tables \<Rightarrow> ('a \<times> dec10 tables) option) \<Rightarrow> ('z mem_scheme, 'a) io" where
  "mem_stmt f s =
     (let s1 = s\<lparr>m_faults := tl (m_faults s)\<rparr> in
      if m_faults s \<noteq> [] \<and> hd (m_faults s) then (Fail (ErrExt ''engine''), s1)
      else case f (m_tables s) of
        None \<Rightarrow> (Fail (ErrExt ''constraint''), s1)
      | Some (x, T) \<Rightarrow>
          if db_ok (m_tables s) \<longrightarrow> db_ok T then (Ok x, s1\<lparr>m_tables := T\<rparr>)
          else (Fail (ErrExt ''constraint''), s1))"

definition mem_read :: "(dec10 tables \<Rightarrow> 'a) \<Rightarrow> ('z mem_scheme, 'a) io" where
  "mem_read f = mem_stmt (\<lambda>T. Some (f T, T))"

definition next_id :: "int list \<Rightarrow> int" where
  "next_id used = 1 + foldr max used 0"

fun assign_ids :: "int list \<Rightarrow> 'd item list \<Rightarrow> 'd item list" where
  "assign_ids used [] = []"
| "assign_ids used (i # xs) =
     (let u = (if i_ID i = 0 then next_id used else i_ID i) in i\<lparr>i_ID := u\<rparr> # assign_ids (u # used) xs)"

definition mem_numcol :: "bool \<Rightarrow> dec10 \<Rightarrow> dec10" where
  "mem_numcol pg d = (if pg then (round_he (dec10_val d * 100), -2) else d)"

definition mem_timecol :: "bool \<Rightarrow> time \<Rightarrow> time" where
  "mem_timecol pg t = (if pg then t\<lparr>t_nsec := t_nsec t div 1000 * 1000\<rparr> else t)"

definition mem_upsert :: "bool \<Rightarrow> dec10 item list \<Rightarrow> dec10 tables \<Rightarrow> (dec10 item list \<times> dec10 tables) option" where
  "mem_upsert pg items T =
     (let xs = assign_ids (map i_ID (tb_inventory T)) items in
      if items = [] \<or> pg \<and> \<not> distinct (map i_ID xs) then None
      else Some (xs, T\<lparr>tb_inventory := foldl upsert_row (tb_inventory T) (map (store_item (mem_numcol pg)) xs)\<rparr>))"

definition mem_add_order :: "bool \<Rightarrow> dec10 order \<Rightarrow> dec10 tables \<Rightarrow> (dec10 order \<times> dec10 tables) option" where
  "mem_add_order pg ord T =
     (let u = (if o_ID ord = 0 then next_id (map o_ID (tb_orders T)) else o_ID ord); x = ord\<lparr>o_ID := u\<rparr> in
      if int64 u then Some (x, T\<lparr>tb_orders := tb_orders T @ [store_order (mem_numcol pg) x]\<rparr>) else None)"

fun fill_outbox :: "bool \<Rightarrow> time \<Rightarrow> int \<Rightarrow> outbox_item list \<Rightarrow> outbox_item list" where
  "fill_outbox pg now n [] = []"
| "fill_outbox pg now n (i # xs) =
     i\<lparr>ob_ID := (if ob_ID i = 0 then n else ob_ID i), ob_CreatedAt := now,
       ob_OccurredAt := mem_timecol pg (ob_OccurredAt i),
       ob_PublishedAt := map_option (mem_timecol pg) (ob_PublishedAt i),
       ob_DeliveredAt := map_option (mem_timecol pg) (ob_DeliveredAt i)\<rparr> # fill_outbox pg now (n + 1) xs"

definition mem_add_outbox ::
  "bool \<Rightarrow> time \<Rightarrow> outbox_item list \<Rightarrow> dec10 tables \<Rightarrow> (outbox_item list \<times> dec10 tables) option" where
  "mem_add_outbox pg now xs T =
     (let rows = fill_outbox pg now (next_id (map ob_ID (tb_outbox T))) xs in
      if xs = [] then None else Some (rows, T\<lparr>tb_outbox := tb_outbox T @ rows\<rparr>))"

definition mem_select :: "('c \<Rightarrow> 'r \<Rightarrow> bool) \<Rightarrow> ('r \<Rightarrow> int) \<Rightarrow> 'c query \<Rightarrow> 'r list \<Rightarrow> 'r list" where
  "mem_select matches key q rows =
     (let ys = sel matches (q_where q) rows in
      limited (q_limit q) (case q_order q of
         None \<Rightarrow> ys | Some IdAsc \<Rightarrow> sort_key key ys | Some IdDesc \<Rightarrow> rev (sort_key key ys)))"

definition mem_find :: "item_cond query \<Rightarrow> dec10 tables \<Rightarrow> dec10 item option" where
  "mem_find q T = (case sel item_matches (q_where q) (tb_inventory T) of
      [] \<Rightarrow> Some (zero_item dec10)
    | r # _ \<Rightarrow> Some r)"

definition mem_update ::
  "bool \<Rightarrow> outbox_cond list \<Rightarrow> outbox_col \<Rightarrow> time \<Rightarrow> dec10 tables \<Rightarrow> (int \<times> dec10 tables) option" where
  "mem_update pg cs col t T =
     Some (int (length (sel outbox_matches cs (tb_outbox T))),
           T\<lparr>tb_outbox := map (\<lambda>r. if list_all (\<lambda>c. outbox_matches c r) cs
                                 then set_column col (mem_timecol pg t) r else r) (tb_outbox T)\<rparr>)"

definition mem_tx :: "('z mem_scheme, unit) io \<Rightarrow> ('z mem_scheme, unit) io" where
  "mem_tx body s =
     (case body s of
        (Ok u, s1) \<Rightarrow>
          if m_faults s1 \<noteq> [] \<and> hd (m_faults s1)
          then (Fail (ErrExt ''commit''), s1\<lparr>m_faults := tl (m_faults s1), m_tables := m_tables s\<rparr>)
          else (Ok u, s1\<lparr>m_faults := tl (m_faults s1)\<rparr>)
      | (Fail e, s1) \<Rightarrow> (Fail e, s1\<lparr>m_tables := m_tables s\<rparr>)
      | (Panic, s1) \<Rightarrow> (Panic, s1\<lparr>m_tables := m_tables s\<rparr>))"

definition mem_engine :: "bool \<Rightarrow> (dec10, 'z mem_scheme) gorm_ops" where
  "mem_engine pg =
     \<lparr>g_open = mem_read (\<lambda>_. ()), g_migrate = (\<lambda>_. mem_read (\<lambda>_. ())),
      g_drop = (\<lambda>t. mem_stmt (\<lambda>T. Some ((), drop_table t T))),
      g_db = mem_read (\<lambda>_. ()), g_ping = mem_read (\<lambda>_. ()),
      g_find_item = (\<lambda>q. mem_read (mem_find q)),
      g_find_items = (\<lambda>q. mem_read (\<lambda>T. mem_select item_matches i_ID q (tb_inventory T))),
      g_upsert_items = (\<lambda>items. mem_stmt (mem_upsert pg items)),
      g_create_order = (\<lambda>ord. mem_stmt (mem_add_order pg ord)),
      g_find_orders = (\<lambda>q. mem_read (\<lambda>T. mem_select order_matches o_ID q (tb_orders T))),
      g_create_outbox = (\<lambda>xs s. mem_stmt (mem_add_outbox pg (m_clock s) xs) s),
      g_find_outbox = (\<lambda>q. mem_read (\<lambda>T. mem_select outbox_matches ob_ID q (tb_outbox T))),
      g_update_outbox = (\<lambda>cs col t. mem_stmt (mem_update pg cs col t)),
      g_tx = mem_tx\<rparr>"

section \<open>The laws hold\<close>

lemma mem_stmt_law:
  assumes "\<And>T x T'. f T = Some (x, T') \<Longrightarrow> R T x T'"
  shows "stmt m_tables (mem_stmt f) R"
  using assms by (intro stmtI) (auto simp: mem_stmt_def Let_def engine_error_def split: if_splits option.splits)

lemma mem_stmt_clock_law:
  assumes "\<And>c T x T'. f c T = Some (x, T') \<Longrightarrow> R T x T'"
  shows "stmt m_tables (\<lambda>s :: 'z mem_scheme. mem_stmt (f (m_clock s)) s) R"
proof -
  have "stmt m_tables (mem_stmt (f c) :: 'z mem_scheme \<Rightarrow> _) R" for c using assms by (intro mem_stmt_law) blast
  then show ?thesis unfolding stmt_def by simp
qed

lemma mem_read_law: "(\<And>T. R T (f T)) \<Longrightarrow> stmt m_tables (mem_read f) (\<lambda>T x T'. T' = T \<and> R T x)"
  unfolding mem_read_def by (rule mem_stmt_law) auto

lemma foldr_max: "(n \<in> set used \<longrightarrow> n \<le> foldr max used 0) \<and> 0 \<le> foldr max used (0::int)"
  by (induction used) auto

lemma next_id_fresh: "n \<in> set used \<Longrightarrow> n < next_id used"
  using foldr_max [of n used] by (simp add: next_id_def)

lemma next_id_pos: "0 < next_id used"
  using foldr_max [of 0 used] by (simp add: next_id_def)

lemma fills_assign_ids: "fills (set used) items (assign_ids used items)"
proof (induction items arbitrary: used)
  case (Cons i xs)
  have "next_id used \<notin> set used" "next_id used \<noteq> 0"
    using next_id_fresh [of "next_id used" used] next_id_pos [of used] by auto
  with Cons [of "_ # used"] show ?case by (simp add: Let_def)
qed simp

lemma store_fill_outbox: "list_all2 (store_outbox (mem_timecol pg)) xs (fill_outbox pg now n xs)"
  by (induction xs arbitrary: n) (simp_all add: store_outbox_def)

lemma fill_outbox_ids:
  "list_all (\<lambda>i. ob_ID i = 0) xs \<Longrightarrow>
    sorted_wrt (<) (map ob_ID (fill_outbox pg now n xs)) \<and> (\<forall>r \<in> set (fill_outbox pg now n xs). n \<le> ob_ID r)"
proof (induction xs arbitrary: n)
  case (Cons i xs)
  then show ?case using Cons.IH [of "n + 1"] by fastforce
qed simp

lemma enqueued_fill_outbox:
  "enqueued (mem_timecol pg) old xs (fill_outbox pg now (next_id (map ob_ID old)) xs)"
proof -
  let ?n = "next_id (map ob_ID old)"
  have "ob_ID q < ?n" if "q \<in> set old" for q using that by (intro next_id_fresh) simp
  then show ?thesis
    using store_fill_outbox fill_outbox_ids [of xs pg now ?n] next_id_pos [of "map ob_ID old"]
    unfolding enqueued_def by fastforce
qed

lemma mem_numcol_idem: "mem_numcol pg (mem_numcol pg d) = mem_numcol pg d"
  by (simp add: mem_numcol_def dec10_val_def power_int_minus)

lemma answers_mem_select: "answers matches key q rows (mem_select matches key q rows)"
  by (auto simp: answers_def mem_select_def Let_def split: option.splits id_order.splits)

lemma mem_tx_law: "transactional m_tables mem_tx"
  unfolding transactional_def
proof (intro allI)
  fix body :: "('z mem_scheme, unit) io" and s
  obtain r s1 where "body s = (r, s1)" by fastforce
  then show "case mem_tx body s of
      (Ok _, t) \<Rightarrow> \<exists>s0 s1. m_tables s0 = m_tables s \<and> body s0 = (Ok (), s1) \<and> m_tables t = m_tables s1
    | (Fail e, t) \<Rightarrow> m_tables t = m_tables s \<and>
        (engine_error e \<or> (\<exists>s0. m_tables s0 = m_tables s \<and> fst (body s0) = Fail e))
    | (Panic, t) \<Rightarrow> m_tables t = m_tables s \<and> (\<exists>s0. m_tables s0 = m_tables s \<and> fst (body s0) = Panic)"
    by (cases r) (auto simp: mem_tx_def engine_error_def intro: exI [of _ s])
qed

lemma mem_upsert_law:
  "mem_upsert pg items T = Some (xs, T') \<Longrightarrow>
    items \<noteq> [] \<and> fills (i_ID ` set (tb_inventory T)) items xs \<and>
    T' = T\<lparr>tb_inventory := foldl upsert_row (tb_inventory T) (map (store_item (mem_numcol pg)) xs)\<rparr>"
  using fills_assign_ids [of "map i_ID (tb_inventory T)" items]
  by (auto simp: mem_upsert_def Let_def split: if_splits)

interpretation mem: gorm dec10 "mem_engine pg" m_tables "mem_numcol pg" "mem_timecol pg"
  for pg
proof unfold_locales
  show "mem_numcol pg (mem_numcol pg p) = mem_numcol pg p" for p by (rule mem_numcol_idem)
  show "stmt m_tables (g_create_outbox (mem_engine pg) obs)
      (\<lambda>T xs T'. obs \<noteq> [] \<and> (\<exists>rows. enqueued (mem_timecol pg) (tb_outbox T) obs rows \<and>
         T' = T\<lparr>tb_outbox := tb_outbox T @ rows\<rparr>))" for obs
    unfolding mem_engine_def gorm_ops.simps
    by (rule mem_stmt_clock_law [where f = "\<lambda>c. mem_add_outbox pg c obs"])
      (auto simp: mem_add_outbox_def Let_def split: if_splits intro!: exI enqueued_fill_outbox)
  show "stmt m_tables (g_upsert_items (mem_engine pg) items)
      (\<lambda>T xs T'. items \<noteq> [] \<and> fills (i_ID ` set (tb_inventory T)) items xs \<and>
         T' = T\<lparr>tb_inventory := foldl upsert_row (tb_inventory T) (map (store_item (mem_numcol pg)) xs)\<rparr>)" for items
    unfolding mem_engine_def gorm_ops.simps by (rule mem_stmt_law) (rule mem_upsert_law)
  show "transactional m_tables (g_tx (mem_engine pg))"
    unfolding mem_engine_def gorm_ops.simps by (rule mem_tx_law)
  show "stmt m_tables (g_create_order (mem_engine pg) ord)
      (\<lambda>T x T'. x = ord\<lparr>o_ID := o_ID x\<rparr> \<and> int64 (o_ID x) \<and> (o_ID ord \<noteq> 0 \<longrightarrow> o_ID x = o_ID ord) \<and>
         T' = T\<lparr>tb_orders := tb_orders T @ [store_order (mem_numcol pg) x]\<rparr>)" for ord
    unfolding mem_engine_def gorm_ops.simps
    by (rule mem_stmt_law) (auto simp: mem_add_order_def Let_def split: if_splits)
  show "stmt m_tables (g_update_outbox (mem_engine pg) cs col t')
      (\<lambda>T n T'. n = int (length (sel outbox_matches cs (tb_outbox T))) \<and>
         T' = T\<lparr>tb_outbox := map (\<lambda>r. if list_all (\<lambda>c. outbox_matches c r) cs
                                     then set_column col (mem_timecol pg t') r else r) (tb_outbox T)\<rparr>)" for cs col t'
    unfolding mem_engine_def gorm_ops.simps by (rule mem_stmt_law) (auto simp: mem_update_def)
qed (auto simp: mem_engine_def answers_mem_select found_item_def mem_find_def
    intro!: mem_read_law mem_read_law [where R = "\<lambda>_ _. True", simplified] mem_stmt_law split: list.splits)

text \<open>An empty engine without failures, for examples.\<close>

definition mem_with :: "dec10 item list \<Rightarrow> mem" where
  "mem_with items = \<lparr>m_tables = \<lparr>tb_inventory = items, tb_orders = [], tb_outbox = []\<rparr>, m_faults = [], m_clock = zero_time\<rparr>"

context gorm
begin

lemmas GormDB_database = store.database_axioms

end

section \<open>Theorems\<close>

text \<open>C39: \<^verbatim>\<open>GormDB\<close> implements the store interfaces. Over any mapper and engine with the documented behaviour of
  GORM, every operation of \<^verbatim>\<open>GormDB\<close> meets the contract of its interface: reads answer with the selected rows
  and change nothing, writes have exactly their effect or none, updates of the outbox are strict, and a
  transaction is all or nothing.\<close>

theorem GormDB_refines:
  assumes "gorm dec g tables numcol timecol"
  shows "database dec (GormDB g) tables numcol timecol"
  by (rule gorm.GormDB_database [OF assms])

theorem GormDB_refines_witness:
  "database dec10 (GormDB (mem_engine False :: (dec10, mem) gorm_ops)) m_tables (mem_numcol False) (mem_timecol False)"
  by (rule GormDB_refines [OF mem.gorm_axioms])

end
