(* ===== verification/Promotions.thy ===== *)
theory Promotions
  imports Mem_Engine
begin

text \<open>
  The package \<^verbatim>\<open>promotions\<close>: the three deals and the engine that applies them in turn.
  A promotion is a function of the items that may read the inventory. The locale
  \<open>promotion\<close> is the contract of the interface \<^verbatim>\<open>Promotion\<close>, and every deal of the program
  is an instance of it over every inventory store.
\<close>

section \<open>Counting\<close>

text \<open>Reading a missing key of a Go map of integers gives zero.\<close>

definition map_get :: "('k \<rightharpoonup> int) \<Rightarrow> 'k \<Rightarrow> int" where
  "map_get m k = (case m k of None \<Rightarrow> 0 | Some n \<Rightarrow> n)"

definition map_incr :: "('k \<rightharpoonup> int) \<Rightarrow> 'k \<Rightarrow> 'k \<rightharpoonup> int" where
  "map_incr m k = m(k \<mapsto> map_get m k + 1)"

definition countItemsByName :: "'d item list \<Rightarrow> (string \<rightharpoonup> int)" where
  "countItemsByName items = foldl (\<lambda>m i. map_incr m (i_Name i)) Map.empty items"

definition name_count :: "'d item list \<Rightarrow> string \<Rightarrow> int" where
  "name_count items k = int (length (filter (\<lambda>i. i_Name i = k) items))"

section \<open>The deals\<close>

type_synonym ('d, 's) promotion = "'d item list \<Rightarrow> ('s, 'd promotions) io"

definition no_promotions :: "'d promotions" where
  "no_promotions = \<lparr>pm_Deduction = Fin 0, pm_AddedItems = []\<rparr>"

text \<open>The item pointer read from the store is dereferenced without a check.\<close>

definition MacBookProPromotion_Apply :: "('d, 's) db_ops \<Rightarrow> ('d, 's) promotion" where
  "MacBookProPromotion_Apply db items =
     (case countItemsByName items ''MacBook Pro'' of
        None \<Rightarrow> returnS no_promotions
      | Some n \<Rightarrow>
          bindS (db_GetItemByName db ''Raspberry Pi B'') (\<lambda>p. case p of
             None \<Rightarrow> panicS
           | Some it \<Rightarrow>
               if i_InventoryQuantity it < n then returnS no_promotions
               else returnS (no_promotions\<lparr>pm_AddedItems := replicate (nat n) it\<rparr>)))"

fun google_loop :: "'d decimal_ops \<Rightarrow> (string \<rightharpoonup> int) \<Rightarrow> 'd item list \<Rightarrow> float64 \<Rightarrow> float64" where
  "google_loop dec counts [] acc = acc"
| "google_loop dec counts (it # items) acc =
     (if i_Name it = ''Google TV'' \<and> 3 \<le> map_get counts ''Google TV''
      then let discount = d_mul dec (i_Price it) (d_of_int dec (map_get counts ''Google TV'' div 3))
           in google_loop dec counts items (fadd acc (d_to_float dec discount))
      else google_loop dec counts items acc)"

definition GoogleTVPromotion_Apply :: "'d decimal_ops \<Rightarrow> ('d, 's) promotion" where
  "GoogleTVPromotion_Apply dec items =
     returnS (no_promotions\<lparr>pm_Deduction := google_loop dec (countItemsByName items) items (Fin 0)\<rparr>)"

fun alexa_loop :: "'d decimal_ops \<Rightarrow> (string \<rightharpoonup> int) \<Rightarrow> 'd item list \<Rightarrow> float64 \<Rightarrow> float64 res" where
  "alexa_loop dec counts [] acc = Ok acc"
| "alexa_loop dec counts (it # items) acc =
     (if i_Name it = ''Alexa Speaker'' \<and> 3 < map_get counts ''Alexa Speaker''
      then bindR (d_of_float dec (round64 (1 / 10))) (\<lambda>tenth.
             let discount = d_mul dec (d_mul dec (i_Price it) (d_of_int dec (map_get counts ''Alexa Speaker''))) tenth
             in alexa_loop dec counts items (fadd acc (d_to_float dec discount)))
      else alexa_loop dec counts items acc)"

definition AlexaSpeakerPromotion_Apply :: "'d decimal_ops \<Rightarrow> ('d, 's) promotion" where
  "AlexaSpeakerPromotion_Apply dec items =
     bindS (liftS (alexa_loop dec (countItemsByName items) items (Fin 0))) (\<lambda>ded.
       returnS (no_promotions\<lparr>pm_Deduction := ded\<rparr>))"

section \<open>The engine\<close>

fun apply_loop :: "('d, 's) promotion list \<Rightarrow> 'd item list \<Rightarrow> 'd promotions \<Rightarrow> ('s, 'd promotions) io" where
  "apply_loop [] items res = returnS res"
| "apply_loop (promo # ps) items res =
     bindS (promo items) (\<lambda>p.
       apply_loop ps items
         (res\<lparr>pm_Deduction := fadd (pm_Deduction res) (pm_Deduction p),
              pm_AddedItems := pm_AddedItems res @ pm_AddedItems p\<rparr>))"

definition ApplyPromotions :: "('d, 's) promotion list \<Rightarrow> 'd item list \<Rightarrow> ('s, 'd promotions) io" where
  "ApplyPromotions ps items = apply_loop ps items no_promotions"

text \<open>The engine that \<^verbatim>\<open>orders.NewService\<close> builds.\<close>

definition promotions_of :: "'d decimal_ops \<Rightarrow> ('d, 's) db_ops \<Rightarrow> ('d, 's) promotion list" where
  "promotions_of dec db =
     [MacBookProPromotion_Apply db, GoogleTVPromotion_Apply dec, AlexaSpeakerPromotion_Apply dec]"

section \<open>Facts\<close>

lemma foldl_count:
  "foldl (\<lambda>m i. map_incr m (i_Name i)) m items k =
     (if name_count items k = 0 then m k else Some (map_get m k + name_count items k))"
  by (induction items arbitrary: m) (auto simp: name_count_def map_incr_def map_get_def split: option.splits)

lemma countItemsByName_count:
  "countItemsByName items k = (if name_count items k = 0 then None else Some (name_count items k))"
  unfolding countItemsByName_def by (subst foldl_count) (simp add: map_get_def)

lemma map_get_count [simp]: "map_get (countItemsByName items) k = name_count items k"
  by (simp add: map_get_def countItemsByName_count)

lemma name_count_distinct: "distinct (map i_Name items) \<Longrightarrow> name_count items k \<le> 1"
  using length_filter_key_le1 [of i_Name items k] by (simp add: name_count_def)

lemma name_count_pos_iff: "0 < name_count items k \<longleftrightarrow> k \<in> i_Name ` set items"
  by (auto simp: name_count_def filter_empty_conv image_iff)

lemma google_loop_idle: "\<not> 3 \<le> map_get counts ''Google TV'' \<Longrightarrow> google_loop dec counts items acc = acc"
  by (induction items arbitrary: acc) simp_all

lemma alexa_loop_idle: "\<not> 3 < map_get counts ''Alexa Speaker'' \<Longrightarrow> alexa_loop dec counts items acc = Ok acc"
  by (induction items arbitrary: acc) simp_all

text \<open>On items with distinct names, which every selection of inventory rows has, two deals never apply.\<close>

lemma idle_deals:
  assumes "distinct (map i_Name items)"
  shows "GoogleTVPromotion_Apply dec items = returnS no_promotions"
    and "AlexaSpeakerPromotion_Apply dec items = returnS no_promotions"
  using name_count_distinct [OF assms, of "''Google TV''"] name_count_distinct [OF assms, of "''Alexa Speaker''"]
  by (auto simp: GoogleTVPromotion_Apply_def AlexaSpeakerPromotion_Apply_def google_loop_idle alexa_loop_idle
      no_promotions_def fun_eq_iff bindS_def)

text \<open>The free item: a Raspberry Pi in stock, when the items hold a MacBook Pro.\<close>

definition free_raspberry :: "'d item list \<Rightarrow> 'd item list \<Rightarrow> 'd item list" where
  "free_raspberry rows items =
     (if ''MacBook Pro'' \<in> i_Name ` set items
      then filter (\<lambda>i. 1 \<le> i_InventoryQuantity i) (filter (\<lambda>i. i_Name i = ''Raspberry Pi B'') rows) else [])"

section \<open>The contract of a promotion\<close>

text \<open>
  A promotion only reads the database, and every item it adds is a row of the inventory
  with stock. It may fail with an error of the engine.
\<close>

locale promotion =
  fixes tables :: "'s \<Rightarrow> 'd tables" and promo :: "('d, 's) promotion"
  assumes reads: "promo items s = (r, s') \<Longrightarrow> tables s' = tables s"
    and added: "promo items s = (Ok p, s') \<Longrightarrow> it \<in> set (pm_AddedItems p) \<Longrightarrow>
      it \<in> set (tb_inventory (tables s)) \<and> 0 < i_InventoryQuantity it"
    and fails: "promo items s = (Fail e, s') \<Longrightarrow> engine_error e"

lemma apply_loop_spec:
  assumes "\<And>promo. promo \<in> set ps \<Longrightarrow> promotion tables promo"
  shows "apply_loop ps items res s = (r, s') \<Longrightarrow> tables s' = tables s \<and>
    (\<forall>e. r = Fail e \<longrightarrow> engine_error e) \<and>
    (\<forall>p. r = Ok p \<longrightarrow> (\<forall>it \<in> set (pm_AddedItems p). it \<in> set (pm_AddedItems res) \<or>
        it \<in> set (tb_inventory (tables s)) \<and> 0 < i_InventoryQuantity it))"
  using assms
proof (induction ps arbitrary: res s)
  case Nil
  then show ?case by auto
next
  case (Cons promo ps)
  have P: "promotion tables promo" using Cons.prems(2) by simp
  obtain x s1 where p: "promo items s = (x, s1)" by fastforce
  note s1 = promotion.reads [OF P p]
  show ?case
  proof (cases x)
    case (Ok q)
    let ?res = "res\<lparr>pm_Deduction := fadd (pm_Deduction res) (pm_Deduction q), pm_AddedItems := pm_AddedItems res @ pm_AddedItems q\<rparr>"
    have "apply_loop ps items ?res s1 = (r, s')" using Cons.prems(1) p Ok by (simp add: go_simps)
    from Cons.IH [OF this Cons.prems(2)] show ?thesis using promotion.added [OF P, of items s q s1] p Ok s1 by auto
  qed (use Cons.prems(1) p s1 promotion.fails [OF P, of items s] in \<open>auto simp: go_simps\<close>)
qed

lemma google_promotion: "promotion tables (GoogleTVPromotion_Apply dec)"
  by unfold_locales (auto simp: GoogleTVPromotion_Apply_def no_promotions_def)

context inventory_store
begin

lemma raspberry:
  assumes "db_GetItemByName db name s = (Ok x, s')"
  obtains it where "x = Some it" "tables s' = tables s"
    "it \<in> set (tb_inventory (tables s)) \<and> i_Name it = name \<or>
      it = zero_item dec \<and> name \<notin> i_Name ` set (tb_inventory (tables s))"
  using stmt_Ok [OF GetItemByName assms]
  by (fastforce simp: found_item_def filter_empty_conv image_iff split: if_splits)

lemma macbook_promotion: "promotion tables (MacBookProPromotion_Apply db)"
proof
  fix items s r s'
  assume a: "MacBookProPromotion_Apply db items s = (r, s')"
  obtain x s1 where g: "db_GetItemByName db ''Raspberry Pi B'' s = (x, s1)" by fastforce
  from a g stmt_read [OF GetItemByName g] show "tables s' = tables s"
    by (cases x) (auto simp: MacBookProPromotion_Apply_def go_simps split: option.splits if_splits)
next
  fix items s p s' it
  assume a: "MacBookProPromotion_Apply db items s = (Ok p, s')" and it: "it \<in> set (pm_AddedItems p)"
  then obtain n x s1 where n: "countItemsByName items ''MacBook Pro'' = Some n"
      and g: "db_GetItemByName db ''Raspberry Pi B'' s = (Ok (Some x), s1)" and p: "it = x" "n \<le> i_InventoryQuantity x"
    by (auto simp: MacBookProPromotion_Apply_def bindS_eq_Ok no_promotions_def split: option.splits if_splits)
  from n have "0 < n" by (auto simp: countItemsByName_count name_count_def split: if_splits)
  with p raspberry [OF g] show "it \<in> set (tb_inventory (tables s)) \<and> 0 < i_InventoryQuantity it"
    by (force simp: zero_item_def)
next
  fix items s e s'
  assume "MacBookProPromotion_Apply db items s = (Fail e, s')"
  then have "db_GetItemByName db ''Raspberry Pi B'' s = (Fail e, s')"
    by (auto simp: MacBookProPromotion_Apply_def bindS_def split: option.splits prod.splits res.splits if_splits)
  with stmt_Fail [OF GetItemByName] show "engine_error e" by blast
qed

lemma macbook_unique:
  assumes "distinct (map i_Name items)" and "db_ok (tables s)"
    and "MacBookProPromotion_Apply db items s = (Ok p, s')"
  shows "p = no_promotions\<lparr>pm_AddedItems := free_raspberry (tb_inventory (tables s)) items\<rparr>"
proof (cases "name_count items ''MacBook Pro'' = 0")
  case True
  with assms(3) name_count_pos_iff [of items "''MacBook Pro''"] show ?thesis
    by (auto simp: MacBookProPromotion_Apply_def countItemsByName_count free_raspberry_def no_promotions_def)
next
  case False
  then have one: "name_count items ''MacBook Pro'' = 1"
    using name_count_distinct [OF assms(1), of "''MacBook Pro''"] by (auto simp: name_count_def le_Suc_eq)
  let ?inv = "tb_inventory (tables s)"
  obtain it s1 where g0: "db_GetItemByName db ''Raspberry Pi B'' s = (Ok (Some it), s1)"
      and p: "p = (if i_InventoryQuantity it < 1 then no_promotions else no_promotions\<lparr>pm_AddedItems := [it]\<rparr>)"
    using assms(3) one
    by (auto simp: MacBookProPromotion_Apply_def countItemsByName_count bindS_eq_Ok split: option.splits if_splits)
  then have g: "it \<in> set ?inv \<and> i_Name it = ''Raspberry Pi B'' \<or>
      it = zero_item dec \<and> ''Raspberry Pi B'' \<notin> i_Name ` set ?inv"
    by (blast elim: raspberry)
  have "filter (\<lambda>i. i_Name i = ''Raspberry Pi B'') ?inv = [it]" if "it \<in> set ?inv" "i_Name it = ''Raspberry Pi B''"
    using filter_key_singleton [of i_Name ?inv it] that assms(2) by (simp add: db_ok_def inventory_ok_def)
  moreover have "filter (\<lambda>i. i_Name i = ''Raspberry Pi B'') ?inv = []" if "''Raspberry Pi B'' \<notin> i_Name ` set ?inv"
    using that by (auto simp: filter_empty_conv image_iff)
  moreover have "''MacBook Pro'' \<in> i_Name ` set items" using one name_count_pos_iff [of items] by fastforce
  ultimately have "free_raspberry ?inv items = (if i_InventoryQuantity it < 1 then [] else [it])"
    using g by (auto simp: free_raspberry_def zero_item_def simp del: filter_filter)
  with p show ?thesis by (simp add: no_promotions_def)
qed

text \<open>What the engine of the orders service grants on a selection of inventory rows.\<close>

lemma ApplyPromotions_unique:
  assumes "distinct (map i_Name items)" and "db_ok (tables s)"
    and "ApplyPromotions (promotions_of dec db) items s = (Ok p, s')"
  shows "p = no_promotions\<lparr>pm_AddedItems := free_raspberry (tb_inventory (tables s)) items\<rparr> \<and> tables s' = tables s"
proof -
  from assms(3) obtain q where q: "MacBookProPromotion_Apply db items s = (Ok q, s')"
      and p: "p = no_promotions\<lparr>pm_AddedItems := pm_AddedItems q, pm_Deduction := fadd (fadd (fadd (Fin 0) (pm_Deduction q)) (Fin 0)) (Fin 0)\<rparr>"
    by (auto simp: ApplyPromotions_def promotions_of_def idle_deals [OF assms(1)] bindS_eq_Ok no_promotions_def)
  have "round64 0 = Fin 0" by (simp add: round64_def)
  with p macbook_unique [OF assms(1,2) q] promotion.reads [OF macbook_promotion q] show ?thesis
    by (simp add: no_promotions_def)
qed

end

section \<open>The deals on any items\<close>

context decimal_lib
begin

lemma google_loop_sum:
  assumes "3 \<le> map_get counts ''Google TV''"
  shows "google_loop dec counts items acc =
    foldl fadd acc (map (\<lambda>i. round64 (val (i_Price i) * of_int (map_get counts ''Google TV'' div 3)))
      (filter (\<lambda>i. i_Name i = ''Google TV'') items))"
  using assms by (induction items arbitrary: acc) (simp_all add: Let_def)

lemma alexa_loop_sum:
  assumes "3 < map_get counts ''Alexa Speaker''"
  shows "alexa_loop dec counts items acc =
    Ok (foldl fadd acc (map (\<lambda>i. round64 (val (i_Price i) * of_int (map_get counts ''Alexa Speaker'') * (1 / 10)))
      (filter (\<lambda>i. i_Name i = ''Alexa Speaker'') items)))"
proof -
  obtain t where t: "d_of_float dec (round64 (1 / 10)) = Ok t" "val t = 1 / 10" using of_float_tenth by blast
  have "alexa_loop dec counts items acc =
    Ok (foldl fadd acc (map (\<lambda>i. round64 (val (i_Price i) * of_int (map_get counts ''Alexa Speaker'') * val t))
      (filter (\<lambda>i. i_Name i = ''Alexa Speaker'') items)))"
    using assms t(1) by (induction items arbitrary: acc) (simp_all add: Let_def)
  then show ?thesis unfolding t(2) .
qed

lemma alexa_Ok: "\<exists>d. AlexaSpeakerPromotion_Apply dec items s = (Ok (no_promotions\<lparr>pm_Deduction := d\<rparr>), s)"
proof -
  have "\<exists>d. alexa_loop dec (countItemsByName items) items (Fin 0) = Ok d"
    using alexa_loop_idle alexa_loop_sum by metis
  then show ?thesis by (auto simp: AlexaSpeakerPromotion_Apply_def go_simps)
qed

lemma alexa_promotion:
  fixes tables :: "'s \<Rightarrow> 'd tables"
  shows "promotion tables (AlexaSpeakerPromotion_Apply dec)"
proof
  fix items r and s s' :: 's
  assume "AlexaSpeakerPromotion_Apply dec items s = (r, s')"
  then show "tables s' = tables s" using alexa_Ok [of items s] by auto
next
  fix items p it and s s' :: 's
  assume "AlexaSpeakerPromotion_Apply dec items s = (Ok p, s')" "it \<in> set (pm_AddedItems p)"
  then show "it \<in> set (tb_inventory (tables s)) \<and> 0 < i_InventoryQuantity it"
    using alexa_Ok [of items s] by (auto simp: no_promotions_def)
next
  fix items e and s s' :: 's
  assume "AlexaSpeakerPromotion_Apply dec items s = (Fail e, s')"
  then show "engine_error e" using alexa_Ok [of items s] by auto
qed

end

section \<open>The engine of the orders service\<close>

locale priced_store = inventory_store dec db tables numcol + decimal_lib dec val
  for dec :: "'d decimal_ops" and db :: "('d, 's) db_ops" and tables :: "'s \<Rightarrow> 'd tables"
    and numcol :: "'d \<Rightarrow> 'd" and val :: "'d \<Rightarrow> rat"
begin

lemma ApplyPromotions_contract: "promotion tables (ApplyPromotions (promotions_of dec db))"
proof -
  have all: "promotion tables promo" if "promo \<in> set (promotions_of dec db)" for promo
    using that macbook_promotion google_promotion alexa_promotion by (auto simp: promotions_of_def)
  show ?thesis
    by unfold_locales
      (use apply_loop_spec [OF all] in \<open>fastforce simp: ApplyPromotions_def no_promotions_def\<close>)+
qed

end

sublocale priced_store \<subseteq> engine: promotion tables "ApplyPromotions (promotions_of dec db)"
  by (rule ApplyPromotions_contract)

interpretation mem_priced: priced_store dec10 "GormDB (mem_engine pg)" m_tables "mem_numcol pg" dec10_val
  for pg
  by unfold_locales

section \<open>Theorems\<close>

lemma foldl_fadd_same:
  assumes "0 \<le> a" and "0 \<le> d" and "a + int m * d \<le> 2 ^ 53"
  shows "foldl fadd (Fin (of_int a)) (replicate m (Fin (of_int d))) = Fin (of_int (a + int m * d))"
  using assms
proof (induction m arbitrary: a)
  case (Suc m)
  have "a + d \<le> a + int (Suc m) * d" using Suc.prems(2) by (simp add: algebra_simps)
  then have "representable (of_int (a + d))" using Suc.prems by (intro representable_int) simp
  then have "fadd (Fin (of_int a)) (Fin (of_int d)) = Fin (of_int (a + d))" by (simp add: representable_def)
  with Suc.IH [of "a + d"] Suc.prems show ?case by (simp add: algebra_simps)
qed simp


text \<open>Three sets for fifty each.\<close>

definition demo_tv :: "dec10 item" where
  "demo_tv = \<lparr>i_ID = 3, i_SKU = ''120P90'', i_Name = ''Google TV'', i_Price = (50, 0), i_InventoryQuantity = 10\<rparr>"


end
