(* ===== verification/Event.thy ===== *)
theory Event
  imports Model
begin

text \<open>
  The package \<^verbatim>\<open>event\<close>: the transport-independent message envelope, its validation, its
  wire format and the accessor of its payload. The field \<^verbatim>\<open>Data any\<close> holds one of the two
  dynamic types the program stores in it: the raw JSON of a consumed event
  (\<open>RawMessage []\<close> is a nil message) or an order.
\<close>

datatype 'd event_data = RawMessage string | OrderData "'d order"

record 'd event =
  e_Topic :: string
  e_Key :: string
  e_ID :: string
  e_OccurredAt :: time
  e_Data :: "'d event_data"

definition TopicOrderCreated :: string where
  "TopicOrderCreated = ''orders.created''"

text \<open>The generated identifier and the current time are arguments.\<close>

definition Event_New :: "string \<Rightarrow> time \<Rightarrow> string \<Rightarrow> string \<Rightarrow> 'd event_data \<Rightarrow> 'd event" where
  "Event_New uid now topic key data =
     \<lparr>e_Topic = topic, e_Key = key, e_ID = uid, e_OccurredAt = now, e_Data = data\<rparr>"

definition Event_Validate :: "'d event option \<Rightarrow> unit res" where
  "Event_Validate p = (case p of
      None \<Rightarrow> Fail (Wrap [] ErrMalformedEvent '': nil event'')
    | Some e \<Rightarrow>
        if e_Topic e = [] then Fail (Wrap [] ErrMalformedEvent '': empty topic'')
        else if e_Key e = [] then Fail (Wrap [] ErrMalformedEvent '': empty key'')
        else if e_ID e = [] then Fail (Wrap [] ErrMalformedEvent '': empty id'')
        else Ok ())"

section \<open>Wire format\<close>

record envelope =
  v_ID :: string
  v_OccurredAt :: time
  v_Data :: string

text \<open>\<^verbatim>\<open>json.RawMessage\<close> as a value to encode: nil is \<^verbatim>\<open>null\<close>, anything else must be valid JSON.\<close>

definition marshal_raw :: "string \<Rightarrow> string res" where
  "marshal_raw r =
     (if r = [] then Ok ''null''
      else if parse_json r = None then Fail (ErrExt ''json'')
      else Ok (compact r))"

definition marshal_data :: "'d decimal_ops \<Rightarrow> 'd event_data \<Rightarrow> string res" where
  "marshal_data dec d = (case d of
      RawMessage r \<Rightarrow> marshal_raw r
    | OrderData ord \<Rightarrow> Ok (print_json (order_json dec ord)))"

definition marshal_time :: "time \<Rightarrow> string res" where
  "marshal_time t = (if time_ok t then Ok (quote (time_text t)) else Fail (ErrExt ''Time.MarshalJSON''))"

definition marshal_envelope :: "envelope \<Rightarrow> string res" where
  "marshal_envelope v =
     bindR (marshal_time (v_OccurredAt v)) (\<lambda>t.
     bindR (marshal_raw (v_Data v)) (\<lambda>d.
       Ok (print_raw_obj [(''id'', quote (v_ID v)), (''occurred_at'', t), (''data'', d)])))"

definition Encode :: "'d decimal_ops \<Rightarrow> 'd event option \<Rightarrow> string res" where
  "Encode dec p =
     bindR (Event_Validate p) (\<lambda>_. case p of
        None \<Rightarrow> Panic
      | Some e \<Rightarrow>
          bindR (wrapR (\<lambda>err. Wrap ''marshal event data: '' err []) (marshal_data dec (e_Data e))) (\<lambda>d.
            marshal_envelope \<lparr>v_ID = e_ID e, v_OccurredAt = e_OccurredAt e, v_Data = d\<rparr>))"

definition raw_dec :: "(json \<Rightarrow> 'v \<Rightarrow> 'v option) \<Rightarrow> string \<Rightarrow> 'v \<Rightarrow> 'v option" where
  "raw_dec d r old = Option.bind (parse_json r) (\<lambda>j. d j old)"

text \<open>\<^verbatim>\<open>RawMessage.UnmarshalJSON\<close> stores the text of the value, also of \<^verbatim>\<open>null\<close>.\<close>

definition envelope_fields :: "(string, envelope) fields" where
  "envelope_fields =
     [(''id'', fld v_ID v_ID_update (raw_dec dec_string)),
      (''occurred_at'', fld v_OccurredAt v_OccurredAt_update (raw_dec dec_time)),
      (''data'', fld v_Data v_Data_update (\<lambda>r old. Some r))]"

definition unmarshal_envelope :: "string \<Rightarrow> envelope option" where
  "unmarshal_envelope s =
     (let zero = \<lparr>v_ID = [], v_OccurredAt = zero_time, v_Data = []\<rparr> in
      case parse_raw s of
        None \<Rightarrow> None
      | Some RawNull \<Rightarrow> Some zero
      | Some (RawObj ms) \<Rightarrow> decode_members envelope_fields ms zero
      | Some RawOther \<Rightarrow> None)"

definition Decode :: "string \<Rightarrow> string \<Rightarrow> string \<Rightarrow> 'd event res" where
  "Decode topic key value =
     (case unmarshal_envelope value of
        None \<Rightarrow> Fail (Wrap ''unmarshal event envelope: '' (ErrExt ''json'') [])
      | Some env \<Rightarrow> Ok \<lparr>e_Topic = topic, e_Key = key, e_ID = v_ID env, e_OccurredAt = v_OccurredAt env,
                       e_Data = RawMessage (v_Data env)\<rparr>)"

text \<open>The target \<^verbatim>\<open>v\<close> is given by the decoder of its type and its current value.\<close>

definition DecodeData ::
  "'d decimal_ops \<Rightarrow> (json \<Rightarrow> 'v \<Rightarrow> 'v option) \<Rightarrow> 'v \<Rightarrow> 'd event \<Rightarrow> 'v res" where
  "DecodeData dec d old e =
     bindR (case e_Data e of
        RawMessage r \<Rightarrow> Ok r
      | data \<Rightarrow> wrapR (\<lambda>err. Wrap ''marshal event data: '' err []) (marshal_data dec data)) (\<lambda>raw.
     case Option.bind (parse_json raw) (\<lambda>j. d j old) of
        None \<Rightarrow> Fail (Wrap ''unmarshal event data: '' (ErrExt ''json'') [])
      | Some v \<Rightarrow> Ok v)"

section \<open>Facts\<close>

lemma Event_Validate_Ok_iff:
  "Event_Validate (Some e) = Ok () \<longleftrightarrow> e_Topic e \<noteq> [] \<and> e_Key e \<noteq> [] \<and> e_ID e \<noteq> []"
  by (simp add: Event_Validate_def)

lemma Event_Validate_fail:
  "Event_Validate p \<noteq> Ok () \<Longrightarrow> \<exists>err. Event_Validate p = Fail err \<and> errors_is err ErrMalformedEvent"
  by (auto simp: Event_Validate_def split: option.splits if_splits)

lemma marshal_raw_print [simp]: "json_wf j \<Longrightarrow> marshal_raw (print_json j) = Ok (print_json j)"
  using print_json_head [of j] by (auto simp: marshal_raw_def parse_print_json)

text \<open>The JSON object an event with payload \<open>j\<close> is written as.\<close>

definition envelope_json :: "string \<Rightarrow> time \<Rightarrow> json \<Rightarrow> json" where
  "envelope_json uid t j = JObj [(''id'', JStr uid), (''occurred_at'', JStr (time_text t)), (''data'', j)]"

lemma utf8_tags: "utf8_valid ''id''" "utf8_valid ''occurred_at''" "utf8_valid ''data''"
  by (rule utf8_valid_ascii, simp add: ascii_def)+

lemma envelope_json_wf: "utf8_valid uid \<Longrightarrow> json_wf j \<Longrightarrow> json_wf (envelope_json uid t j)"
  unfolding envelope_json_def by (simp add: utf8_tags del: utf8_valid.simps utf8_valid_ConsI)

lemma marshal_envelope_print:
  assumes "time_ok t" and "json_wf j"
  shows "marshal_envelope \<lparr>v_ID = uid, v_OccurredAt = t, v_Data = print_json j\<rparr> = Ok (print_json (envelope_json uid t j))"
  using assms print_raw_obj_JObj [of "[(''id'', JStr uid), (''occurred_at'', JStr (time_text t)), (''data'', j)]"]
  by (simp add: marshal_envelope_def marshal_time_def envelope_json_def)

lemma unmarshal_envelope_print:
  assumes "utf8_valid uid" and "time_ok t" and "json_wf j"
  shows "unmarshal_envelope (print_json (envelope_json uid t j))
    = Some \<lparr>v_ID = uid, v_OccurredAt = t, v_Data = print_json j\<rparr>"
proof -
  have "json_wf (JObj [(''id'', JStr uid), (''occurred_at'', JStr (time_text t)), (''data'', j)])"
    using envelope_json_wf [OF assms(1,3), of t] by (simp only: envelope_json_def)
  moreover have "raw_dec dec_string (quote uid) old = Some uid" for old
    using parse_print_json [of "JStr uid"] assms(1) by (simp add: raw_dec_def)
  moreover have "raw_dec dec_time (quote (time_text t)) old = Some t" for old
    using parse_print_json [of "JStr (time_text t)"] assms(2) by (simp add: raw_dec_def parse_time_text)
  ultimately show ?thesis
    unfolding unmarshal_envelope_def envelope_json_def parse_raw_print
    by (simp add: parse_raw_print envelope_fields_def del: print_json.simps(6) json_wf.simps) 
qed

lemma Decode_print:
  "utf8_valid uid \<Longrightarrow> time_ok t \<Longrightarrow> json_wf j \<Longrightarrow>
    Decode topic key (print_json (envelope_json uid t j))
      = Ok \<lparr>e_Topic = topic, e_Key = key, e_ID = uid, e_OccurredAt = t, e_Data = RawMessage (print_json j)\<rparr>"
  by (simp add: Decode_def unmarshal_envelope_print)

lemma Encode_print:
  assumes "Event_Validate (Some e) = Ok ()" and "marshal_data dec (e_Data e) = Ok (print_json j)"
    and "time_ok (e_OccurredAt e)" and "json_wf j"
  shows "Encode dec (Some e) = Ok (print_json (envelope_json (e_ID e) (e_OccurredAt e) j))"
  using assms by (simp add: Encode_def marshal_envelope_print)

text \<open>Events the program can publish: an order with UTF-8 texts under a valid envelope.\<close>

definition order_event_ok :: "'d event \<Rightarrow> 'd order \<Rightarrow> bool" where
  "order_event_ok e ord \<longleftrightarrow> e_Data e = OrderData ord \<and> e_Topic e \<noteq> [] \<and> e_Key e \<noteq> [] \<and> e_ID e \<noteq> [] \<and>
     utf8_valid (e_ID e) \<and> time_ok (e_OccurredAt e) \<and> int64 (o_ID ord) \<and>
     utf8_valid (o_Reference ord) \<and> utf8_valid (o_CustomerID ord) \<and> utf8_valid (o_SKUList ord)"

context decimal_lib
begin

definition order_wire :: "'d event \<Rightarrow> 'd order \<Rightarrow> string" where
  "order_wire e ord = print_json (envelope_json (e_ID e) (e_OccurredAt e) (order_json dec ord))"

lemma order_event_codec:
  assumes "order_event_ok e ord"
  shows "Encode dec (Some e) = Ok (order_wire e ord)"
    and "Decode (e_Topic e) (e_Key e) (order_wire e ord) = Ok (e\<lparr>e_Data := RawMessage (print_json (order_json dec ord))\<rparr>)"
    and "Encode dec (Some (e\<lparr>e_Data := RawMessage (print_json (order_json dec ord))\<rparr>)) = Ok (order_wire e ord)"
proof -
  let ?j = "order_json dec ord" and ?e = "e\<lparr>e_Data := RawMessage (print_json (order_json dec ord))\<rparr>"
  have wf: "json_wf ?j" using assms by (intro order_json_wf) (simp_all add: order_event_ok_def)
  have ok: "Event_Validate (Some e) = Ok ()" "Event_Validate (Some ?e) = Ok ()"
    using assms by (simp_all add: Event_Validate_Ok_iff order_event_ok_def)
  show "Encode dec (Some e) = Ok (order_wire e ord)"
    unfolding order_wire_def using assms
    by (intro Encode_print ok wf) (simp_all add: order_event_ok_def marshal_data_def)
  show "Decode (e_Topic e) (e_Key e) (order_wire e ord) = Ok ?e"
    unfolding order_wire_def using assms by (simp add: Decode_print wf order_event_ok_def)
  show "Encode dec (Some ?e) = Ok (order_wire e ord)"
    using Encode_print [OF ok(2), of dec ?j] assms wf
    by (simp add: order_wire_def order_event_ok_def marshal_data_def)
qed

lemma DecodeData_order:
  assumes "int64 (o_ID ord)" and "json_wf (order_json dec ord)"
    and "e_Data e = OrderData ord \<or> e_Data e = RawMessage (print_json (order_json dec ord))"
  shows "\<exists>p. val p = val (o_Price ord) \<and> DecodeData dec (dec_order dec) (zero_order dec) e = Ok (ord\<lparr>o_Price := p\<rparr>)"
  using dec_order_json [OF assms(1)] parse_print_json [OF assms(2)] assms(3)
  by (auto simp: DecodeData_def marshal_data_def)

end

section \<open>Theorems\<close>

text \<open>C38: An order event survives the wire. Encoding the event of an order succeeds; decoding the bytes gives back the
  routing, identifier and time of the event with its payload as raw JSON; encoding that event again gives
  the same bytes, and decoding the payload gives back the order with a price of the same value.\<close>

theorem event_roundtrip:
  assumes "decimal_lib dec val" and "order_event_ok e ord"
  shows "\<exists>wire raw p. Encode dec (Some e) = Ok wire \<and>
    Decode (e_Topic e) (e_Key e) wire = Ok (e\<lparr>e_Data := RawMessage raw\<rparr>) \<and>
    Encode dec (Some (e\<lparr>e_Data := RawMessage raw\<rparr>)) = Ok wire \<and>
    DecodeData dec (dec_order dec) (zero_order dec) (e\<lparr>e_Data := RawMessage raw\<rparr>) = Ok (ord\<lparr>o_Price := p\<rparr>) \<and>
    val p = val (o_Price ord)"
proof -
  have "int64 (o_ID ord)" "json_wf (order_json dec ord)"
    using assms(2) decimal_lib.order_json_wf [OF assms(1)] by (simp_all add: order_event_ok_def)
  from decimal_lib.DecodeData_order [OF assms(1) this, of "e\<lparr>e_Data := RawMessage (print_json (order_json dec ord))\<rparr>"]
    decimal_lib.order_event_codec [OF assms] show ?thesis by auto
qed

text \<open>The event of an order.\<close>

definition demo_order :: "dec10 order" where
  "demo_order = \<lparr>o_ID = 7, o_Reference = ''ref'', o_CustomerID = ''alice'', o_SKUList = ''[]'', o_Price = (4999, -2)\<rparr>"

definition demo_event :: "dec10 event" where
  "demo_event = Event_New ''uid'' zero_time TopicOrderCreated (o_Reference demo_order) (OrderData demo_order)"

theorem event_roundtrip_witness:
  "\<exists>wire raw p. Encode dec10 (Some demo_event) = Ok wire \<and>
    Decode (e_Topic demo_event) (e_Key demo_event) wire = Ok (demo_event\<lparr>e_Data := RawMessage raw\<rparr>) \<and>
    DecodeData dec10 (dec_order dec10) (zero_order dec10) (demo_event\<lparr>e_Data := RawMessage raw\<rparr>) = Ok (demo_order\<lparr>o_Price := p\<rparr>) \<and>
    dec10_val p = dec10_val (4999, -2)"
proof -
  have "order_event_ok demo_event demo_order"
    by (simp add: order_event_ok_def demo_event_def demo_order_def Event_New_def TopicOrderCreated_def utf8_valid_ascii ascii_def int64_def) code_simp
  from event_roundtrip [OF dec10.decimal_lib_axioms this] show ?thesis by (simp add: demo_order_def) blast
qed

end
