(* ===== verification/Go_Float.thy ===== *)
theory Go_Float
  imports Money Go_Struct
begin

text \<open>
  The JSON text of a \<^verbatim>\<open>float64\<close>: the fewest decimal digits that read back as the same value,
  in positional notation, or in scientific notation below \<open>1e-6\<close> and from \<open>1e21\<close> on.
  Infinities and NaN cannot be encoded.
\<close>

text \<open>The exponent \<open>e\<close> with \<open>10 ^ e \<le> q < 10 ^ (e + 1)\<close>: an estimate from the binary one, corrected.\<close>

definition ilog10 :: "rat \<Rightarrow> int" where
  "ilog10 q =
     (let e = ilog2 q * 30103 div 100000
      in if 10 powi (e + 1) \<le> q then e + 1 else if q < 10 powi e then e - 1 else e)"

text \<open>
  The integers next to \<open>q\<close> at \<open>n\<close> significant digits that round to \<open>q\<close>, the nearer one first.
\<close>

definition digit_candidates :: "rat \<Rightarrow> nat \<Rightarrow> int list" where
  "digit_candidates q n =
     (let u = 10 powi (ilog10 q - int n + 1); lo = \<lfloor>q / u\<rfloor>;
          near = (if q / u - of_int lo \<le> 1 / 2 then [lo, lo + 1] else [lo + 1, lo])
      in filter (\<lambda>m. round64 (of_int m * u) = Fin q) near)"

definition shortest_digits :: "rat \<Rightarrow> string \<times> int" where
  "shortest_digits q =
     (case List.find (\<lambda>n. digit_candidates q n \<noteq> []) [1..<18] of
        None \<Rightarrow> (''0'', 0)
      | Some n \<Rightarrow>
          let ds = print_int (hd (digit_candidates q n))
          in (strip_zeros ds, ilog10 q - int n + int (length ds)))"

definition fixed_text :: "string \<Rightarrow> int \<Rightarrow> string" where
  "fixed_text ds e =
     (if e < 0 then ''0.'' @ replicate (nat (- e - 1)) (CHR ''0'') @ ds
      else let k = nat (e + 1) in
        if length ds \<le> k then ds @ replicate (k - length ds) (CHR ''0'')
        else take k ds @ ''.'' @ drop k ds)"

definition scientific_text :: "string \<Rightarrow> int \<Rightarrow> string" where
  "scientific_text ds e =
     take 1 ds @ (if length ds \<le> 1 then [] else ''.'' @ tl ds) @ ''e'' @
     (if e < 0 then ''-'' else ''+'') @ print_int \<bar>e\<bar>"

definition float_text :: "rat \<Rightarrow> string" where
  "float_text q =
     (if q = 0 then ''0''
      else (if q < 0 then ''-'' else []) @
        (case shortest_digits \<bar>q\<bar> of (ds, e) \<Rightarrow>
           if \<bar>q\<bar> < 1 / 1000000 \<or> 10 ^ 21 \<le> \<bar>q\<bar> then scientific_text ds e else fixed_text ds e))"

definition float_json :: "float64 \<Rightarrow> json option" where
  "float_json f = (case f of Fin q \<Rightarrow> Some (JNum (float_text q)) | _ \<Rightarrow> None)"

lemma float_json_Some_iff: "float_json f \<noteq> None \<longleftrightarrow> is_finite f"
  by (cases f) (simp_all add: float_json_def is_finite_def)

end
