(* ===== verification/Http.thy ===== *)
theory Http
  imports Event Go_Float
begin

text \<open>
  The packages \<^verbatim>\<open>httpserver\<close>, \<^verbatim>\<open>httpserver/api\<close>, \<^verbatim>\<open>httpserver/middleware\<close> and
  \<^verbatim>\<open>services/auth\<close>: requests and responses, the adapter from domain handlers to HTTP, the
  probes, the observer and the authentication guard. A response writer keeps the status
  and header the client receives (the first ones written), the status the observer recorded
  (the last one written) and the body.
\<close>

section \<open>Requests\<close>

record ctx =
  c_userID :: "string option"

definition WithUserID :: "ctx \<Rightarrow> string \<Rightarrow> ctx" where
  "WithUserID ctx userID = ctx\<lparr>c_userID := Some userID\<rparr>"

definition UserID :: "ctx \<Rightarrow> string option" where
  "UserID ctx = c_userID ctx"

record request =
  r_Method :: string
  r_Path :: string
  r_Query :: "(string \<times> string) list"
  r_Header :: "string \<rightharpoonup> string"
  r_Body :: string
  r_Context :: ctx

text \<open>A missing header reads as the empty string.\<close>

definition Header_Get :: "request \<Rightarrow> string \<Rightarrow> string" where
  "Header_Get req k = (case r_Header req k of None \<Rightarrow> [] | Some v \<Rightarrow> v)"

text \<open>\<^verbatim>\<open>r.URL.Query().Get\<close>: the first value of a query parameter, or the empty string.\<close>

definition Query_Get :: "request \<Rightarrow> string \<Rightarrow> string" where
  "Query_Get req k = (case map_of (r_Query req) k of None \<Rightarrow> [] | Some v \<Rightarrow> v)"

type_synonym params = "(string \<times> string) list"

definition ByName :: "params \<Rightarrow> string \<Rightarrow> string" where
  "ByName ps k = (case map_of ps k of None \<Rightarrow> [] | Some v \<Rightarrow> v)"

section \<open>Payloads\<close>

text \<open>The values the handlers return, and the report and error bodies.\<close>

datatype 'd payload =
    NilPayload
  | ItemsPayload "'d item list"
  | PricePayload "'d price_response"
  | PurchasePayload purchase_items_response
  | OrdersPayload "'d order list"
  | NotificationsPayload "notification list"
  | StatusPayload status_response
  | HealthPayload health_response
  | JSONError string

definition omit_string :: "string \<Rightarrow> string \<Rightarrow> (string \<times> json) list" where
  "omit_string k v = omitempty (v = []) k (JStr v)"

definition nil_if_empty :: "'a list \<Rightarrow> 'a list option" where
  "nil_if_empty xs = (if xs = [] then None else Some xs)"

definition promotions_json :: "'d decimal_ops \<Rightarrow> 'd promotions \<Rightarrow> json option" where
  "promotions_json dec p =
     map_option (\<lambda>d. JObj [(''deduction'', d),
        (''added_items'', json_slice (item_json dec) (nil_if_empty (pm_AddedItems p)))])
       (float_json (pm_Deduction p))"

definition price_response_json :: "'d decimal_ops \<Rightarrow> 'd price_response \<Rightarrow> json option" where
  "price_response_json dec r =
     Option.bind (case rs_Promotions r of
        None \<Rightarrow> Some []
      | Some p \<Rightarrow> map_option (\<lambda>j. [(''promotions'', j)]) (promotions_json dec p)) (\<lambda>promos.
     Option.bind (float_json (rs_TotalGross r)) (\<lambda>gross.
     Option.bind (float_json (rs_TotalWithDiscount r)) (\<lambda>net.
       Some (JObj ([(''items'', json_slice (item_json dec) (nil_if_empty (rs_Items r)))] @ promos @
         [(''total_gross'', gross), (''total_with_discount'', net)])))))"

definition notification_json :: "notification \<Rightarrow> json option" where
  "notification_json n =
     (if time_ok (n_OccurredAt n) then
        Some (JObj [(''event_id'', JStr (n_EventID n)), (''reference'', JStr (n_Reference n)),
          (''customer_id'', JStr (n_CustomerID n)), (''occurred_at'', JStr (time_text (n_OccurredAt n))),
          (''delivered'', JBool (n_Delivered n))])
      else None)"

fun all_some :: "'a option list \<Rightarrow> 'a list option" where
  "all_some [] = Some []"
| "all_some (x # xs) = (case x of None \<Rightarrow> None | Some v \<Rightarrow> map_option (Cons v) (all_some xs))"

fun payload_json :: "'d decimal_ops \<Rightarrow> 'd payload \<Rightarrow> json option" where
  "payload_json dec NilPayload = Some JNull"
| "payload_json dec (ItemsPayload items) = Some (JArr (map (item_json dec) items))"
| "payload_json dec (PricePayload r) = price_response_json dec r"
| "payload_json dec (PurchasePayload r) =
     map_option (\<lambda>c. JObj [(''order_reference'', JStr (ps_OrderReference r)), (''cost'', c)]) (float_json (ps_Cost r))"
| "payload_json dec (OrdersPayload os) = Some (JArr (map (order_json dec) os))"
| "payload_json dec (NotificationsPayload ns) = map_option JArr (all_some (map notification_json ns))"
| "payload_json dec (StatusPayload r) =
     Some (JObj (omit_string ''message'' (st_Message r) @ omit_string ''version'' (st_Version r) @
       omit_string ''service'' (st_Service r)))"
| "payload_json dec (HealthPayload r) =
     Some (JObj (omit_string ''version'' (hr_Version r) @ omit_string ''service'' (hr_Service r) @
       [(''failures'', json_slice JStr (hr_Failures r))]))"
| "payload_json dec (JSONError m) = Some (JObj (omit_string ''error'' m))"

section \<open>Responses\<close>

record writer =
  w_code :: "int option"
  w_ctype :: "string option"
  w_recorded :: int
  w_body :: string
  w_broken :: bool

text \<open>A fresh recorder around the connection's writer.\<close>

definition new_writer :: writer where
  "new_writer = \<lparr>w_code = None, w_ctype = None, w_recorded = 200, w_body = [], w_broken = False\<rparr>"

definition WriteHeader :: "int \<Rightarrow> writer \<Rightarrow> writer" where
  "WriteHeader code w =
     w\<lparr>w_recorded := code, w_code := (case w_code w of None \<Rightarrow> Some code | Some c \<Rightarrow> Some c)\<rparr>"

text \<open>Headers set after the status was written do not reach the client.\<close>

definition SetContentType :: "string \<Rightarrow> writer \<Rightarrow> writer" where
  "SetContentType v w = (if w_code w = None then w\<lparr>w_ctype := Some v\<rparr> else w)"

text \<open>Writing a body without a status sends 200; a broken connection reports an error.\<close>

definition Write :: "string \<Rightarrow> (writer, unit) io" where
  "Write b w =
     (let w' = w\<lparr>w_code := (case w_code w of None \<Rightarrow> Some 200 | Some c \<Rightarrow> Some c)\<rparr> in
      if w_broken w then (Fail (ErrExt ''write''), w') else (Ok (), w'\<lparr>w_body := w_body w @ b\<rparr>))"

definition marshal_payload :: "'d decimal_ops \<Rightarrow> 'd payload \<Rightarrow> string res" where
  "marshal_payload dec p = (case p of
      NilPayload \<Rightarrow> Ok []
    | _ \<Rightarrow> (case payload_json dec p of None \<Rightarrow> Fail (ErrExt ''json'') | Some j \<Rightarrow> Ok (print_json j)))"

definition WriteJSON :: "'d decimal_ops \<Rightarrow> int \<Rightarrow> 'd payload \<Rightarrow> (writer, unit) io" where
  "WriteJSON dec code payload w =
     (case marshal_payload dec payload of
        Ok response \<Rightarrow> Write response (WriteHeader code (SetContentType ''application/json'' w))
      | Fail e \<Rightarrow> (Fail e, w)
      | Panic \<Rightarrow> (Panic, w))"

text \<open>A failure to write the error response is only logged.\<close>

definition respondWithError :: "'d decimal_ops \<Rightarrow> int \<Rightarrow> error \<Rightarrow> (writer, unit) io" where
  "respondWithError dec code err w =
     (case WriteJSON dec code (JSONError (error_string err) :: 'd payload) w of
        (Panic, w') \<Rightarrow> (Panic, w')
      | (_, w') \<Rightarrow> (Ok (), w'))"

definition statusFor :: "error \<Rightarrow> int" where
  "statusFor err =
     (if errors_is err ErrInvalidInput then 400
      else if errors_is err ErrNotFound then 404
      else 500)"

section \<open>Handlers\<close>

text \<open>A route handler works on the response writer and on the state behind the service.\<close>

type_synonym 's handle = "request \<Rightarrow> params \<Rightarrow> (writer \<times> 's, unit) io"

type_synonym ('d, 's) api_handler = "request \<Rightarrow> params \<Rightarrow> ('s, 'd payload) io"

definition on_writer :: "(writer, 'a) io \<Rightarrow> (writer \<times> 's, 'a) io" where
  "on_writer m ws = (case m (fst ws) of (r, w') \<Rightarrow> (r, (w', snd ws)))"

definition on_state :: "('s, 'a) io \<Rightarrow> (writer \<times> 's, 'a) io" where
  "on_state m ws = (case m (snd ws) of (r, s') \<Rightarrow> (r, (fst ws, s')))"

definition Handle :: "'d decimal_ops \<Rightarrow> ('d, 's) api_handler \<Rightarrow> 's handle" where
  "Handle dec h req p ws =
     (case on_state (h req p) ws of
        (Panic, ws') \<Rightarrow> (Panic, ws')
      | (Fail err, ws') \<Rightarrow> on_writer (respondWithError dec (statusFor err) err) ws'
      | (Ok payload, ws') \<Rightarrow>
          (case on_writer (WriteJSON dec 200 payload) ws' of
             (Fail err, ws'') \<Rightarrow> on_writer (respondWithError dec 500 err) ws''
           | other \<Rightarrow> other))"

subsection \<open>Probes\<close>

record 's check =
  ck_Name :: string
  ck_Probe :: "('s, unit) io"

definition StatusHandler :: "'d decimal_ops \<Rightarrow> string \<Rightarrow> string \<Rightarrow> 's handle" where
  "StatusHandler dec service version =
     Handle dec (\<lambda>req p. returnS
       (StatusPayload \<lparr>st_Message = ''OK'', st_Version = version, st_Service = service\<rparr> :: 'd payload))"

fun run_checks :: "'s check list \<Rightarrow> string list \<Rightarrow> ('s, string list) io" where
  "run_checks [] failures = returnS failures"
| "run_checks (c # cs) failures =
     (\<lambda>s. case ck_Probe c s of
        (Ok _, s') \<Rightarrow> run_checks cs failures s'
      | (Fail e, s') \<Rightarrow> run_checks cs (failures @ [ck_Name c @ '': '' @ error_string e]) s'
      | (Panic, s') \<Rightarrow> (Panic, s'))"

text \<open>A failure to write the report is only logged.\<close>

definition HealthHandler :: "'d decimal_ops \<Rightarrow> string \<Rightarrow> string \<Rightarrow> 's check list \<Rightarrow> 's handle" where
  "HealthHandler dec service version checks req p ws =
     (case on_state (run_checks checks []) ws of
        (Ok failures, ws') \<Rightarrow>
          (let report = \<lparr>hr_Version = version, hr_Service = service, hr_Failures = Some failures\<rparr>;
               code = (if 0 < length failures then 503 else 200)
           in (Ok (), snd (on_writer (WriteJSON dec code (HealthPayload report :: 'd payload)) ws')))
      | (Fail e, ws') \<Rightarrow> (Fail e, ws')
      | (Panic, ws') \<Rightarrow> (Panic, ws'))"

section \<open>Authentication\<close>

type_synonym authenticator = "string \<Rightarrow> string res"

definition XAuthHeaderKey :: string where
  "XAuthHeaderKey = ''X-Auth-Password''"

definition Authenticate :: "(string \<rightharpoonup> string) \<Rightarrow> authenticator" where
  "Authenticate users credential =
     (case users credential of None \<Rightarrow> Fail ErrUnauthenticated | Some userID \<Rightarrow> Ok userID)"

definition writeJSONError :: "int \<Rightarrow> string \<Rightarrow> (writer, unit) io" where
  "writeJSONError code msg w =
     (Ok (), snd (Write (print_json (JObj (omit_string ''error'' msg)) @ [CHR 0x0A])
        (WriteHeader code (SetContentType ''application/json'' w))))"

definition Auth :: "authenticator \<Rightarrow> 's handle \<Rightarrow> 's handle" where
  "Auth authn h req p =
     (case authn (Header_Get req XAuthHeaderKey) of
        Fail e \<Rightarrow> on_writer (writeJSONError 401 ''unauthorized'')
      | Ok userID \<Rightarrow> h (req\<lparr>r_Context := WithUserID (r_Context req) userID\<rparr>) p
      | Panic \<Rightarrow> panicS)"

section \<open>Routing and observation\<close>

record 's endpoint =
  ep_Path :: string
  ep_MethodType :: string
  ep_Handler :: "'s handle"

text \<open>The routes registered with the router: the endpoints in order, then the metrics page.\<close>

definition AddEndpoints :: "'s endpoint list \<Rightarrow> 's endpoint list" where
  "AddEndpoints endpoints = [] @ endpoints"

definition Routes :: "'s handle \<Rightarrow> 's endpoint list \<Rightarrow> 's endpoint list" where
  "Routes promhttp endpoints =
     endpoints @ [\<lparr>ep_Path = ''/metrics'', ep_MethodType = ''GET'', ep_Handler = promhttp\<rparr>]"

text \<open>What the observer records of a served request: its labels, and whether it warns.\<close>

record observation =
  obs_method :: string
  obs_path :: string
  obs_code :: int
  obs_warn :: bool

definition Observer :: "(request \<Rightarrow> (writer \<times> 's, unit) io) \<Rightarrow> request \<Rightarrow> (writer \<times> 's, observation) io" where
  "Observer next_handler req =
     bindS (\<lambda>ws. next_handler req ((fst ws)\<lparr>w_recorded := 200\<rparr>, snd ws)) (\<lambda>_ ws.
       (Ok \<lparr>obs_method = r_Method req, obs_path = r_Path req, obs_code = w_recorded (fst ws),
            obs_warn = (399 < w_recorded (fst ws))\<rparr>, ws))"

section \<open>Facts\<close>

lemma statusFor_cases: "statusFor err \<in> {400, 404, 500}"
  by (simp add: statusFor_def)

text \<open>Wrapping an error with context does not change its status.\<close>

lemma statusFor_Wrap [simp]: "statusFor (Wrap p e q) = statusFor e"
  by (simp add: statusFor_def)

lemma statusFor_sentinels [simp]:
  "statusFor ErrInvalidInput = 400" "statusFor ErrNotFound = 404" "statusFor (ErrExt m) = 500"
  by (simp_all add: statusFor_def)

text \<open>A writer that can still take a complete response.\<close>

definition fresh_writer :: "writer \<Rightarrow> bool" where
  "fresh_writer w \<longleftrightarrow> w_code w = None \<and> \<not> w_broken w"

text \<open>The writer after one complete JSON response.\<close>

definition responded :: "int \<Rightarrow> string \<Rightarrow> writer \<Rightarrow> writer" where
  "responded code b w =
     w\<lparr>w_code := Some code, w_ctype := Some ''application/json'', w_recorded := code, w_body := w_body w @ b\<rparr>"

definition error_body :: "error \<Rightarrow> string" where
  "error_body err = print_json (JObj (omit_string ''error'' (error_string err)))"

lemma WriteJSON_fresh:
  "fresh_writer w \<Longrightarrow> marshal_payload dec p = Ok b \<Longrightarrow> WriteJSON dec code p w = (Ok (), responded code b w)"
  by (simp add: WriteJSON_def Write_def WriteHeader_def SetContentType_def responded_def fresh_writer_def)

lemma marshal_payload_no_panic: "marshal_payload dec p \<noteq> Panic"
  by (simp add: marshal_payload_def split: payload.splits option.splits)

lemma respondWithError_fresh:
  "fresh_writer w \<Longrightarrow> respondWithError dec code err w = (Ok (), responded code (error_body err) w)"
  by (simp add: respondWithError_def WriteJSON_fresh marshal_payload_def error_body_def)

lemma Handle_Ok:
  assumes "fresh_writer w" and "h req p s = (Ok payload, s')" and "marshal_payload dec payload = Ok b"
  shows "Handle dec h req p (w, s) = (Ok (), (responded 200 b w, s'))"
  using assms by (simp add: Handle_def on_state_def on_writer_def WriteJSON_fresh)

lemma Handle_Fail:
  assumes "fresh_writer w" and "h req p s = (Fail err, s')"
  shows "Handle dec h req p (w, s) = (Ok (), (responded (statusFor err) (error_body err) w, s'))"
  using assms by (simp add: Handle_def on_state_def on_writer_def respondWithError_fresh)

lemma Handle_unmarshalable:
  assumes "fresh_writer w" and "h req p s = (Ok payload, s')" and "marshal_payload dec payload = Fail e"
  shows "Handle dec h req p (w, s) = (Ok (), (responded 500 (error_body e) w, s'))"
  using assms by (simp add: Handle_def on_state_def on_writer_def respondWithError_fresh WriteJSON_def)

text \<open>The adapter in one equation: the outcome of the domain handler decides the response.\<close>

definition reply :: "'d decimal_ops \<Rightarrow> 'd payload res \<Rightarrow> int \<times> string" where
  "reply dec r = (case bindR r (marshal_payload dec) of
      Ok b \<Rightarrow> (200, b)
    | Fail err \<Rightarrow> ((case r of Fail e \<Rightarrow> statusFor e | _ \<Rightarrow> 500), error_body err)
    | Panic \<Rightarrow> (0, []))"

lemma Handle_reply:
  assumes "fresh_writer w" and "h req p s = (r, s')" and "r \<noteq> Panic"
  shows "Handle dec h req p (w, s) = (Ok (), (responded (fst (reply dec r)) (snd (reply dec r)) w, s'))"
proof (cases r)
  case (Ok payload)
  show ?thesis
  proof (cases "marshal_payload dec payload")
    case (Ok b)
    with \<open>r = Ok payload\<close> assms show ?thesis by (simp add: Handle_Ok reply_def)
  next
    case (Fail e)
    with \<open>r = Ok payload\<close> assms show ?thesis by (simp add: Handle_unmarshalable reply_def)
  qed (simp add: marshal_payload_no_panic)
qed (use assms in \<open>simp_all add: Handle_Fail reply_def\<close>)

lemma Auth_reject:
  assumes "authn (Header_Get req XAuthHeaderKey) = Fail e" and "fresh_writer w"
  shows "\<exists>w'. Auth authn h req p (w, s) = (Ok (), (w', s)) \<and> w_code w' = Some 401"
  using assms
  by (simp add: Auth_def on_writer_def writeJSONError_def Write_def WriteHeader_def SetContentType_def fresh_writer_def)

lemma Auth_accept:
  "authn (Header_Get req XAuthHeaderKey) = Ok userID \<Longrightarrow>
    Auth authn h req p = h (req\<lparr>r_Context := WithUserID (r_Context req) userID\<rparr>) p"
  by (simp add: Auth_def)

lemma UserID_WithUserID [simp]: "UserID (WithUserID ctx userID) = Some userID"
  by (simp add: UserID_def WithUserID_def)

subsection \<open>Probes\<close>

text \<open>The messages of the failing probes, each run on the state the previous one left.\<close>

fun probe_failures :: "'s check list \<Rightarrow> 's \<Rightarrow> string list" where
  "probe_failures [] s = []"
| "probe_failures (c # cs) s =
     (case ck_Probe c s of
        (Fail e, s') \<Rightarrow> (ck_Name c @ '': '' @ error_string e) # probe_failures cs s'
      | (_, s') \<Rightarrow> probe_failures cs s')"

lemma run_checks_failures:
  assumes "\<And>c s. c \<in> set cs \<Longrightarrow> fst (ck_Probe c s) \<noteq> Panic"
  shows "fst (run_checks cs acc s) = Ok (acc @ probe_failures cs s)"
  using assms
proof (induction cs arbitrary: acc s)
  case (Cons c cs)
  obtain r s' where p: "ck_Probe c s = (r, s')" by fastforce
  with Cons.prems have "r \<noteq> Panic" by (metis fst_conv list.set_intros(1))
  with Cons p show ?case by (cases r) simp_all
qed simp

lemma HealthHandler_code:
  assumes "\<And>c s. c \<in> set cs \<Longrightarrow> fst (ck_Probe c s) \<noteq> Panic" and "fresh_writer w"
  shows "\<exists>w' s'. HealthHandler dec service version cs req p (w, s) = (Ok (), (w', s')) \<and>
    w_code w' = Some (if probe_failures cs s = [] then 200 else 503)"
proof -
  obtain s' where "run_checks cs [] s = (Ok (probe_failures cs s), s')"
    using run_checks_failures [OF assms(1), of cs "[]" s] by (metis append_Nil prod.collapse)
  with assms(2) show ?thesis
    by (simp add: HealthHandler_def on_state_def on_writer_def WriteJSON_fresh marshal_payload_def Let_def responded_def)
qed

end
