(* ===== verification/Orders.thy ===== *)
theory Orders
  imports Promotions Http
begin

text \<open>
  The package \<^verbatim>\<open>services/orders\<close>: the service, its handlers (\<^verbatim>\<open>item.go\<close>, \<^verbatim>\<open>order.go\<close>,
  \<^verbatim>\<open>purchase.go\<close>), the outbox row of an event (\<^verbatim>\<open>outbox.go\<close>) and the routes (\<^verbatim>\<open>api.go\<close>).
  Generated references, event identifiers and the current time are arguments. In the purchase
  handler the items live behind pointers that the request loop mutates: the list of items is
  the heap and a pointer is an index into it.
\<close>

section \<open>The service\<close>

text \<open>Stopping may block: then it has no result.\<close>

record 's relayer =
  rl_Start :: "('s, unit) io"
  rl_Stop :: "'s \<Rightarrow> (unit res \<times> 's) option"
  rl_Ping :: "('s, unit) io"

record ('d, 's) orders_service =
  sv_store :: "('d, 's) db_ops"
  sv_promotionsEngine :: "('d, 's) promotion list"
  sv_relay :: "'s relayer"
  sv_authn :: authenticator

definition NewService ::
  "'d decimal_ops \<Rightarrow> ('d, 's) db_ops \<Rightarrow> 's relayer \<Rightarrow> authenticator \<Rightarrow> ('d, 's) orders_service" where
  "NewService dec db relayer authn =
     \<lparr>sv_store = db, sv_promotionsEngine = promotions_of dec db, sv_relay = relayer, sv_authn = authn\<rparr>"

definition Service_Start :: "('d, 's) orders_service \<Rightarrow> ('s, unit) io" where
  "Service_Start h = rl_Start (sv_relay h)"

definition Service_Stop :: "('d, 's) orders_service \<Rightarrow> 's \<Rightarrow> (unit res \<times> 's) option" where
  "Service_Stop h = rl_Stop (sv_relay h)"

section \<open>Requests\<close>

definition invalid_input :: "string \<Rightarrow> error" where
  "invalid_input m = Wrap [] ErrInvalidInput ('': '' @ m)"

text \<open>\<^verbatim>\<open>json.NewDecoder(r.Body).Decode\<close>: the first JSON value of the body.\<close>

definition decode_body :: "(json \<Rightarrow> 'a option) \<Rightarrow> request \<Rightarrow> 'a res" where
  "decode_body d req =
     (case Option.bind (parse_first (r_Body req)) d of
        None \<Rightarrow> Fail (invalid_input ''json'')
      | Some v \<Rightarrow> Ok v)"

fun check_skus :: "string list \<Rightarrow> unit res" where
  "check_skus [] = Ok ()"
| "check_skus (sku # skus) =
     (if \<not> IsSKU sku then Fail (invalid_input (''invalid sku input '' @ [CHR 0x27] @ sku @ [CHR 0x27]))
      else check_skus skus)"

definition item_empty :: "string \<Rightarrow> error" where
  "item_empty sku = Wrap [] ErrNotFound ('': item '' @ sku @ '' empty'')"

text \<open>Ranging over a nil slice is ranging over an empty one.\<close>

definition elems :: "'a list option \<Rightarrow> 'a list" where
  "elems xs = (case xs of None \<Rightarrow> [] | Some ys \<Rightarrow> ys)"

section \<open>Items\<close>

definition ListItems_handler :: "('d, 's) orders_service \<Rightarrow> ('d, 's) api_handler" where
  "ListItems_handler h req p = bindS (db_ListItems (sv_store h)) (\<lambda>items. returnS (ItemsPayload items))"

fun validate_items :: "'d decimal_ops \<Rightarrow> int \<Rightarrow> 'd item option list \<Rightarrow> unit res" where
  "validate_items dec i [] = Ok ()"
| "validate_items dec i (it # items) =
     (case Item_Validate_ptr dec it of
        Panic \<Rightarrow> Panic
      | Fail err \<Rightarrow> Fail (invalid_input (''item at index '' @ print_int i @ '' was invalid: '' @ error_string err))
      | Ok _ \<Rightarrow> validate_items dec (i + 1) items)"

definition AddItems_handler :: "'d decimal_ops \<Rightarrow> ('d, 's) orders_service \<Rightarrow> ('d, 's) api_handler" where
  "AddItems_handler dec h req p =
     bindS (liftS (decode_body (dec_add_items_request dec) req)) (\<lambda>iReq.
     let items = elems (ar_Items iReq) in
     if length items = 0 then failS (invalid_input ''no items provided'')
     else bindS (liftS (validate_items dec 0 items)) (\<lambda>_.
       bindS (db_UpsertItems (sv_store h) (map the items)) (\<lambda>res. returnS (ItemsPayload res))))"

definition ItemPrice_handler :: "'d decimal_ops \<Rightarrow> ('d, 's) orders_service \<Rightarrow> ('d, 's) api_handler" where
  "ItemPrice_handler dec h req p =
     (let nameOrSku = ByName p ''key'' in
      bindS (wrapS (\<lambda>e. Wrap (''could not get item with key '' @ [CHR 0x27] @ nameOrSku @ [CHR 0x27] @ '': '') e [])
        (if IsSKU nameOrSku then db_GetItemBySKU (sv_store h) nameOrSku
         else db_GetItemByName (sv_store h) nameOrSku)) (\<lambda>ptr. case ptr of
           None \<Rightarrow> panicS
         | Some dbItem \<Rightarrow>
             if i_InventoryQuantity dbItem < 1 then failS (item_empty (i_SKU dbItem))
             else returnS (PricePayload
               \<lparr>rs_Items = [(zero_item dec)\<lparr>i_Name := i_Name dbItem, i_SKU := i_SKU dbItem, i_Price := i_Price dbItem\<rparr>],
                rs_Promotions = None, rs_TotalGross = d_to_float dec (i_Price dbItem),
                rs_TotalWithDiscount = d_to_float dec (i_Price dbItem)\<rparr>)))"

fun price_loop :: "'d decimal_ops \<Rightarrow> 'd item list \<Rightarrow> 'd item list \<times> 'd \<Rightarrow> ('d item list \<times> 'd) res" where
  "price_loop dec [] acc = Ok acc"
| "price_loop dec (it # items) (shown, tot) =
     (if i_InventoryQuantity it < 1 then Fail (item_empty (i_SKU it))
      else price_loop dec items (shown @ [it], d_add dec tot (i_Price it)))"

definition ItemsPrice_handler :: "'d decimal_ops \<Rightarrow> ('d, 's) orders_service \<Rightarrow> ('d, 's) api_handler" where
  "ItemsPrice_handler dec h req p =
     bindS (liftS (decode_body dec_items_price_request req)) (\<lambda>pReq.
     let skus = elems (ip_SKUs pReq) in
     bindS (liftS (check_skus skus)) (\<lambda>_.
     bindS (wrapS (\<lambda>e. Wrap ''could not get items: '' e []) (db_GetItemsBySKU (sv_store h) skus)) (\<lambda>dbItems.
     bindS (liftS (price_loop dec dbItems ([], d_zero dec))) (\<lambda>(shown, tot).
     bindS (wrapS (\<lambda>e. Wrap ''could not apply promotion/deals: '' e [])
       (ApplyPromotions (sv_promotionsEngine h) shown)) (\<lambda>promos.
       returnS (PricePayload
         \<lparr>rs_Items = shown, rs_Promotions = Some promos, rs_TotalGross = d_to_float dec tot,
          rs_TotalWithDiscount = fsub (d_to_float dec tot) (pm_Deduction promos)\<rparr>))))))"

section \<open>Orders\<close>

definition Orders_handler :: "('d, 's) orders_service \<Rightarrow> ('d, 's) api_handler" where
  "Orders_handler h req p =
     (case UserID (r_Context req) of
        None \<Rightarrow> failS (Wrap [] ErrInvalidInput [])
      | Some userID \<Rightarrow>
          bindS (wrapS (\<lambda>e. Wrap ''could not get orders from db: '' e []) (db_GetOrders (sv_store h) userID)) (\<lambda>os.
            returnS (OrdersPayload os)))"

definition newOutboxItem :: "'d decimal_ops \<Rightarrow> 'd event \<Rightarrow> outbox_item res" where
  "newOutboxItem dec ev =
     bindR (Encode dec (Some ev)) (\<lambda>data.
       Ok \<lparr>ob_ID = 0, ob_EventID = e_ID ev, ob_Topic = e_Topic ev, ob_PartitionKey = e_Key ev, ob_Data = data,
           ob_OccurredAt = e_OccurredAt ev, ob_CreatedAt = zero_time, ob_PublishedAt = None, ob_DeliveredAt = None\<rparr>)"

section \<open>Purchases\<close>

text \<open>The index of the item with a SKU; a later duplicate would win.\<close>

definition dbItemMap :: "'d item list \<Rightarrow> (string \<rightharpoonup> nat)" where
  "dbItemMap items = map_of (rev (zip (map i_SKU items) [0..<length items]))"

text \<open>
  The request loop. A SKU without an item reads a nil pointer from the map, and its field
  access panics. The guard makes the quantity at least one before it is decremented.
\<close>

fun deduct_loop ::
  "'d decimal_ops \<Rightarrow> (string \<rightharpoonup> nat) \<Rightarrow> string list \<Rightarrow> 'd item list \<Rightarrow> (string \<rightharpoonup> int) \<Rightarrow> 'd \<Rightarrow>
   ('d item list \<times> (string \<rightharpoonup> int) \<times> 'd) res" where
  "deduct_loop dec m [] items counts tot = Ok (items, counts, tot)"
| "deduct_loop dec m (sku # skus) items counts tot =
     (let counts' = map_incr counts sku in
      case m sku of
        None \<Rightarrow> Panic
      | Some a \<Rightarrow>
          let it = items ! a in
          if i_InventoryQuantity it < map_get counts' (i_SKU it) then Fail (item_empty (i_SKU it))
          else deduct_loop dec m skus (items[a := it\<lparr>i_InventoryQuantity := i_InventoryQuantity it - 1\<rparr>])
                 counts' (d_add dec tot (i_Price it)))"

text \<open>The loop over the free items: each is re-read, and skipped when the stock does not suffice.\<close>

fun added_loop ::
  "('d, 's) db_ops \<Rightarrow> string list \<Rightarrow> 'd item list \<Rightarrow> 'd item list \<Rightarrow> (string \<rightharpoonup> int) \<Rightarrow> string list option \<Rightarrow>
   ('s, 'd item list \<times> string list option) io" where
  "added_loop db reqSKUs [] items counts skus = returnS (items, skus)"
| "added_loop db reqSKUs (it # added) items counts skus =
     (let sku = i_SKU it; counts' = map_incr counts sku in
      bindS (wrapS (\<lambda>e. Wrap ''could not get item: '' e []) (db_GetItemBySKU db sku)) (\<lambda>ptr. case ptr of
        None \<Rightarrow> panicS
      | Some dbIt \<Rightarrow>
          if i_InventoryQuantity dbIt < map_get counts' sku
          then added_loop db reqSKUs added items counts' skus
          else added_loop db reqSKUs added
                 (items @ [dbIt\<lparr>i_InventoryQuantity := i_InventoryQuantity dbIt - 1\<rparr>])
                 counts' (Some (reqSKUs @ [sku]))))"

text \<open>What a purchase will write: the items with their new quantities and the order.\<close>

record 'd plan =
  pl_items :: "'d item list"
  pl_order :: "'d order"

definition purchase_plan ::
  "'d decimal_ops \<Rightarrow> ('d, 's) orders_service \<Rightarrow> string \<Rightarrow> request \<Rightarrow> ('s, 'd plan) io" where
  "purchase_plan dec h ref req =
     (case UserID (r_Context req) of
        None \<Rightarrow> failS (Wrap [] ErrInvalidInput [])
      | Some customerID \<Rightarrow>
          bindS (liftS (decode_body dec_purchase_items_request req)) (\<lambda>pReq.
          let reqSKUs = elems (pr_SKUs pReq) in
          bindS (liftS (check_skus reqSKUs)) (\<lambda>_.
          bindS (wrapS (\<lambda>e. Wrap ''could not get items: '' e []) (db_GetItemsBySKU (sv_store h) reqSKUs)) (\<lambda>dbItems.
          bindS (liftS (deduct_loop dec (dbItemMap dbItems) reqSKUs dbItems Map.empty (d_zero dec)))
            (\<lambda>(items, itemCount, tot).
          bindS (wrapS (\<lambda>e. Wrap ''could not apply promotion/deals: '' e [])
            (ApplyPromotions (sv_promotionsEngine h) items)) (\<lambda>promos.
          bindS (added_loop (sv_store h) reqSKUs (pm_AddedItems promos) items itemCount (pr_SKUs pReq))
            (\<lambda>(items, skus).
          bindS (liftS (d_of_float dec (pm_Deduction promos))) (\<lambda>deduction.
          let price = d_sub dec tot deduction;
              ord = SetSKUList ((zero_order dec)\<lparr>o_Price := price, o_Reference := ref, o_CustomerID := customerID\<rparr>) skus
          in returnS \<lparr>pl_items = items, pl_order = ord\<rparr>))))))))"

text \<open>The body of the transaction. The insert fills in the identifier of the order, which the event then carries.\<close>

definition purchase_tx ::
  "'d decimal_ops \<Rightarrow> ('d, 's) db_ops \<Rightarrow> string \<Rightarrow> time \<Rightarrow> 'd plan \<Rightarrow> ('s, unit) io" where
  "purchase_tx dec tx uid now pl =
     bindS (wrapS (\<lambda>e. Wrap ''failed to update inventory: '' e []) (db_UpsertItems tx (pl_items pl))) (\<lambda>_.
     bindS (wrapS (\<lambda>e. Wrap ''failed to create order: '' e []) (db_AddOrder tx (pl_order pl))) (\<lambda>ord.
     bindS (wrapS (\<lambda>e. Wrap ''failed to build outbox item: '' e [])
       (liftS (newOutboxItem dec (Event_New uid now TopicOrderCreated (o_Reference ord) (OrderData ord))))) (\<lambda>outboxItem.
     bindS (wrapS (\<lambda>e. Wrap ''failed to enqueue event: '' e []) (db_AddOutboxItems tx [outboxItem])) (\<lambda>_.
       returnS ()))))"

definition PurchaseItems_handler ::
  "'d decimal_ops \<Rightarrow> ('d, 's) orders_service \<Rightarrow> string \<Rightarrow> string \<Rightarrow> time \<Rightarrow> ('d, 's) api_handler" where
  "PurchaseItems_handler dec h ref uid now req p =
     bindS (purchase_plan dec h ref req) (\<lambda>pl.
     bindS (db_Transaction (sv_store h) (purchase_tx dec (sv_store h) uid now pl)) (\<lambda>_.
       returnS (PurchasePayload
         \<lparr>ps_OrderReference = o_Reference (pl_order pl), ps_Cost = d_to_float dec (o_Price (pl_order pl))\<rparr>)))"

section \<open>Routes\<close>

definition ServiceName :: string where "ServiceName = ''orders service''"
definition Orders_TopicOrderCreated :: string where "Orders_TopicOrderCreated = ''orders.created''"
definition ItemsEndPnt :: string where "ItemsEndPnt = ''/v1/inventory/items''"
definition ItemPriceEndPnt :: string where "ItemPriceEndPnt = ''/v1/inventory/item/price''"
definition ItemPurchaseEndPnt :: string where "ItemPurchaseEndPnt = ''/v1/inventory/items/purchase''"
definition KeyParam :: string where "KeyParam = ''/:key''"
definition OrdersEndPnt :: string where "OrdersEndPnt = ''/v1/orders''"
definition StatusEndPnt :: string where "StatusEndPnt = ''/status''"
definition HealthEndPnt :: string where "HealthEndPnt = ''/health''"

text \<open>
  \<open>fresh\<close> yields the reference, event identifier and time of a purchase; \<open>promhttp\<close> is the
  metrics page of the Prometheus client.
\<close>

definition RegisterHandlers ::
  "'d decimal_ops \<Rightarrow> string \<Rightarrow> 's handle \<Rightarrow> (request \<Rightarrow> string \<times> string \<times> time) \<Rightarrow> ('d, 's) orders_service \<Rightarrow>
   's endpoint list" where
  "RegisterHandlers dec version promhttp fresh h =
     Routes promhttp (AddEndpoints
      [\<lparr>ep_Path = StatusEndPnt, ep_MethodType = ''GET'', ep_Handler = StatusHandler dec ServiceName version\<rparr>,
       \<lparr>ep_Path = HealthEndPnt, ep_MethodType = ''GET'',
        ep_Handler = HealthHandler dec ServiceName version
          [\<lparr>ck_Name = ''database'', ck_Probe = db_Ping (sv_store h)\<rparr>,
           \<lparr>ck_Name = ''broker'', ck_Probe = rl_Ping (sv_relay h)\<rparr>]\<rparr>,
       \<lparr>ep_Path = ItemsEndPnt, ep_MethodType = ''GET'', ep_Handler = Handle dec (ListItems_handler h)\<rparr>,
       \<lparr>ep_Path = ItemPriceEndPnt @ KeyParam, ep_MethodType = ''GET'', ep_Handler = Handle dec (ItemPrice_handler dec h)\<rparr>,
       \<lparr>ep_Path = ItemPriceEndPnt, ep_MethodType = ''POST'', ep_Handler = Handle dec (ItemsPrice_handler dec h)\<rparr>,
       \<lparr>ep_Path = ItemPurchaseEndPnt, ep_MethodType = ''POST'',
        ep_Handler = Auth (sv_authn h) (\<lambda>req p. case fresh req of (ref, uid, now) \<Rightarrow>
          Handle dec (PurchaseItems_handler dec h ref uid now) req p)\<rparr>,
       \<lparr>ep_Path = OrdersEndPnt, ep_MethodType = ''GET'',
        ep_Handler = Auth (sv_authn h) (Handle dec (Orders_handler h))\<rparr>,
       \<lparr>ep_Path = ItemsEndPnt, ep_MethodType = ''POST'',
        ep_Handler = Auth (sv_authn h) (Handle dec (AddItems_handler dec h))\<rparr>])"

end
