(* ===== verification/Purchase.thy ===== *)
theory Purchase
  imports Orders
begin

text \<open>
  What a purchase does. First the request loop in closed form, then the effect of the
  upsert on the inventory, then the handler as a whole: it commits the order, the stock
  and the event together or changes nothing.
\<close>

section \<open>The request loop\<close>

lemma dbItemMap_Some: "dbItemMap items sku = Some a \<Longrightarrow> a < length items \<and> i_SKU (items ! a) = sku"
  unfolding dbItemMap_def by (drule map_of_SomeD) (auto simp: set_zip)

lemma dbItemMap_None_iff: "dbItemMap items sku = None \<longleftrightarrow> sku \<notin> i_SKU ` set items"
proof -
  have "fst ` set (zip (map i_SKU items) [0..<length items]) = i_SKU ` set items"
    by (simp flip: set_map)
  then show ?thesis by (simp add: dbItemMap_def map_of_eq_None_iff)
qed

text \<open>The items after the SKUs \<open>ps\<close> were taken from them.\<close>

definition deducted :: "string list \<Rightarrow> 'd item list \<Rightarrow> 'd item list" where
  "deducted ps items =
     map (\<lambda>it. it\<lparr>i_InventoryQuantity := i_InventoryQuantity it - int (count_list ps (i_SKU it))\<rparr>) items"

lemma deducted_Nil [simp]: "deducted [] items = items"
  by (simp add: deducted_def)

lemma deducted_nth: "a < length items \<Longrightarrow> deducted ps items ! a =
    (items ! a)\<lparr>i_InventoryQuantity := i_InventoryQuantity (items ! a) - int (count_list ps (i_SKU (items ! a)))\<rparr>"
  by (simp add: deducted_def)

lemma length_deducted [simp]: "length (deducted ps items) = length items"
  by (simp add: deducted_def)

lemma deducted_step:
  assumes "distinct (map i_SKU items)" and "a < length items"
  shows "(deducted ps items)[a := (deducted ps items ! a)\<lparr>i_InventoryQuantity := i_InventoryQuantity (deducted ps items ! a) - 1\<rparr>]
    = deducted (ps @ [i_SKU (items ! a)]) items"
proof (rule nth_equalityI)
  fix b assume "b < length ((deducted ps items)[a := (deducted ps items ! a)\<lparr>i_InventoryQuantity := i_InventoryQuantity (deducted ps items ! a) - 1\<rparr>])"
  then have b: "b < length items" by simp
  have "i_SKU (items ! b) = i_SKU (items ! a) \<longleftrightarrow> b = a"
    using nth_eq_iff_index_eq [OF assms(1)] assms(2) b by simp
  with assms(2) b show "(deducted ps items)[a := (deducted ps items ! a)\<lparr>i_InventoryQuantity := i_InventoryQuantity (deducted ps items ! a) - 1\<rparr>] ! b
    = deducted (ps @ [i_SKU (items ! a)]) items ! b"
    by (auto simp: deducted_nth nth_list_update)
qed simp

text \<open>Enough stock for one more unit after \<open>ps\<close>, the way the loop compares.\<close>

fun purchasable :: "'d item list \<Rightarrow> string list \<Rightarrow> string list \<Rightarrow> bool" where
  "purchasable items ps [] = True"
| "purchasable items ps (sku # skus) =
     ((\<exists>it \<in> set items. i_SKU it = sku \<and> 2 * int (count_list ps sku) + 1 \<le> i_InventoryQuantity it) \<and>
      purchasable items (ps @ [sku]) skus)"

definition price_of :: "'d item list \<Rightarrow> string \<Rightarrow> 'd" where
  "price_of items sku = i_Price (items ! the (dbItemMap items sku))"

lemma in_stock_index:
  assumes "distinct (map i_SKU items)" and "dbItemMap items sku = Some a"
  shows "(\<exists>it \<in> set items. i_SKU it = sku \<and> P it) \<longleftrightarrow> P (items ! a)"
proof -
  note a = dbItemMap_Some [OF assms(2)]
  have "it = items ! a" if "it \<in> set items" "i_SKU it = sku" for it
    using distinct_map_inj_on [OF assms(1) that(1), of "items ! a"] a that(2) by simp
  with a show ?thesis by (metis nth_mem)
qed

lemma deduct_loop_closed:
  assumes d: "distinct (map i_SKU items)"
  shows "(\<forall>k. map_get counts k = int (count_list ps k)) \<Longrightarrow>
    (if purchasable items ps skus
     then \<exists>counts'. deduct_loop dec (dbItemMap items) skus (deducted ps items) counts tot
            = Ok (deducted (ps @ skus) items, counts', foldl (d_add dec) tot (map (price_of items) skus)) \<and>
          (\<forall>k. map_get counts' k = int (count_list (ps @ skus) k))
     else \<not> is_ok (deduct_loop dec (dbItemMap items) skus (deducted ps items) counts tot))"
proof (induction skus arbitrary: ps counts tot)
  case Nil
  then show ?case by simp
next
  case (Cons sku skus)
  let ?c = "map_incr counts sku"
  have c: "\<forall>k. map_get ?c k = int (count_list (ps @ [sku]) k)"
    using Cons.prems by (simp add: map_incr_def map_get_def)
  show ?case
  proof (cases "dbItemMap items sku")
    case None
    then have "sku \<notin> i_SKU ` set items" by (simp add: dbItemMap_None_iff)
    then have "\<not> purchasable items ps (sku # skus)" by auto
    with None show ?thesis by (simp add: Let_def)
  next
    case (Some a)
    note a = dbItemMap_Some [OF Some]
    let ?ok = "2 * int (count_list ps sku) + 1 \<le> i_InventoryQuantity (items ! a)"
    have stock: "(\<exists>it \<in> set items. i_SKU it = sku \<and> 2 * int (count_list ps sku) + 1 \<le> i_InventoryQuantity it) \<longleftrightarrow> ?ok"
      by (rule in_stock_index [OF d Some])
    have guard: "i_InventoryQuantity (deducted ps items ! a) < map_get ?c (i_SKU (deducted ps items ! a)) \<longleftrightarrow> \<not> ?ok"
      using a c by (simp add: deducted_nth) linarith
    show ?thesis
    proof (cases ?ok)
      case True
      have step: "deduct_loop dec (dbItemMap items) (sku # skus) (deducted ps items) counts tot
          = deduct_loop dec (dbItemMap items) skus (deducted (ps @ [sku]) items) ?c (d_add dec tot (price_of items sku))"
        using guard True Some a deducted_step [OF d, of a ps]
        by (simp add: Let_def price_of_def) (simp add: deducted_nth)
      show ?thesis
        unfolding step purchasable.simps stock
        using True Cons.IH [OF c, of "d_add dec tot (price_of items sku)", unfolded append_assoc append_Cons append_Nil]
        by (simp del: count_list_append count_list.simps)
    next
      case False
      then show ?thesis using stock guard Some by (simp add: Let_def)
    qed
  qed
qed

text \<open>
  A request is accepted exactly when each SKU is in the inventory with a quantity of at least
  twice the requested number less one.
\<close>

lemma purchasable_iff:
  assumes d: "distinct (map i_SKU items)"
  shows "purchasable items ps skus \<longleftrightarrow>
    (\<forall>sku \<in> set skus. \<exists>it \<in> set items. i_SKU it = sku \<and> 2 * int (count_list (ps @ skus) sku) - 1 \<le> i_InventoryQuantity it)"
proof (induction skus arbitrary: ps)
  case Nil
  then show ?case by simp
next
  case (Cons sku skus)
  let ?P = "\<lambda>n. \<exists>it \<in> set items. i_SKU it = sku \<and> n \<le> i_InventoryQuantity it"
  have mono: "?P n \<Longrightarrow> m \<le> n \<Longrightarrow> ?P m" for m n :: int by (meson order_trans)
  show ?case
  proof (cases "sku \<in> set skus")
    case True
    then have "count_list skus sku \<noteq> 0" by (simp add: count_list_0_iff)
    then have "2 * int (count_list ps sku) + 1 \<le> 2 * int (count_list (ps @ sku # skus) sku) - 1" by simp
    with True mono Cons.IH [of "ps @ [sku]"] show ?thesis by auto
  next
    case False
    then have "2 * int (count_list (ps @ sku # skus) sku) - 1 = 2 * int (count_list ps sku) + 1"
      by (simp add: count_list_0_iff)
    with Cons.IH [of "ps @ [sku]"] show ?thesis by auto
  qed
qed

lemma deduct_loop_append:
  "deduct_loop dec m (xs @ ys) items counts tot =
     bindR (deduct_loop dec m xs items counts tot) (\<lambda>(items, counts, tot). deduct_loop dec m ys items counts tot)"
  by (induction xs arbitrary: items counts tot) (simp_all add: Let_def split: option.splits)

lemma map_get_empty [simp]: "map_get Map.empty k = 0"
  by (simp add: map_get_def)

lemma deduct_loop_Ok_iff:
  assumes "distinct (map i_SKU items)"
  shows "is_ok (deduct_loop dec (dbItemMap items) skus items Map.empty tot) \<longleftrightarrow> purchasable items [] skus"
  using deduct_loop_closed [OF assms, of Map.empty "[]" skus dec tot] by (auto simp: is_ok_iff split: if_splits)

lemma deduct_loop_OkD:
  assumes "distinct (map i_SKU items)"
    and "deduct_loop dec (dbItemMap items) skus items Map.empty tot = Ok (items', counts, tot')"
  shows "purchasable items [] skus" and "items' = deducted skus items"
    and "tot' = foldl (d_add dec) tot (map (price_of items) skus)" and "map_get counts k = int (count_list skus k)"
  using deduct_loop_closed [OF assms(1), of Map.empty "[]" skus dec tot] assms(2) by (auto split: if_splits)

text \<open>The first SKU that is not in the inventory stops the loop with a panic.\<close>

lemma deduct_loop_unknown:
  assumes "distinct (map i_SKU items)" and "purchasable items [] pre" and "sku \<notin> i_SKU ` set items"
  shows "deduct_loop dec (dbItemMap items) (pre @ sku # post) items Map.empty tot = Panic"
  using deduct_loop_closed [OF assms(1), of Map.empty "[]" pre dec tot] assms(2,3)
  by (auto simp: deduct_loop_append Let_def dbItemMap_None_iff [symmetric])

section \<open>The upsert\<close>

definition overwrite :: "'d item \<Rightarrow> 'd item \<Rightarrow> 'd item" where
  "overwrite x r = (if i_ID r = i_ID x then x else r)"

lemma overwrite_ID [simp]: "i_ID (overwrite x r) = i_ID r"
  by (simp add: overwrite_def)

lemma fold_overwrite_ID [simp]: "i_ID (fold overwrite xs r) = i_ID r"
  by (induction xs arbitrary: r) simp_all

lemma foldl_upsert_present:
  "(\<forall>x \<in> set xs. i_ID x \<in> i_ID ` set rows) \<Longrightarrow> foldl upsert_row rows xs = map (fold overwrite xs) rows"
proof (induction xs arbitrary: rows)
  case (Cons x xs)
  have "upsert_row rows x = map (overwrite x) rows"
    using Cons.prems by (simp add: upsert_row_def overwrite_def [abs_def])
  moreover have "i_ID ` set (map (overwrite x) rows) = i_ID ` set rows" by (simp add: image_image)
  ultimately show ?case using Cons by simp
qed simp

lemma fills_nonzero: "fills used items xs \<Longrightarrow> (\<forall>i \<in> set items. i_ID i \<noteq> 0) \<Longrightarrow> xs = items"
  by (induction used items xs rule: fills.induct) auto

lemma fold_overwrite_skip: "(\<forall>x \<in> set xs. i_ID x \<noteq> i_ID r) \<Longrightarrow> fold overwrite xs r = r"
  by (induction xs arbitrary: r) (auto simp: overwrite_def)

lemma fold_overwrite_hit:
  "distinct (map i_ID xs) \<Longrightarrow> x \<in> set xs \<Longrightarrow> i_ID x = i_ID r \<Longrightarrow> fold overwrite xs r = x"
proof (induction xs arbitrary: r)
  case (Cons y ys)
  show ?case
  proof (cases "x = y")
    case True
    have "\<forall>z \<in> set ys. i_ID z \<noteq> i_ID x" using Cons.prems(1) True by (auto simp: image_iff)
    then have "fold overwrite ys x = x" by (rule fold_overwrite_skip)
    moreover have "overwrite x r = x" using Cons.prems(3) by (simp add: overwrite_def)
    ultimately show ?thesis using True by simp
  next
    case False
    with Cons show ?thesis by simp
  qed
qed simp

section \<open>Selecting items\<close>

lemma distinct_map_selection:
  assumes "mset xs = mset (filter P ys)" and "distinct (map f ys)"
  shows "distinct (map f xs)"
proof -
  have "mset (map f xs) = mset (map f (filter P ys))" using assms(1) by simp
  moreover have "distinct (map f (filter P ys))" using assms(2) by (simp add: distinct_map_filter)
  ultimately show ?thesis by (metis mset_eq_imp_distinct_iff)
qed

lemma set_selection: "mset xs = mset (filter P ys) \<Longrightarrow> set xs = {y \<in> set ys. P y}"
  by (metis mset_eq_setD set_filter)

text \<open>The free items only depend on the names of the items.\<close>

lemma free_raspberry_deducted [simp]: "free_raspberry rows (deducted skus items) = free_raspberry rows items"
proof -
  have "i_Name ` set (deducted skus items) = i_Name ` set items" by (simp add: deducted_def image_image)
  then show ?thesis by (simp add: free_raspberry_def)
qed

lemma names_deducted [simp]: "map i_Name (deducted skus items) = map i_Name items"
  by (simp add: deducted_def)

lemma free_raspberry_cases:
  assumes "inventory_ok rows"
  shows "free_raspberry rows items = [] \<or>
    (\<exists>pi \<in> set rows. free_raspberry rows items = [pi] \<and> 1 \<le> i_InventoryQuantity pi)"
proof (cases "filter (\<lambda>i. i_Name i = ''Raspberry Pi B'') rows")
  case Nil
  then show ?thesis unfolding free_raspberry_def by simp
next
  case (Cons pi rest)
  then have pi: "pi \<in> set rows" "i_Name pi = ''Raspberry Pi B''"
    using filter_eq_ConsD [OF Cons] by auto
  then have "filter (\<lambda>i. i_Name i = ''Raspberry Pi B'') rows = [pi]"
    using filter_key_singleton [of i_Name rows pi] assms by (simp add: inventory_ok_def)
  with pi(1) show ?thesis unfolding free_raspberry_def by simp
qed

section \<open>The plan\<close>

lemma check_skus_Ok_iff: "check_skus skus = Ok () \<longleftrightarrow> list_all IsSKU skus"
  by (induction skus) simp_all


locale orders_env = database dec db tables numcol timecol + decimal_lib dec val
  for dec :: "'d decimal_ops" and db :: "('d, 's) db_ops" and tables :: "'s \<Rightarrow> 'd tables"
    and numcol :: "'d \<Rightarrow> 'd" and timecol :: "time \<Rightarrow> time" and val :: "'d \<Rightarrow> rat"

sublocale orders_env \<subseteq> priced_store dec db tables numcol val
  by unfold_locales

text \<open>The free items that are really added: those whose stock also covers the requested ones.\<close>

definition granted :: "'d item list \<Rightarrow> 'd item list \<Rightarrow> string list \<Rightarrow> 'd item list" where
  "granted rows items skus =
     filter (\<lambda>pi. int (count_list skus (i_SKU pi)) + 1 \<le> i_InventoryQuantity pi) (free_raspberry rows items)"

definition take_one :: "'d item \<Rightarrow> 'd item" where
  "take_one it = it\<lparr>i_InventoryQuantity := i_InventoryQuantity it - 1\<rparr>"

text \<open>What a plan consists of, for a request of \<open>skus\<close> by \<open>customer\<close> that read \<open>dbItems\<close>.\<close>

definition plan_for ::
  "'d tables \<Rightarrow> string \<Rightarrow> string \<Rightarrow> string list option \<Rightarrow> 'd item list \<Rightarrow> 'd plan \<Rightarrow> bool" where
  "plan_for T ref customer reqSKUs dbItems pl \<longleftrightarrow>
     (let skus = elems reqSKUs; free = granted (tb_inventory T) dbItems skus in
      mset dbItems = mset (filter (\<lambda>i. skus = [] \<or> i_SKU i \<in> set skus) (tb_inventory T)) \<and>
      purchasable dbItems [] skus \<and>
      pl_items pl = deducted skus dbItems @ map take_one free \<and>
      o_ID (pl_order pl) = 0 \<and> o_Reference (pl_order pl) = ref \<and> o_CustomerID (pl_order pl) = customer \<and>
      o_SKUList (pl_order pl) = print_json (json_slice JStr
        (if free = [] then reqSKUs else Some (skus @ map i_SKU free))))"

text \<open>The outbox row of the event that announces an order.\<close>

definition event_row ::
  "'d decimal_ops \<Rightarrow> (time \<Rightarrow> time) \<Rightarrow> string \<Rightarrow> time \<Rightarrow> 'd order \<Rightarrow> outbox_item \<Rightarrow> bool" where
  "event_row dec timecol uid now ord row \<longleftrightarrow>
     Encode dec (Some (Event_New uid now TopicOrderCreated (o_Reference ord) (OrderData ord))) = Ok (ob_Data row) \<and>
     ob_EventID row = uid \<and> ob_Topic row = TopicOrderCreated \<and> ob_PartitionKey row = o_Reference ord \<and>
     ob_OccurredAt row = timecol now \<and> ob_PublishedAt row = None \<and> ob_DeliveredAt row = None"

text \<open>The tables after a purchase.\<close>

definition after_purchase ::
  "('d \<Rightarrow> 'd) \<Rightarrow> 'd tables \<Rightarrow> 'd plan \<Rightarrow> 'd order \<Rightarrow> outbox_item \<Rightarrow> 'd tables" where
  "after_purchase numcol T pl ord row =
     T\<lparr>tb_inventory := map (fold overwrite (map (store_item numcol) (pl_items pl))) (tb_inventory T),
       tb_orders := tb_orders T @ [store_order numcol ord], tb_outbox := tb_outbox T @ [row]\<rparr>"

text \<open>One row of the inventory after \<open>skus\<close> were sold and the rows \<open>free\<close> given away.\<close>

definition sold :: "string list \<Rightarrow> 'd item list \<Rightarrow> 'd item \<Rightarrow> 'd item" where
  "sold skus free r =
     (if r \<in> set free then take_one r
      else r\<lparr>i_InventoryQuantity := i_InventoryQuantity r - int (count_list skus (i_SKU r))\<rparr>)"

context orders_env
begin

lemma added_loop_plan:
  assumes ok: "db_ok (tables s)" and counts: "\<And>k. map_get counts k = int (count_list reqSKUs k)"
    and run: "added_loop db reqSKUs (free_raspberry (tb_inventory (tables s)) items) its counts skus s = (Ok (its', skus'), s')"
  shows "tables s' = tables s \<and> its' = its @ map take_one (granted (tb_inventory (tables s)) items reqSKUs) \<and>
    skus' = (if granted (tb_inventory (tables s)) items reqSKUs = [] then skus
             else Some (reqSKUs @ map i_SKU (granted (tb_inventory (tables s)) items reqSKUs)))"
proof -
  let ?inv = "tb_inventory (tables s)"
  have inv: "inventory_ok ?inv" using ok by (simp add: db_ok_def)
  consider "free_raspberry ?inv items = []"
    | pi where "pi \<in> set ?inv" "free_raspberry ?inv items = [pi]" "1 \<le> i_InventoryQuantity pi"
    using free_raspberry_cases [OF inv, of items] by blast
  then show ?thesis
  proof cases
    case 1
    with run show ?thesis by (simp add: granted_def)
  next
    case 2
    let ?c = "map_get (map_incr counts (i_SKU pi)) (i_SKU pi)"
    have c: "?c = int (count_list reqSKUs (i_SKU pi)) + 1"
      using counts by (simp add: map_incr_def map_get_def [of "_(_ \<mapsto> _)"])
    obtain ptr where g: "db_GetItemBySKU db (i_SKU pi) s = (Ok ptr, s')"
        and cont: "(case ptr of None \<Rightarrow> panicS
          | Some dbIt \<Rightarrow> if i_InventoryQuantity dbIt < ?c then returnS (its, skus)
              else returnS (its @ [take_one dbIt], Some (reqSKUs @ [i_SKU pi]))) s' = (Ok (its', skus'), s')"
      using run unfolding 2(2)
      by (auto simp: bindS_eq_Ok wrapS_eq_Ok Let_def take_one_def split: option.splits if_splits)
    have "filter (\<lambda>i. i_SKU i = i_SKU pi) ?inv = [pi]"
      using filter_key_singleton [of i_SKU ?inv pi] inv 2(1) by (simp add: inventory_ok_def)
    with stmt_Ok [OF GetItemBySKU g] have "tables s' = tables s" "ptr = Some pi" by (simp_all add: found_item_def)
    with cont c 2(2) show ?thesis by (auto simp: granted_def split: if_splits)
  qed
qed

lemma purchase_plan_Ok:
  assumes ok: "db_ok (tables s)" and h: "sv_store h = db" "sv_promotionsEngine h = promotions_of dec db"
    and run: "purchase_plan dec h ref req s = (Ok pl, s')"
  obtains customer pReq dbItems where "UserID (r_Context req) = Some customer"
    "decode_body dec_purchase_items_request req = Ok pReq" "list_all IsSKU (elems (pr_SKUs pReq))"
    "tables s' = tables s" "plan_for (tables s) ref customer (pr_SKUs pReq) dbItems pl"
    "val (o_Price (pl_order pl)) = sum_list (map (val \<circ> price_of dbItems) (elems (pr_SKUs pReq)))"
proof -
  obtain customer where user: "UserID (r_Context req) = Some customer"
    using run by (auto simp: purchase_plan_def split: option.splits)
  from run obtain pReq dbItems s1 items counts tot promos s2 items' skus' ded where
      body: "decode_body dec_purchase_items_request req = Ok pReq"
      and chk: "check_skus (elems (pr_SKUs pReq)) = Ok ()"
      and get: "db_GetItemsBySKU db (elems (pr_SKUs pReq)) s = (Ok dbItems, s1)"
      and loop: "deduct_loop dec (dbItemMap dbItems) (elems (pr_SKUs pReq)) dbItems Map.empty (d_zero dec) = Ok (items, counts, tot)"
      and promo: "ApplyPromotions (promotions_of dec db) items s1 = (Ok promos, s2)"
      and add: "added_loop db (elems (pr_SKUs pReq)) (pm_AddedItems promos) items counts (pr_SKUs pReq) s2 = (Ok (items', skus'), s')"
      and ded: "d_of_float dec (pm_Deduction promos) = Ok ded"
      and pl: "pl = \<lparr>pl_items = items', pl_order = SetSKUList ((zero_order dec)\<lparr>o_Price := d_sub dec tot ded, o_Reference := ref, o_CustomerID := customer\<rparr>) skus'\<rparr>"
    unfolding purchase_plan_def h user by (auto simp: bindS_eq_Ok wrapS_eq_Ok Let_def)
  let ?skus = "elems (pr_SKUs pReq)" and ?inv = "tb_inventory (tables s)"
  have t1: "tables s1 = tables s" and sel: "mset dbItems = mset (filter (\<lambda>i. ?skus = [] \<or> i_SKU i \<in> set ?skus) ?inv)"
    using stmt_Ok [OF GetItemsBySKU get] by simp_all
  have "distinct (map i_SKU ?inv)" "distinct (map i_Name ?inv)" using ok by (simp_all add: db_ok_def inventory_ok_def)
  then have dist: "distinct (map i_SKU dbItems)" "distinct (map i_Name dbItems)"
    using distinct_map_selection [OF sel] by blast+
  note l = deduct_loop_OkD [OF dist(1) loop]
  have "distinct (map i_Name items)" using dist(2) l(2) by simp
  from ApplyPromotions_unique [OF this, of s1, OF _ promo] have
      t2: "tables s2 = tables s" and p: "promos = no_promotions\<lparr>pm_AddedItems := free_raspberry ?inv dbItems\<rparr>"
    using ok t1 l(2) by simp_all
  have add': "tables s' = tables s \<and> items' = items @ map take_one (granted ?inv dbItems ?skus) \<and>
      skus' = (if granted ?inv dbItems ?skus = [] then pr_SKUs pReq else Some (?skus @ map i_SKU (granted ?inv dbItems ?skus)))"
    using added_loop_plan [of s2 counts ?skus dbItems items "pr_SKUs pReq" items' skus' s'] ok t2 l(4) add p
    by (simp add: no_promotions_def)
  have "val ded = 0" using of_float_zero ded p by (auto simp: no_promotions_def)
  then have price: "val (o_Price (pl_order pl)) = sum_list (map (val \<circ> price_of dbItems) ?skus)"
    using l(3) by (simp add: pl val_fold_add)
  have "plan_for (tables s) ref customer (pr_SKUs pReq) dbItems pl"
    unfolding plan_for_def Let_def using sel l(1,2) add' by (simp add: pl SetSKUList_def zero_order_def)
  with that user body add' price chk show thesis by (simp add: check_skus_Ok_iff)
qed

subsection \<open>Planning only reads\<close>

lemma keeps_unchanged:
  assumes "\<And>s r s'. m s = (r, s') \<Longrightarrow> tables s' = tables s"
  shows "keeps (\<lambda>t. tables t = T0) m"
proof
  fix s assume "tables s = T0"
  with assms [of s "fst (m s)" "snd (m s)"] show "tables (snd (m s)) = T0" by simp
qed

lemma keeps_read: "stmt tables m (\<lambda>T x T'. T' = T \<and> P T x) \<Longrightarrow> keeps (\<lambda>t. tables t = T0) m"
  by (rule keeps_unchanged) (rule stmt_read)

lemma keeps_reads [keeps_intros]:
  "keeps (\<lambda>t. tables t = T0) (db_GetItemsBySKU db skus)" "keeps (\<lambda>t. tables t = T0) (db_GetItemBySKU db sku)"
  "keeps (\<lambda>t. tables t = T0) (db_GetItemByName db sku)" "keeps (\<lambda>t. tables t = T0) (db_ListItems db)"
  "keeps (\<lambda>t. tables t = T0) (db_GetOrders db customer)"
  by (rule keeps_read [OF GetItemsBySKU] keeps_read [OF GetItemBySKU] keeps_read [OF GetItemByName]
      keeps_read [OF ListItems] keeps_read [OF GetOrders])+

lemma keeps_promotions [keeps_intros]: "keeps (\<lambda>t. tables t = T0) (ApplyPromotions (promotions_of dec db) items)"
  by (rule keeps_unchanged) (rule engine.reads)

lemma keeps_added_loop [keeps_intros]:
  "keeps (\<lambda>t. tables t = T0) (added_loop db reqSKUs added items counts skus)"
proof (induction added arbitrary: items counts skus)
  case (Cons it added)
  then show ?case by (auto simp: Let_def intro!: keeps_intros split: option.split)
qed simp

lemma keeps_purchase_plan:
  assumes "sv_store h = db" and "sv_promotionsEngine h = promotions_of dec db"
  shows "keeps (\<lambda>t. tables t = T0) (purchase_plan dec h ref req)"
  unfolding purchase_plan_def assms
  by (auto simp: Let_def split_beta intro!: keeps_intros split: option.split)

subsection \<open>The transaction\<close>

lemma newOutboxItem_Ok:
  "newOutboxItem dec ev = Ok it \<longleftrightarrow> (\<exists>data. Encode dec (Some ev) = Ok data \<and>
     it = \<lparr>ob_ID = 0, ob_EventID = e_ID ev, ob_Topic = e_Topic ev, ob_PartitionKey = e_Key ev, ob_Data = data,
           ob_OccurredAt = e_OccurredAt ev, ob_CreatedAt = zero_time, ob_PublishedAt = None, ob_DeliveredAt = None\<rparr>)"
  by (auto simp: newOutboxItem_def bindR_eq_Ok)

lemma purchase_tx_Ok:
  assumes "purchase_tx dec db uid now pl s = (Ok (), s')" and "db_ok (tables s)"
  obtains xs ord row where "pl_items pl \<noteq> []" "fills (i_ID ` set (tb_inventory (tables s))) (pl_items pl) xs"
    "ord = (pl_order pl)\<lparr>o_ID := o_ID ord\<rparr>" "int64 (o_ID ord)" "event_row dec timecol uid now ord row"
    "\<forall>q \<in> set (tb_outbox (tables s)). ob_ID q < ob_ID row"
    "tables s' = (tables s)\<lparr>tb_inventory := foldl upsert_row (tb_inventory (tables s)) (map (store_item numcol) xs),
       tb_orders := tb_orders (tables s) @ [store_order numcol ord], tb_outbox := tb_outbox (tables s) @ [row]\<rparr>"
    "db_ok (tables s')"
proof -
  from assms(1) obtain xs s1 ord s2 ob where
      up: "db_UpsertItems db (pl_items pl) s = (Ok xs, s1)"
      and ao: "db_AddOrder db (pl_order pl) s1 = (Ok ord, s2)"
      and ob: "newOutboxItem dec (Event_New uid now TopicOrderCreated (o_Reference ord) (OrderData ord)) = Ok ob"
      and ab: "db_AddOutboxItems db [ob] s2 = (Ok (), s')"
    by (auto simp: purchase_tx_def bindS_eq_Ok wrapS_eq_Ok)
  note u = stmt_Ok [OF UpsertItems up] and a = stmt_Ok [OF AddOrder ao] and b = stmt_Ok [OF AddOutboxItems ab]
  from b obtain rows where rows: "enqueued timecol (tb_outbox (tables s2)) [ob] rows"
      "tables s' = (tables s2)\<lparr>tb_outbox := tb_outbox (tables s2) @ rows\<rparr>" by blast
  then obtain row where "rows = [row]" by (auto simp: enqueued_def list_all2_Cons1)
  with rows have enq: "enqueued timecol (tb_outbox (tables s2)) [ob] [row]"
      and t: "tables s' = (tables s2)\<lparr>tb_outbox := tb_outbox (tables s2) @ [row]\<rparr>" by simp_all
  have row: "event_row dec timecol uid now ord row" "\<forall>q \<in> set (tb_outbox (tables s)). ob_ID q < ob_ID row"
    using enq ob u a by (auto simp: event_row_def enqueued_def store_outbox_iff newOutboxItem_Ok Event_New_def)
  have "db_ok (tables s')"
    using assms(2) stmt_keeps_ok [OF UpsertItems _ up] stmt_keeps_ok [OF AddOrder _ ao] stmt_keeps_ok [OF AddOutboxItems _ ab]
    by blast
  with that [of xs ord row] u a row t show thesis by simp
qed

lemma plan_items_present:
  assumes "db_ok T" and "plan_for T ref customer reqSKUs dbItems pl" and "x \<in> set (pl_items pl)"
  shows "i_ID x \<noteq> 0 \<and> i_ID x \<in> i_ID ` set (tb_inventory T)"
proof -
  let ?skus = "elems reqSKUs" and ?inv = "tb_inventory T"
  have ok: "inventory_ok ?inv" using assms(1) by (simp add: db_ok_def)
  have "set dbItems \<subseteq> set ?inv" using assms(2) set_selection by (fastforce simp: plan_for_def Let_def)
  moreover have "set (granted ?inv dbItems ?skus) \<subseteq> set ?inv" by (auto simp: granted_def free_raspberry_def split: if_splits)
  moreover have "x \<in> set (deducted ?skus dbItems @ map take_one (granted ?inv dbItems ?skus))"
    using assms(2,3) by (simp add: plan_for_def Let_def)
  ultimately obtain r where "r \<in> set ?inv" "i_ID x = i_ID r" by (auto simp: deducted_def take_one_def)
  with ok show ?thesis by (auto simp: inventory_ok_def list_all_iff)
qed

lemma upsert_plan:
  assumes "db_ok T" and "plan_for T ref customer reqSKUs dbItems pl" and "fills used (pl_items pl) xs"
  shows "foldl upsert_row (tb_inventory T) (map (store_item numcol) xs)
    = map (fold overwrite (map (store_item numcol) (pl_items pl))) (tb_inventory T)"
proof -
  have "xs = pl_items pl" using fills_nonzero [OF assms(3)] plan_items_present [OF assms(1,2)] by blast
  then show ?thesis
    using plan_items_present [OF assms(1,2)] by (intro foldl_upsert_present [THEN trans]) (auto simp: store_item_def)
qed

lemma PurchaseItems_commit:
  assumes ok: "db_ok (tables s)" and h: "sv_store h = db" "sv_promotionsEngine h = promotions_of dec db"
    and run: "PurchaseItems_handler dec h ref uid now req p s = (Ok payload, s')"
  obtains customer pReq dbItems pl ord row where "UserID (r_Context req) = Some customer"
    "decode_body dec_purchase_items_request req = Ok pReq" "list_all IsSKU (elems (pr_SKUs pReq))"
    "plan_for (tables s) ref customer (pr_SKUs pReq) dbItems pl"
    "val (o_Price (pl_order pl)) = sum_list (map (val \<circ> price_of dbItems) (elems (pr_SKUs pReq)))"
    "payload = PurchasePayload \<lparr>ps_OrderReference = ref, ps_Cost = d_to_float dec (o_Price (pl_order pl))\<rparr>"
    "ord = (pl_order pl)\<lparr>o_ID := o_ID ord\<rparr>" "int64 (o_ID ord)" "event_row dec timecol uid now ord row"
    "\<forall>q \<in> set (tb_outbox (tables s)). ob_ID q < ob_ID row"
    "tables s' = after_purchase numcol (tables s) pl ord row" "db_ok (tables s')"
proof -
  from run obtain pl s1 where plan: "purchase_plan dec h ref req s = (Ok pl, s1)"
      and tx: "db_Transaction db (purchase_tx dec db uid now pl) s1 = (Ok (), s')"
      and pay: "payload = PurchasePayload \<lparr>ps_OrderReference = o_Reference (pl_order pl), ps_Cost = d_to_float dec (o_Price (pl_order pl))\<rparr>"
    unfolding PurchaseItems_handler_def h by (auto simp: bindS_eq_Ok)
  from purchase_plan_Ok [OF ok h plan] obtain customer pReq dbItems where P:
    "UserID (r_Context req) = Some customer"
    "decode_body dec_purchase_items_request req = Ok pReq" "list_all IsSKU (elems (pr_SKUs pReq))"
    "tables s1 = tables s" "plan_for (tables s) ref customer (pr_SKUs pReq) dbItems pl"
    "val (o_Price (pl_order pl)) = sum_list (map (val \<circ> price_of dbItems) (elems (pr_SKUs pReq)))" by blast
  from transactional_Ok [OF Transaction tx]
  obtain s2 s3 where t: "tables s2 = tables s1" "purchase_tx dec db uid now pl s2 = (Ok (), s3)" "tables s' = tables s3" .
  from purchase_tx_Ok [OF t(2)] ok t(1) P(4) obtain xs ord row where Q:
    "fills (i_ID ` set (tb_inventory (tables s))) (pl_items pl) xs"
    "ord = (pl_order pl)\<lparr>o_ID := o_ID ord\<rparr>" "int64 (o_ID ord)" "event_row dec timecol uid now ord row"
    "\<forall>q \<in> set (tb_outbox (tables s)). ob_ID q < ob_ID row"
    "tables s3 = (tables s)\<lparr>tb_inventory := foldl upsert_row (tb_inventory (tables s)) (map (store_item numcol) xs),
       tb_orders := tb_orders (tables s) @ [store_order numcol ord], tb_outbox := tb_outbox (tables s) @ [row]\<rparr>"
    "db_ok (tables s3)" by metis
  have "tables s' = after_purchase numcol (tables s) pl ord row"
    using Q(6) t(3) upsert_plan [OF ok P(5) Q(1)] by (simp add: after_purchase_def)
  moreover have "o_Reference (pl_order pl) = ref" using P(5) by (simp add: plan_for_def Let_def)
  ultimately show thesis using that P Q pay t(3) by simp
qed

text \<open>Without a success nothing is written: not the stock, not the order, not the event.\<close>

lemma PurchaseItems_no_effect:
  assumes h: "sv_store h = db" "sv_promotionsEngine h = promotions_of dec db"
    and run: "PurchaseItems_handler dec h ref uid now req p s = (r, s')" and "\<not> is_ok r"
  shows "tables s' = tables s"
proof -
  obtain r1 s1 where plan: "purchase_plan dec h ref req s = (r1, s1)" by fastforce
  then have t1: "tables s1 = tables s"
    using keeps_purchase_plan [OF h, of "tables s" ref req] keepsD by fastforce
  show ?thesis
  proof (cases r1)
    case (Ok pl)
    obtain r2 s2 where tx: "db_Transaction db (purchase_tx dec db uid now pl) s1 = (r2, s2)" by fastforce
    have "s' = s2" "\<not> is_ok r2" using run plan tx Ok \<open>\<not> is_ok r\<close>
      by (cases r2; auto simp: PurchaseItems_handler_def h go_simps)+
    moreover have "tables s2 = tables s1"
      by (rule transactional_rollback [OF Transaction tx \<open>\<not> is_ok r2\<close>])
    ultimately show ?thesis using t1 by simp
  qed (use run plan t1 in \<open>auto simp: PurchaseItems_handler_def go_simps\<close>)
qed

end

section \<open>The stock after a purchase\<close>

text \<open>Prices as their column holds them.\<close>

definition stored_prices :: "('d \<Rightarrow> 'd) \<Rightarrow> 'd item list \<Rightarrow> bool" where
  "stored_prices numcol rows \<longleftrightarrow> list_all (\<lambda>r. numcol (i_Price r) = i_Price r) rows"

lemma overwrite_deducted:
  assumes inv: "inventory_ok rows" and stored: "stored_prices numcol rows"
    and sel: "mset items = mset (filter (\<lambda>i. skus = [] \<or> i_SKU i \<in> set skus) rows)" and r: "r \<in> set rows"
  shows "fold overwrite (map (store_item numcol) (deducted skus items)) r
    = r\<lparr>i_InventoryQuantity := i_InventoryQuantity r - int (count_list skus (i_SKU r))\<rparr>"
proof (cases "r \<in> set items")
  let ?xs = "map (store_item numcol) (deducted skus items)"
  let ?minus = "r\<lparr>i_InventoryQuantity := i_InventoryQuantity r - int (count_list skus (i_SKU r))\<rparr>"
  case True
  have "map i_ID ?xs = map i_ID items" by (simp add: deducted_def store_item_def)
  then have "distinct (map i_ID ?xs)"
    using distinct_map_selection [OF sel, of i_ID] inv by (simp add: inventory_ok_def)
  moreover have "?minus \<in> set ?xs"
    using True r stored by (auto simp: deducted_def store_item_def image_iff stored_prices_def list_all_iff intro!: bexI [of _ r])
  ultimately show ?thesis by (intro fold_overwrite_hit) simp_all
next
  case False
  have "x = r" if "x \<in> set items" "i_ID x = i_ID r" for x
    using that r set_selection [OF sel] distinct_map_inj_on [of i_ID rows x r] inv by (auto simp: inventory_ok_def)
  with False have "\<forall>x \<in> set (map (store_item numcol) (deducted skus items)). i_ID x \<noteq> i_ID r"
    by (auto simp: deducted_def store_item_def)
  moreover have "i_SKU r \<notin> set skus" using False r set_selection [OF sel] by auto
  ultimately show ?thesis by (simp add: fold_overwrite_skip count_list_0_iff [THEN iffD2])
qed

lemma granted_cong: "set items = set items' \<Longrightarrow> granted rows items skus = granted rows items' skus"
  by (simp add: granted_def free_raspberry_def)

lemma granted_cases:
  assumes "inventory_ok rows"
  shows "granted rows items skus = [] \<or> (\<exists>pi \<in> set rows. granted rows items skus = [pi])"
  using free_raspberry_cases [OF assms, of items] by (elim disjE bexE) (simp_all add: granted_def)

lemma overwrite_granted:
  assumes inv: "inventory_ok rows" and stored: "stored_prices numcol rows" and r: "r \<in> set rows"
  shows "fold overwrite (map (store_item numcol) (map take_one (granted rows items skus)))
      (r\<lparr>i_InventoryQuantity := i_InventoryQuantity r - int (count_list skus (i_SKU r))\<rparr>)
    = sold skus (granted rows items skus) r"
proof -
  consider "granted rows items skus = []" | pi where "pi \<in> set rows" "granted rows items skus = [pi]"
    using granted_cases [OF inv, of items skus] by blast
  then show ?thesis
  proof cases
    case 2
    have "i_ID r = i_ID pi \<longleftrightarrow> r = pi"
      using distinct_map_inj_on [of i_ID rows r pi] inv r 2(1) by (auto simp: inventory_ok_def)
    moreover have "numcol (i_Price pi) = i_Price pi" using stored 2(1) by (simp add: stored_prices_def list_all_iff)
    ultimately show ?thesis unfolding 2(2) by (simp add: sold_def overwrite_def store_item_def take_one_def)
  qed (simp add: sold_def)
qed

lemma after_purchase_inventory:
  assumes "db_ok T" and plan: "plan_for T ref customer reqSKUs dbItems pl"
    and stored: "stored_prices numcol (tb_inventory T)"
  shows "tb_inventory (after_purchase numcol T pl ord row)
    = map (sold (elems reqSKUs) (granted (tb_inventory T) dbItems (elems reqSKUs))) (tb_inventory T)"
proof -
  have inv: "inventory_ok (tb_inventory T)" using assms(1) by (simp add: db_ok_def)
  show ?thesis
    using plan overwrite_deducted [OF inv stored] overwrite_granted [OF inv stored]
    by (simp add: after_purchase_def plan_for_def Let_def del: map_map)
qed

subsection \<open>Overlapping purchases\<close>

lemma fold_overwrite_cong:
  "i_ID r \<in> i_ID ` set xs \<Longrightarrow> i_ID r' = i_ID r \<Longrightarrow> fold overwrite xs r' = fold overwrite xs r"
proof (induction xs arbitrary: r r')
  case (Cons x xs)
  show ?case
  proof (cases "i_ID r = i_ID x")
    case True
    then have "overwrite x r' = x" "overwrite x r = x" using Cons.prems by (simp_all add: overwrite_def)
    then show ?thesis by simp
  next
    case False
    with Cons.prems have "i_ID (overwrite x r) \<in> i_ID ` set xs" by auto
    with Cons.IH [of "overwrite x r" "overwrite x r'"] Cons.prems(2) show ?thesis by simp
  qed
qed simp

lemma fold_overwrite_again: "fold overwrite xs (fold overwrite xs r) = fold overwrite xs r"
proof (cases "i_ID r \<in> i_ID ` set xs")
  case True
  then show ?thesis by (intro fold_overwrite_cong) simp_all
next
  case False
  then have "fold overwrite xs r = r" by (intro fold_overwrite_skip) (auto simp: image_iff)
  then show ?thesis by simp
qed

lemma plan_rows:
  assumes "db_ok T" and "plan_for T ref customer reqSKUs dbItems pl" and "stored_prices numcol (tb_inventory T)"
    and "r \<in> set (tb_inventory T)"
  shows "fold overwrite (map (store_item numcol) (pl_items pl)) r
    = sold (elems reqSKUs) (granted (tb_inventory T) dbItems (elems reqSKUs)) r"
  using after_purchase_inventory [OF assms(1-3)] assms(4) by (simp add: after_purchase_def)

lemma same_grants:
  assumes "plan_for T ref customer reqSKUs dbItems pl" and "plan_for T ref' customer' reqSKUs dbItems' pl'"
  shows "granted (tb_inventory T) dbItems (elems reqSKUs) = granted (tb_inventory T) dbItems' (elems reqSKUs)"
  using assms by (intro granted_cong mset_eq_setD) (simp add: plan_for_def Let_def)

context orders_env
begin

lemma tx_commit:
  assumes "db_Transaction db (purchase_tx dec db uid now pl) s = (Ok (), s')" and "db_ok (tables s)"
    and "\<And>x. x \<in> set (pl_items pl) \<Longrightarrow> i_ID x \<noteq> 0 \<and> i_ID x \<in> i_ID ` set (tb_inventory (tables s))"
  shows "tb_inventory (tables s') = map (fold overwrite (map (store_item numcol) (pl_items pl))) (tb_inventory (tables s)) \<and>
    length (tb_orders (tables s')) = Suc (length (tb_orders (tables s))) \<and> db_ok (tables s')"
proof -
  from transactional_Ok [OF Transaction assms(1)] obtain s0 s1 where t: "tables s0 = tables s"
      "purchase_tx dec db uid now pl s0 = (Ok (), s1)" "tables s' = tables s1" .
  from purchase_tx_Ok [OF t(2)] t(1) assms(2) obtain xs ord row where f: "fills (i_ID ` set (tb_inventory (tables s))) (pl_items pl) xs"
      and T: "tables s1 = (tables s)\<lparr>tb_inventory := foldl upsert_row (tb_inventory (tables s)) (map (store_item numcol) xs),
       tb_orders := tb_orders (tables s) @ [store_order numcol ord], tb_outbox := tb_outbox (tables s) @ [row]\<rparr>"
      and ok: "db_ok (tables s1)" by metis
  have "xs = pl_items pl" using fills_nonzero [OF f] assms(3) by blast
  with assms(3) have "foldl upsert_row (tb_inventory (tables s)) (map (store_item numcol) xs)
      = map (fold overwrite (map (store_item numcol) (pl_items pl))) (tb_inventory (tables s))"
    by (intro foldl_upsert_present [THEN trans]) (auto simp: store_item_def)
  with T ok t(3) show ?thesis by simp
qed

lemma overlapping_purchases:
  assumes ok: "db_ok (tables s)" and stored: "stored_prices numcol (tb_inventory (tables s))"
    and h: "sv_store h = db" "sv_promotionsEngine h = promotions_of dec db"
    and plan1: "purchase_plan dec h ref1 req s = (Ok pl1, s1)" and plan2: "purchase_plan dec h ref2 req s1 = (Ok pl2, s2)"
    and tx1: "db_Transaction db (purchase_tx dec db uid1 now1 pl1) s2 = (Ok (), s3)"
    and tx2: "db_Transaction db (purchase_tx dec db uid2 now2 pl2) s3 = (Ok (), s4)"
  shows "tb_inventory (tables s4) = tb_inventory (tables s3) \<and>
    length (tb_orders (tables s4)) = length (tb_orders (tables s)) + 2"
proof -
  let ?T = "tables s"
  from purchase_plan_Ok [OF ok h plan1] obtain customer pReq dbItems where
      P: "decode_body dec_purchase_items_request req = Ok pReq" "tables s1 = ?T"
         "plan_for ?T ref1 customer (pr_SKUs pReq) dbItems pl1" by metis
  from purchase_plan_Ok [OF _ h plan2] P(2) ok obtain customer' pReq' dbItems' where
      Q: "decode_body dec_purchase_items_request req = Ok pReq'" "tables s2 = ?T"
         "plan_for ?T ref2 customer' (pr_SKUs pReq') dbItems' pl2" by metis
  from P(1) Q(1) have [simp]: "pReq' = pReq" by simp
  let ?o1 = "fold overwrite (map (store_item numcol) (pl_items pl1))"
    and ?o2 = "fold overwrite (map (store_item numcol) (pl_items pl2))"
  have same: "?o1 r = ?o2 r" if "r \<in> set (tb_inventory ?T)" for r
    using plan_rows [OF ok P(3) stored that] plan_rows [OF ok Q(3) stored that] same_grants [OF P(3) Q(3) [simplified]] by simp
  have one: "tb_inventory (tables s3) = map ?o1 (tb_inventory ?T) \<and>
      length (tb_orders (tables s3)) = Suc (length (tb_orders ?T)) \<and> db_ok (tables s3)"
    using tx_commit [OF tx1] plan_items_present [OF ok P(3)] ok Q(2) by simp
  then have "i_ID ` set (tb_inventory (tables s3)) = i_ID ` set (tb_inventory ?T)" by (simp add: image_image)
  then have "tb_inventory (tables s4) = map ?o2 (tb_inventory (tables s3)) \<and>
      length (tb_orders (tables s4)) = Suc (length (tb_orders (tables s3)))"
    using tx_commit [OF tx2] plan_items_present [OF ok Q(3)] one by simp
  moreover have "map ?o2 (map ?o1 (tb_inventory ?T)) = map ?o1 (tb_inventory ?T)"
    using same fold_overwrite_again [of "map (store_item numcol) (pl_items pl2)"] by (simp del: fold_map cong: map_cong)
  ultimately show ?thesis using one by simp
qed

end

section \<open>The price of a purchase\<close>

text \<open>The requested units priced row by row.\<close>

definition priced :: "('d \<Rightarrow> rat) \<Rightarrow> string list \<Rightarrow> 'd item list \<Rightarrow> rat" where
  "priced val skus rows = sum_list (map (\<lambda>r. of_nat (count_list skus (i_SKU r)) * val (i_Price r)) rows)"

lemma priced_Cons:
  assumes "distinct (map i_SKU rows)" and "it \<in> set rows"
  shows "priced val (i_SKU it # skus) rows = val (i_Price it) + priced val skus rows"
  using assms
proof (induction rows)
  case (Cons r rows)
  show ?case
  proof (cases "it = r")
    case True
    then have "i_SKU it \<notin> i_SKU ` set rows" using Cons.prems(1) by auto
    then have "priced val (i_SKU it # skus) rows = priced val skus rows"
      unfolding priced_def by (intro arg_cong [of _ _ sum_list] map_cong) (auto simp: image_iff)
    with True show ?thesis unfolding priced_def by (simp add: distrib_right)
  next
    case False
    with Cons.prems have "i_SKU r \<noteq> i_SKU it" "it \<in> set rows" by auto
    with Cons show ?thesis by (auto simp: priced_def)
  qed
qed simp

lemma priced_sum:
  assumes d: "distinct (map i_SKU rows)" and sel: "mset items = mset (filter P rows)"
    and "purchasable items ps skus"
  shows "sum_list (map (val \<circ> price_of items) skus) = priced val skus rows"
  using assms(3)
proof (induction skus arbitrary: ps)
  case Nil
  have "sum_list (map (\<lambda>r. 0) rows) = (0 :: rat)" by simp
  then show ?case by (simp add: priced_def)
next
  case (Cons sku skus)
  then obtain it where it: "it \<in> set items" "i_SKU it = sku" by auto
  then obtain a where a: "dbItemMap items sku = Some a" using dbItemMap_None_iff [of items sku] by fastforce
  note i = dbItemMap_Some [OF a]
  let ?x = "items ! a"
  have "?x \<in> set rows" using set_selection [OF sel] i by (metis (mono_tags, lifting) mem_Collect_eq nth_mem)
  with i have "priced val (sku # skus) rows = val (i_Price ?x) + priced val skus rows"
    using priced_Cons [OF d, of ?x val skus] by simp
  moreover have "price_of items sku = i_Price ?x" using a by (simp add: price_of_def)
  moreover have "sum_list (map (val \<circ> price_of items) skus) = priced val skus rows"
    using Cons.IH [of "ps @ [sku]"] Cons.prems by (simp add: comp_def)
  ultimately show ?case by (simp add: comp_def)
qed

section \<open>Properties\<close>

context gorm
begin

lemma database_GormDB: "database dec (GormDB g) tables numcol timecol"
  by unfold_locales

end

lemma orders_env_GormDB:
  "gorm dec g tables numcol timecol \<Longrightarrow> decimal_lib dec val \<Longrightarrow> orders_env dec (GormDB g) tables numcol timecol val"
  by (rule orders_env.intro [OF gorm.database_GormDB])

interpretation mem_orders: orders_env dec10 "GormDB (mem_engine pg)" m_tables "mem_numcol pg" "mem_timecol pg" dec10_val
  for pg
  by unfold_locales

lemma NewService_fields [simp]:
  "sv_store (NewService dec db relayer authn) = db"
  "sv_promotionsEngine (NewService dec db relayer authn) = promotions_of dec db"
  "sv_relay (NewService dec db relayer authn) = relayer" "sv_authn (NewService dec db relayer authn) = authn"
  by (simp_all add: NewService_def)

abbreviation selected :: "string list \<Rightarrow> 'd item list \<Rightarrow> 'd item list" where
  "selected skus rows \<equiv> filter (\<lambda>i. skus = [] \<or> i_SKU i \<in> set skus) rows"

subsection \<open>A shop to run the handlers on\<close>

definition demo_rows :: "dec10 item list" where
  "demo_rows =
     [\<lparr>i_ID = 1, i_SKU = ''43N23P'', i_Name = ''MacBook Pro'', i_Price = (5399, 0), i_InventoryQuantity = 5\<rparr>,
      \<lparr>i_ID = 2, i_SKU = ''234234'', i_Name = ''Raspberry Pi B'', i_Price = (30, 0), i_InventoryQuantity = 1\<rparr>]"

definition demo_service :: "(dec10, mem) orders_service" where
  "demo_service = NewService dec10 (GormDB (mem_engine False))
     \<lparr>rl_Start = returnS (), rl_Stop = (\<lambda>s. Some (Ok (), s)), rl_Ping = returnS ()\<rparr> (Authenticate [''secret'' \<mapsto> ''alice''])"

definition demo_request :: "string list \<Rightarrow> request" where
  "demo_request skus =
     \<lparr>r_Method = ''POST'', r_Path = ItemPurchaseEndPnt, r_Query = [], r_Header = Map.empty,
      r_Body = print_json (JObj [(''skus'', JArr (map JStr skus))]), r_Context = \<lparr>c_userID = Some ''alice''\<rparr>\<rparr>"

definition demo_now :: time where
  "demo_now = zero_time\<lparr>t_year := 2024\<rparr>"

definition demo_run :: "string list \<Rightarrow> dec10 payload res \<times> mem" where
  "demo_run skus =
     PurchaseItems_handler dec10 demo_service ''ref'' ''uid'' demo_now (demo_request skus) [] (mem_with demo_rows)"

lemma demo_ok: "db_ok (m_tables (mem_with demo_rows))"
  by code_simp

lemma demo_run_ok: "is_ok (fst (demo_run [''43N23P'']))"
  by code_simp

subsection \<open>Theorems\<close>





text \<open>C4: The stock after a successful purchase. Every row keeps its identity and price; its quantity
  drops by the number of requested units, except that a Raspberry Pi given away with a MacBook Pro
  drops by exactly one (also when the request contains it as well).\<close>

theorem purchase_stock:
  assumes "gorm dec g tables numcol timecol" and "decimal_lib dec val" and "db_ok (tables s)"
    and "stored_prices numcol (tb_inventory (tables s))"
    and "PurchaseItems_handler dec (NewService dec (GormDB g) relayer authn) ref uid now req p s = (Ok payload, s')"
  shows "\<exists>pReq. decode_body dec_purchase_items_request req = Ok pReq \<and>
    (let skus = elems (pr_SKUs pReq); rows = tb_inventory (tables s)
     in tb_inventory (tables s') = map (sold skus (granted rows (selected skus rows) skus)) rows)"
proof -
  note env = orders_env_GormDB [OF assms(1,2)]
  from orders_env.PurchaseItems_commit [OF env assms(3) NewService_fields(1,2) assms(5)]
  obtain customer pReq dbItems pl ord row where P: "decode_body dec_purchase_items_request req = Ok pReq"
    "plan_for (tables s) ref customer (pr_SKUs pReq) dbItems pl" "tables s' = after_purchase numcol (tables s) pl ord row"
    by metis
  have "mset dbItems = mset (selected (elems (pr_SKUs pReq)) (tb_inventory (tables s)))"
    using P(2) by (simp add: plan_for_def Let_def)
  then have "set dbItems = set (selected (elems (pr_SKUs pReq)) (tb_inventory (tables s)))" by (rule mset_eq_setD)
  from granted_cong [OF this] after_purchase_inventory [OF assms(3) P(2) assms(4)] P(1,3) show ?thesis by simp
qed

theorem purchase_stock_witness:
  "\<exists>pReq. decode_body dec_purchase_items_request (demo_request [''43N23P'']) = Ok pReq \<and>
    tb_inventory (m_tables (snd (demo_run [''43N23P'']))) =
      map (sold (elems (pr_SKUs pReq)) (granted demo_rows (selected (elems (pr_SKUs pReq)) demo_rows) (elems (pr_SKUs pReq)))) demo_rows"
proof -
  obtain payload where "fst (demo_run [''43N23P'']) = Ok payload" using demo_run_ok by (auto simp: is_ok_iff)
  then have "PurchaseItems_handler dec10 demo_service ''ref'' ''uid'' demo_now (demo_request [''43N23P'']) [] (mem_with demo_rows)
      = (Ok payload, snd (demo_run [''43N23P'']))" unfolding demo_run_def by (metis prod.collapse)
  moreover have "stored_prices (mem_numcol False) (tb_inventory (m_tables (mem_with demo_rows)))" by code_simp
  ultimately show ?thesis
    using purchase_stock [OF mem.gorm_axioms dec10.decimal_lib_axioms demo_ok, of False]
    unfolding demo_service_def by (fastforce simp: mem_with_def Let_def)
qed

text \<open>C5: Which requests the stock check lets through. On items with distinct SKUs the loop accepts a
  request exactly when every SKU is present with at least twice the requested number of units less one:
  it compares the number of units taken so far with a quantity that was already reduced by them.\<close>

theorem purchase_threshold:
  assumes "distinct (map i_SKU items)"
  shows "is_ok (deduct_loop dec (dbItemMap items) skus items Map.empty tot) \<longleftrightarrow>
    (\<forall>sku \<in> set skus. \<exists>it \<in> set items. i_SKU it = sku \<and> 2 * int (count_list skus sku) - 1 \<le> i_InventoryQuantity it)"
  using deduct_loop_Ok_iff [OF assms] purchasable_iff [OF assms, of "[]" skus] by simp

theorem purchase_threshold_witness:
  "\<not> is_ok (deduct_loop dec10 (dbItemMap demo_rows) (replicate 4 ''43N23P'') demo_rows Map.empty (0, 0)) \<and>
   is_ok (deduct_loop dec10 (dbItemMap demo_rows) (replicate 3 ''43N23P'') demo_rows Map.empty (0, 0))"
proof -
  have "distinct (map i_SKU demo_rows)" by code_simp
  from purchase_threshold [OF this, of dec10 "replicate 4 ''43N23P''" "(0, 0)"]
    purchase_threshold [OF this, of dec10 "replicate 3 ''43N23P''" "(0, 0)"]
  show ?thesis by (simp add: demo_rows_def numeral_3_eq_3 numeral_eq_Suc)
qed

text \<open>C6: A request that names a well-formed SKU the inventory does not hold crashes the handler: once
  the items were read, the first unknown SKU (after ones in stock) dereferences a nil pointer.\<close>

theorem purchase_unknown_sku:
  assumes "UserID (r_Context req) = Some customer"
    and "decode_body dec_purchase_items_request req = Ok pReq" and "list_all IsSKU (elems (pr_SKUs pReq))"
    and "db_GetItemsBySKU (sv_store h) (elems (pr_SKUs pReq)) s = (Ok dbItems, s')"
    and "distinct (map i_SKU dbItems)"
    and "elems (pr_SKUs pReq) = pre @ sku # post" and "purchasable dbItems [] pre" and "sku \<notin> i_SKU ` set dbItems"
  shows "PurchaseItems_handler dec h ref uid now req p s = (Panic, s')"
proof -
  have "deduct_loop dec (dbItemMap dbItems) (elems (pr_SKUs pReq)) dbItems Map.empty (d_zero dec) = Panic"
    unfolding assms(6) by (rule deduct_loop_unknown [OF assms(5,7,8)])
  with assms(1-4) have "purchase_plan dec h ref req s = (Panic, s')"
    by (simp add: purchase_plan_def go_simps Let_def check_skus_Ok_iff [THEN iffD2])
  then show ?thesis by (simp add: PurchaseItems_handler_def go_simps)
qed

theorem purchase_unknown_sku_witness: "fst (demo_run [''AAAAAA'']) = Panic"
proof -
  have 1: "UserID (r_Context (demo_request [''AAAAAA''])) = Some ''alice''" by code_simp
  have 2: "decode_body dec_purchase_items_request (demo_request [''AAAAAA'']) = Ok \<lparr>pr_SKUs = Some [''AAAAAA'']\<rparr>" by code_simp
  have 3: "db_GetItemsBySKU (sv_store demo_service) (elems (pr_SKUs \<lparr>pr_SKUs = Some [''AAAAAA'']\<rparr>)) (mem_with demo_rows)
      = (Ok [], mem_with demo_rows)" by code_simp
  have 4: "list_all IsSKU (elems (pr_SKUs \<lparr>pr_SKUs = Some [''AAAAAA'']\<rparr>))" by code_simp
  show ?thesis unfolding demo_run_def
    by (subst purchase_unknown_sku [OF 1 2 4 3, of "[]" "''AAAAAA''" "[]"]) (simp_all add: elems_def)
qed


text \<open>Two customers buy the last Raspberry Pi.\<close>

definition demo_overlap :: "mem option" where
  "demo_overlap =
     (let plan = (\<lambda>ref. purchase_plan dec10 demo_service ref (demo_request [''234234'']));
          commit = (\<lambda>uid pl. Transaction (mem_engine False) (purchase_tx dec10 (GormDB (mem_engine False)) uid demo_now pl))
      in case plan ''r1'' (mem_with demo_rows) of
        (Ok pl1, s1) \<Rightarrow> (case plan ''r2'' s1 of
          (Ok pl2, s2) \<Rightarrow> (case commit ''u1'' pl1 s2 of
            (Ok _, s3) \<Rightarrow> (case commit ''u2'' pl2 s3 of
              (Ok _, s4) \<Rightarrow> Some s4 | _ \<Rightarrow> None) | _ \<Rightarrow> None) | _ \<Rightarrow> None) | _ \<Rightarrow> None)"

lemma demo_overlap_ok: "demo_overlap \<noteq> None"
  by code_simp


end
