(* ===== verification/Messaging.thy ===== *)
theory Messaging
  imports Http Mem_Engine Worker
begin

text \<open>
  The package \<^verbatim>\<open>messaging\<close> and its two clients. The Kafka library (franz-go) is a parameter:
  a record of the calls the client makes, over the state of the world. The locales are the
  contracts the services rely on: a publisher that does not touch the database, and one whose
  success means that the broker's log holds the encoded event.
\<close>

section \<open>Interfaces\<close>

record ('d, 's) publisher =
  pub_Publish :: "'d event \<Rightarrow> ('s, unit) io"
  pub_Close :: "('s, unit) io"
  pub_Ping :: "('s, unit) io"

record ('d, 's) consumer =
  con_Poll :: "('s, 'd event list) io"
  con_Commit :: "('s, unit) io"
  con_Ping :: "('s, unit) io"

section \<open>The no-op client\<close>

definition noop_Publish :: "'d event \<Rightarrow> ('s, unit) io" where "noop_Publish ev = returnS ()"
definition noop_Close :: "('s, unit) io" where "noop_Close = returnS ()"
definition noop_Ping :: "('s, unit) io" where "noop_Ping = returnS ()"
definition noop_Poll :: "('s, 'd event list) io" where "noop_Poll = returnS []"
definition noop_Commit :: "('s, unit) io" where "noop_Commit = returnS ()"

definition noop_publisher :: "('d, 's) publisher" where
  "noop_publisher = \<lparr>pub_Publish = noop_Publish, pub_Close = noop_Close, pub_Ping = noop_Ping\<rparr>"

definition noop_consumer :: "('d, 's) consumer" where
  "noop_consumer = \<lparr>con_Poll = noop_Poll, con_Commit = noop_Commit, con_Ping = noop_Ping\<rparr>"

section \<open>The Kafka client\<close>

record kgo_record =
  kr_Topic :: string
  kr_Key :: string
  kr_Value :: string
  kr_Partition :: int
  kr_Offset :: int

record fetch_error =
  fe_Topic :: string
  fe_Partition :: int
  fe_Err :: error

datatype kopt =
    SeedBrokers "string list"
  | ConsumerGroupOpt string
  | ConsumeTopics "string list"
  | ConsumeResetOffsetAtStart
  | DisableAutoCommit
  | AllowAutoTopicCreation

text \<open>
  \<open>k_PollFetches\<close> yields the per-partition errors and the records of a poll; \<open>k_ctx_err\<close> is
  the error of the poll's context after it, if it was cancelled.
\<close>

record 's kgo_ops =
  k_NewClient :: "kopt list \<Rightarrow> ('s, unit) io"
  k_ProduceSync :: "kgo_record \<Rightarrow> ('s, unit) io"
  k_PollFetches :: "('s, fetch_error list \<times> kgo_record list) io"
  k_ctx_err :: "'s \<Rightarrow> error option"
  k_CommitUncommittedOffsets :: "('s, unit) io"
  k_Ping :: "('s, unit) io"
  k_Close :: "('s, unit) io"

record kafka_options =
  ko_group :: string
  ko_topics :: "string list"

record kafka_client =
  kc_addresses :: "string list"
  kc_group :: string

definition WithConsumerGroup :: "string \<Rightarrow> string list \<Rightarrow> kafka_options \<Rightarrow> kafka_options" where
  "WithConsumerGroup grp topics opts = opts\<lparr>ko_group := grp, ko_topics := topics\<rparr>"

definition kafka_kopts :: "string list \<Rightarrow> kafka_options \<Rightarrow> kopt list" where
  "kafka_kopts addrs opts =
     [SeedBrokers addrs] @
     (if ko_group opts \<noteq> []
      then [ConsumerGroupOpt (ko_group opts), ConsumeTopics (ko_topics opts), ConsumeResetOffsetAtStart, DisableAutoCommit]
      else [AllowAutoTopicCreation])"

definition NewClient ::
  "'s kgo_ops \<Rightarrow> string list \<Rightarrow> (kafka_options \<Rightarrow> kafka_options) list \<Rightarrow> ('s, kafka_client) io" where
  "NewClient k brokerAddresses opts =
     (if length brokerAddresses = 0 then failS (ErrExt ''no broker addresses supplied'')
      else let cfg = foldl (\<lambda>c opt. opt c) \<lparr>ko_group = [], ko_topics = []\<rparr> opts in
        bindS (wrapS (\<lambda>e. Wrap ''error creating Kafka client: '' e []) (k_NewClient k (kafka_kopts brokerAddresses cfg)))
          (\<lambda>_. returnS \<lparr>kc_addresses = brokerAddresses, kc_group = ko_group cfg\<rparr>))"

definition kafka_Publish :: "'d decimal_ops \<Rightarrow> 's kgo_ops \<Rightarrow> 'd event \<Rightarrow> ('s, unit) io" where
  "kafka_Publish dec k ev =
     bindS (liftS (Encode dec (Some ev))) (\<lambda>value.
       k_ProduceSync k \<lparr>kr_Topic = e_Topic ev, kr_Key = e_Key ev, kr_Value = value, kr_Partition = 0, kr_Offset = 0\<rparr>)"

definition kafka_Close :: "'s kgo_ops \<Rightarrow> ('s, unit) io" where
  "kafka_Close k = bindS (k_Close k) (\<lambda>_. returnS ())"

definition kafka_Ping :: "'s kgo_ops \<Rightarrow> ('s, unit) io" where
  "kafka_Ping k = k_Ping k"

text \<open>Decoding of the records of a poll: the events in order, and the errors in order.\<close>

fun decode_records :: "kgo_record list \<Rightarrow> 'd event list \<times> error list" where
  "decode_records [] = ([], [])"
| "decode_records (r # rs) =
     (let (evs, errs) = decode_records rs in
      case Decode (kr_Topic r) (kr_Key r) (kr_Value r) of
        Ok ev \<Rightarrow> (ev # evs, errs)
      | Fail e \<Rightarrow> (evs, Wrap (''record '' @ kr_Topic r @ ''['' @ print_int (kr_Partition r) @ '']@'' @ print_int (kr_Offset r) @ '': '') e [] # errs)
      | Panic \<Rightarrow> (evs, errs))"

definition fetch_errors :: "fetch_error list \<Rightarrow> error list" where
  "fetch_errors fes =
     map (\<lambda>fe. Wrap (''fetch '' @ fe_Topic fe @ ''['' @ print_int (fe_Partition fe) @ '']: '') (fe_Err fe) []) fes"

definition kafka_Poll :: "'s kgo_ops \<Rightarrow> kafka_client \<Rightarrow> ('s, 'd event list) io" where
  "kafka_Poll k c =
     (if kc_group c = [] then failS ErrNotConsumer
      else bindS (k_PollFetches k) (\<lambda>(fes, rs) s.
        case k_ctx_err k s of
          Some err \<Rightarrow> (Fail err, s)
        | None \<Rightarrow>
            let (events, decodeErrs) = decode_records rs; errs = fetch_errors fes @ decodeErrs
            in if length events = 0 \<and> 0 < length errs then (Fail (Join errs), s) else (Ok events, s)))"

definition kafka_Commit :: "'s kgo_ops \<Rightarrow> kafka_client \<Rightarrow> ('s, unit) io" where
  "kafka_Commit k c = (if kc_group c = [] then failS ErrNotConsumer else k_CommitUncommittedOffsets k)"

definition kafka_publisher :: "'d decimal_ops \<Rightarrow> 's kgo_ops \<Rightarrow> ('d, 's) publisher" where
  "kafka_publisher dec k = \<lparr>pub_Publish = kafka_Publish dec k, pub_Close = kafka_Close k, pub_Ping = kafka_Ping k\<rparr>"

definition kafka_consumer :: "'s kgo_ops \<Rightarrow> kafka_client \<Rightarrow> ('d, 's) consumer" where
  "kafka_consumer k c = \<lparr>con_Poll = kafka_Poll k c, con_Commit = kafka_Commit k c, con_Ping = kafka_Ping k\<rparr>"

section \<open>Contracts\<close>

text \<open>A record of the broker's log as the consumers see it.\<close>

type_synonym wire = "string \<times> string \<times> string"

text \<open>Publishing leaves the database alone and does not panic.\<close>

locale publisher_ok =
  fixes pub :: "('d, 's) publisher" and tables :: "'s \<Rightarrow> 'd tables"
  assumes Publish_tables: "pub_Publish pub ev s = (r, s') \<Longrightarrow> tables s' = tables s"
    and Publish_no_panic: "pub_Publish pub ev s \<noteq> (Panic, s')"

text \<open>
  A success of the produce call means that the record is in the log; after a failure it may
  or may not be (an acknowledgement can be lost).
\<close>

locale kgo =
  fixes k :: "'s kgo_ops" and tables :: "'s \<Rightarrow> 'd tables" and blog :: "'s \<Rightarrow> wire list"
  assumes produce_tables: "k_ProduceSync k rec s = (r, s') \<Longrightarrow> tables s' = tables s"
    and produce_no_panic: "k_ProduceSync k rec s \<noteq> (Panic, s')"
    and produce_Ok: "k_ProduceSync k rec s = (Ok u, s') \<Longrightarrow> blog s' = blog s @ [(kr_Topic rec, kr_Key rec, kr_Value rec)]"
    and produce_Fail: "k_ProduceSync k rec s = (Fail e, s') \<Longrightarrow>
      blog s' = blog s \<or> blog s' = blog s @ [(kr_Topic rec, kr_Key rec, kr_Value rec)]"

locale acked_publisher = publisher_ok pub tables
  for dec :: "'d decimal_ops" and pub :: "('d, 's) publisher" and tables :: "'s \<Rightarrow> 'd tables" and blog :: "'s \<Rightarrow> wire list" +
  assumes Publish_Ok: "pub_Publish pub ev s = (Ok u, s') \<Longrightarrow>
      \<exists>value. Encode dec (Some ev) = Ok value \<and> blog s' = blog s @ [(e_Topic ev, e_Key ev, value)]"
    and Publish_Fail: "pub_Publish pub ev s = (Fail e, s') \<Longrightarrow>
      blog s' = blog s \<or> (\<exists>value. Encode dec (Some ev) = Ok value \<and> blog s' = blog s @ [(e_Topic ev, e_Key ev, value)])"

lemma noop_publisher_ok: "publisher_ok noop_publisher tables"
  by unfold_locales (simp_all add: noop_publisher_def noop_Publish_def)

lemma Encode_no_panic: "Encode dec p \<noteq> Panic"
  by (auto simp: Encode_def Event_Validate_def marshal_data_def marshal_raw_def marshal_envelope_def marshal_time_def
      split: option.splits if_splits event_data.splits)

context kgo
begin

lemma kafka_Publish_cases:
  assumes "kafka_Publish dec k ev s = (r, s')"
  obtains e where "r = Fail e" "s' = s"
  | v where "Encode dec (Some ev) = Ok v"
      "k_ProduceSync k \<lparr>kr_Topic = e_Topic ev, kr_Key = e_Key ev, kr_Value = v, kr_Partition = 0, kr_Offset = 0\<rparr> s = (r, s')"
  using assms Encode_no_panic [of dec "Some ev"]
  by (cases "Encode dec (Some ev)") (auto simp: kafka_Publish_def go_simps)

lemma kafka_acked: "acked_publisher dec (kafka_publisher dec k) tables blog"
proof
  fix ev s r s'
  assume "pub_Publish (kafka_publisher dec k) ev s = (r, s')"
  then have a: "kafka_Publish dec k ev s = (r, s')" by (simp add: kafka_publisher_def)
  from a show "tables s' = tables s" by (cases rule: kafka_Publish_cases) (auto dest: produce_tables)
next
  fix ev s s'
  show "pub_Publish (kafka_publisher dec k) ev s \<noteq> (Panic, s')"
  proof
    assume "pub_Publish (kafka_publisher dec k) ev s = (Panic, s')"
    then have a: "kafka_Publish dec k ev s = (Panic, s')" by (simp add: kafka_publisher_def)
    then show False by (cases rule: kafka_Publish_cases) (auto simp: produce_no_panic)
  qed
next
  fix ev s u s'
  assume "pub_Publish (kafka_publisher dec k) ev s = (Ok u, s')"
  then have a: "kafka_Publish dec k ev s = (Ok u, s')" by (simp add: kafka_publisher_def)
  then show "\<exists>value. Encode dec (Some ev) = Ok value \<and> blog s' = blog s @ [(e_Topic ev, e_Key ev, value)]"
    by (cases rule: kafka_Publish_cases) (auto dest: produce_Ok)
next
  fix ev s e s'
  assume "pub_Publish (kafka_publisher dec k) ev s = (Fail e, s')"
  then have a: "kafka_Publish dec k ev s = (Fail e, s')" by (simp add: kafka_publisher_def)
  then show "blog s' = blog s \<or> (\<exists>value. Encode dec (Some ev) = Ok value \<and> blog s' = blog s @ [(e_Topic ev, e_Key ev, value)])"
    by (cases rule: kafka_Publish_cases) (auto dest: produce_Fail)
qed

end

sublocale kgo \<subseteq> kafka: acked_publisher dec "kafka_publisher dec k" tables blog
  for dec
  by (rule kafka_acked)

section \<open>A reference broker\<close>

text \<open>
  The in-memory engine extended by a broker (one log, a schedule of failing produce calls,
  the position of the consumer group and its committed offset) by the runners of the
  background loops, and by what the notifier wrote.
\<close>

record world = mem +
  w_log :: "wire list"
  w_pub_faults :: "bool list"
  w_pos :: nat
  w_committed :: nat
  w_relay_runner :: runner
  w_notifier_runner :: runner
  w_sunk :: "notification list"
  w_file :: "string list"
  w_file_faults :: "bool list"

definition world_produce :: "kgo_record \<Rightarrow> (world, unit) io" where
  "world_produce rec s =
     (let s1 = s\<lparr>w_pub_faults := tl (w_pub_faults s)\<rparr> in
      if w_pub_faults s \<noteq> [] \<and> hd (w_pub_faults s) then (Fail (ErrExt ''broker''), s1)
      else (Ok (), s1\<lparr>w_log := w_log s @ [(kr_Topic rec, kr_Key rec, kr_Value rec)]\<rparr>))"

definition world_poll :: "(world, fetch_error list \<times> kgo_record list) io" where
  "world_poll s =
     (Ok ([], map (\<lambda>(i, (t, k, v)). \<lparr>kr_Topic = t, kr_Key = k, kr_Value = v, kr_Partition = 0, kr_Offset = int i\<rparr>)
        (drop (w_pos s) (enumerate 0 (w_log s)))), s\<lparr>w_pos := length (w_log s)\<rparr>)"

definition world_kgo :: "world kgo_ops" where
  "world_kgo =
     \<lparr>k_NewClient = (\<lambda>_. returnS ()), k_ProduceSync = world_produce, k_PollFetches = world_poll, k_ctx_err = (\<lambda>_. None),
      k_CommitUncommittedOffsets = (\<lambda>s. (Ok (), s\<lparr>w_committed := w_pos s\<rparr>)), k_Ping = returnS (), k_Close = returnS ()\<rparr>"

definition world_with :: "dec10 tables \<Rightarrow> bool list \<Rightarrow> world" where
  "world_with T faults =
     \<lparr>m_tables = T, m_faults = [], m_clock = zero_time, w_log = [], w_pub_faults = faults, w_pos = 0, w_committed = 0,
      w_relay_runner = new_runner, w_notifier_runner = new_runner,
      w_sunk = [], w_file = [], w_file_faults = []\<rparr>"

interpretation world_kgo: kgo world_kgo m_tables w_log
  by unfold_locales (auto simp: world_kgo_def world_produce_def Let_def split: if_splits)

end
