(* ===== verification/Relay.thy ===== *)
theory Relay
  imports Orders Messaging "HOL-Library.Sublist"
begin

text \<open>
  The outbox relay of the orders service (\<^verbatim>\<open>services/orders/relay.go\<close>). Publishing a row,
  draining the outbox and the poll loop, over any outbox store and any publisher. Draining
  may run forever, so it is a partial function whose value is \<open>None\<close> when it does not return.
\<close>

section \<open>The relayer\<close>

record ('d, 's) outbox_relayer =
  or_outboxStore :: "('d, 's) db_ops"
  or_publisher :: "('d, 's) publisher"
  or_pollInterval :: int
  or_batchSize :: int
  or_runner :: "'s slot"

definition defaultPollInterval :: int where "defaultPollInterval = 1000000000"
definition defaultBatchSize :: int where "defaultBatchSize = 100"

definition WithPollInterval :: "int \<Rightarrow> ('d, 's) outbox_relayer \<Rightarrow> ('d, 's) outbox_relayer" where
  "WithPollInterval d rl = rl\<lparr>or_pollInterval := d\<rparr>"

definition WithBatchSize :: "int \<Rightarrow> ('d, 's) outbox_relayer \<Rightarrow> ('d, 's) outbox_relayer" where
  "WithBatchSize n rl = rl\<lparr>or_batchSize := n\<rparr>"

definition NewOutboxRelayer ::
  "'s slot \<Rightarrow> ('d, 's) db_ops \<Rightarrow> ('d, 's) publisher \<Rightarrow> (('d, 's) outbox_relayer \<Rightarrow> ('d, 's) outbox_relayer) list \<Rightarrow> ('d, 's) outbox_relayer" where
  "NewOutboxRelayer slot db pub opts =
     foldl (\<lambda>rl opt. opt rl)
       \<lparr>or_outboxStore = db, or_publisher = pub, or_pollInterval = defaultPollInterval, or_batchSize = defaultBatchSize,
        or_runner = slot\<rparr> opts"

section \<open>Publishing\<close>

text \<open>
  Failures are logged and swallowed: the result is success unless something panics. \<open>clock\<close>
  is the current time.
\<close>

definition publish :: "('d, 's) outbox_relayer \<Rightarrow> ('s \<Rightarrow> time) \<Rightarrow> outbox_item \<Rightarrow> ('s, unit) io" where
  "publish rl clock item s =
     (case Decode (ob_Topic item) (ob_PartitionKey item) (ob_Data item) of
        Fail e \<Rightarrow> (Ok (), s)
      | Panic \<Rightarrow> (Panic, s)
      | Ok ev \<Rightarrow>
          (case pub_Publish (or_publisher rl) ev s of
             (Fail e, s1) \<Rightarrow> (Ok (), s1)
           | (Panic, s1) \<Rightarrow> (Panic, s1)
           | (Ok _, s1) \<Rightarrow>
               (case db_SetPublishedAt (or_outboxStore rl) (ob_ID item) (clock s1) s1 of
                  (Panic, s2) \<Rightarrow> (Panic, s2)
                | (_, s2) \<Rightarrow> (Ok (), s2))))"

fun publish_all :: "('d, 's) outbox_relayer \<Rightarrow> ('s \<Rightarrow> time) \<Rightarrow> outbox_item list \<Rightarrow> ('s, unit) io" where
  "publish_all rl clock [] = returnS ()"
| "publish_all rl clock (item # items) = bindS (publish rl clock item) (\<lambda>_. publish_all rl clock items)"

definition claim :: "('d, 's) outbox_relayer \<Rightarrow> ('s, outbox_item list) io" where
  "claim rl = db_GetOutboxItems (or_outboxStore rl)
     (Some \<lparr>OnlyUnpublished = True, OnlyUndelivered = False, QLimit = or_batchSize rl\<rparr>)"

partial_function (option) drain :: "('d, 's) outbox_relayer \<Rightarrow> ('s \<Rightarrow> time) \<Rightarrow> 's \<Rightarrow> (unit res \<times> 's) option" where
  "drain rl clock s =
     (case claim rl s of
        (Fail e, s1) \<Rightarrow> Some (Ok (), s1)
      | (Panic, s1) \<Rightarrow> Some (Panic, s1)
      | (Ok items, s1) \<Rightarrow>
          if length items < 1 then Some (Ok (), s1)
          else case publish_all rl clock items s1 of
            (Ok _, s2) \<Rightarrow>
              if int (length items) < or_batchSize rl then Some (Ok (), s2) else drain rl clock s2
          | (Fail e, s2) \<Rightarrow> Some (Fail e, s2)
          | (Panic, s2) \<Rightarrow> Some (Panic, s2))"

declare drain.simps [code]

text \<open>The poll loop on the events of its select statement: a tick drains, a cancellation returns.\<close>

datatype run_event = Tick | Done

fun run_loop :: "('d, 's) outbox_relayer \<Rightarrow> ('s \<Rightarrow> time) \<Rightarrow> run_event list \<Rightarrow> 's \<Rightarrow> (unit res \<times> 's) option" where
  "run_loop rl clock [] s = Some (Ok (), s)"
| "run_loop rl clock (Done # es) s = Some (Ok (), s)"
| "run_loop rl clock (Tick # es) s =
     (case drain rl clock s of
        None \<Rightarrow> None
      | Some (Ok _, s') \<Rightarrow> run_loop rl clock es s'
      | Some (Fail e, s') \<Rightarrow> Some (Fail e, s')
      | Some (Panic, s') \<Rightarrow> Some (Panic, s'))"

text \<open>\<^verbatim>\<open>time.NewTicker\<close> panics on an interval that is not positive.\<close>

definition run :: "('d, 's) outbox_relayer \<Rightarrow> ('s \<Rightarrow> time) \<Rightarrow> run_event list \<Rightarrow> 's \<Rightarrow> (unit res \<times> 's) option" where
  "run rl clock es s = (if or_pollInterval rl \<le> 0 then Some (Panic, s) else run_loop rl clock es s)"

definition Relayer_Ping :: "('d, 's) outbox_relayer \<Rightarrow> ('s, unit) io" where
  "Relayer_Ping rl = pub_Ping (or_publisher rl)"

subsection \<open>Life cycle\<close>

text \<open>The poll loop runs in the background: starting it is a transition of the runner.\<close>

definition Relayer_Start :: "('d, 's) outbox_relayer \<Rightarrow> ('s, unit) io" where
  "Relayer_Start rl =
     bindS (pub_Ping (or_publisher rl)) (\<lambda>_ s. (Ok (), start_in (or_runner rl) s))"

definition Relayer_Stop :: "('d, 's) outbox_relayer \<Rightarrow> 's \<Rightarrow> (unit res \<times> 's) option" where
  "Relayer_Stop rl s = map_option (pub_Close (or_publisher rl)) (stop_in (or_runner rl) s)"

definition relayer_of :: "('d, 's) outbox_relayer \<Rightarrow> 's relayer" where
  "relayer_of rl = \<lparr>rl_Start = Relayer_Start rl, rl_Stop = Relayer_Stop rl, rl_Ping = Relayer_Ping rl\<rparr>"

section \<open>What the relay may rely on\<close>

text \<open>
  The outbox, a publisher that writes to the broker's log, and their independence: the
  outbox operations of the relay do not write to the log.
\<close>

locale relay_env = outbox_store db tables timecol + acked_publisher dec pub tables blog
  for dec :: "'d decimal_ops" and db :: "('d, 's) db_ops" and pub :: "('d, 's) publisher"
    and tables :: "'s \<Rightarrow> 'd tables" and timecol :: "time \<Rightarrow> time" and blog :: "'s \<Rightarrow> wire list" +
  assumes claim_blog: "db_GetOutboxItems db q s = (rs, s') \<Longrightarrow> blog s' = blog s"
    and mark_blog: "db_SetPublishedAt db uid t s = (r, s') \<Longrightarrow> blog s' = blog s"

text \<open>
  A row that can be shipped as it is: its data decodes under its routing columns, and the
  decoded event encodes to the same bytes.
\<close>

definition shippable :: "'d decimal_ops \<Rightarrow> outbox_item \<Rightarrow> bool" where
  "shippable dec r \<longleftrightarrow> (\<exists>ev :: 'd event. Decode (ob_Topic r) (ob_PartitionKey r) (ob_Data r) = Ok ev \<and>
     Encode dec (Some ev) = Ok (ob_Data r))"

definition row_wire :: "outbox_item \<Rightarrow> wire" where
  "row_wire r = (ob_Topic r, ob_PartitionKey r, ob_Data r)"

lemma Decode_routing: "Decode topic key v = Ok ev \<Longrightarrow> e_Topic ev = topic \<and> e_Key ev = key"
  by (auto simp: Decode_def split: option.splits)

lemma Decode_no_panic: "Decode topic key v \<noteq> Panic"
  by (simp add: Decode_def split: option.splits)

text \<open>The invariant of the relay: rows are shippable, and a published row is in the log.\<close>

definition relay_inv :: "'d decimal_ops \<Rightarrow> 'd tables \<Rightarrow> wire list \<Rightarrow> bool" where
  "relay_inv dec T blog \<longleftrightarrow> db_ok T \<and>
     (\<forall>r \<in> set (tb_outbox T). shippable dec r \<and> (ob_PublishedAt r \<noteq> None \<longrightarrow> row_wire r \<in> set blog))"

lemma mark_ids [simp]: "map ob_ID (mark col t P rows) = map ob_ID rows"
  "map ob_EventID (mark col t P rows) = map ob_EventID rows"
  "map row_wire (mark col t P rows) = map row_wire rows"
  by (auto simp: mark_def row_wire_def; cases col; simp)+

lemma published_columns [simp]:
  "shippable dec (r\<lparr>ob_PublishedAt := t\<rparr>) = shippable dec r" "row_wire (r\<lparr>ob_PublishedAt := t\<rparr>) = row_wire r"
  "shippable dec (r\<lparr>ob_DeliveredAt := t\<rparr>) = shippable dec r" "row_wire (r\<lparr>ob_DeliveredAt := t\<rparr>) = row_wire r"
  by (simp_all add: shippable_def row_wire_def)

lemma db_ok_mark: "db_ok T \<Longrightarrow> db_ok (T\<lparr>tb_outbox := mark col t P (tb_outbox T)\<rparr>)"
  by (simp add: db_ok_def outbox_ok_def)

lemma shippable_set_column [simp]: "shippable dec (set_column col t r) = shippable dec r"
  by (cases col) (simp_all add: shippable_def)

lemma row_wire_set_column [simp]: "row_wire (set_column col t r) = row_wire r"
  by (cases col) (simp_all add: row_wire_def)


section \<open>What the relay does to the outbox and to the log\<close>

text \<open>
  A relay cycle only stamps rows as published and only appends to the log, and it keeps the
  invariant.
\<close>

definition forwarded :: "outbox_item list \<Rightarrow> outbox_item list \<Rightarrow> bool" where
  "forwarded = list_all2 (\<lambda>r r'. r' = r \<or> (\<exists>t. r' = r\<lparr>ob_PublishedAt := Some t\<rparr>))"

definition relayed :: "'d decimal_ops \<Rightarrow> 'd tables \<times> wire list \<Rightarrow> 'd tables \<times> wire list \<Rightarrow> bool" where
  "relayed dec = (\<lambda>(T, L) (T', L'). relay_inv dec T' L' \<and> prefix L L' \<and>
     forwarded (tb_outbox T) (tb_outbox T') \<and> T' = T\<lparr>tb_outbox := tb_outbox T'\<rparr>)"

lemma forwarded_refl: "forwarded rows rows"
  by (simp add: forwarded_def list_all2_refl)

lemma forwarded_trans: "forwarded a b \<Longrightarrow> forwarded b c \<Longrightarrow> forwarded a c"
  unfolding forwarded_def by (erule (1) list_all2_trans [rotated]) auto

lemma forwarded_mark: "forwarded rows (mark PublishedAtCol t P rows)"
  by (auto simp: forwarded_def mark_def list_all2_map2 list_all2_same)

lemma forwarded_row:
  assumes "forwarded rows rows'" and "r' \<in> set rows'"
  obtains r where "r \<in> set rows" "ob_ID r' = ob_ID r" "row_wire r' = row_wire r"
proof -
  from assms obtain i where "i < length rows" "r' = rows' ! i" 
    by (auto simp: forwarded_def in_set_conv_nth dest: list_all2_lengthD)
  with assms(1) have "rows ! i \<in> set rows" "ob_ID r' = ob_ID (rows ! i)" "row_wire r' = row_wire (rows ! i)"
    by (auto simp: forwarded_def row_wire_def dest!: list_all2_nthD [where p = i])
  with that show thesis by blast
qed

lemma relayed_refl: "relay_inv dec T L \<Longrightarrow> relayed dec (T, L) (T, L)"
  by (simp add: relayed_def forwarded_refl)

lemma relayed_trans: "relayed dec a b \<Longrightarrow> relayed dec b c \<Longrightarrow> relayed dec a c"
proof -
  assume a: "relayed dec a b" and b: "relayed dec b c"
  obtain T L T1 L1 T2 L2 where e: "a = (T, L)" "b = (T1, L1)" "c = (T2, L2)" by (metis surj_pair)
  from a b have "T1 = T\<lparr>tb_outbox := tb_outbox T1\<rparr>" "T2 = T1\<lparr>tb_outbox := tb_outbox T2\<rparr>" by (simp_all add: relayed_def e)
  then have "T2 = T\<lparr>tb_outbox := tb_outbox T2\<rparr>" by (cases T; cases T1; cases T2) simp
  with a b e show ?thesis unfolding relayed_def by (auto intro: forwarded_trans prefix_order.trans)
qed

lemma relay_inv_append: "relay_inv dec T L \<Longrightarrow> relay_inv dec T (L @ M)"
  by (auto simp: relay_inv_def)

text \<open>Rows read earlier: shippable, and the current row of that identifier carries the same message.\<close>

definition snapshot :: "'d decimal_ops \<Rightarrow> 'd tables \<Rightarrow> outbox_item list \<Rightarrow> bool" where
  "snapshot dec T items \<longleftrightarrow> (\<forall>it \<in> set items. shippable dec it \<and>
     (\<forall>r \<in> set (tb_outbox T). ob_ID r = ob_ID it \<longrightarrow> row_wire r = row_wire it))"

lemma snapshot_relayed: "snapshot dec T items \<Longrightarrow> relayed dec (T, L) (T', L') \<Longrightarrow> snapshot dec T' items"
  unfolding snapshot_def relayed_def by (auto elim!: forwarded_row)

lemma relay_inv_mark:
  assumes "relay_inv dec T L" and "snapshot dec T [item]"
  shows "relay_inv dec (T\<lparr>tb_outbox := mark PublishedAtCol t (\<lambda>r. ob_ID r = ob_ID item) (tb_outbox T)\<rparr>) (L @ [row_wire item])"
  using assms by (auto simp: relay_inv_def snapshot_def db_ok_mark) (auto simp: mark_def split: if_splits)

lemma relayed_mark:
  assumes "relay_inv dec T L" and "snapshot dec T [item]"
  shows "relayed dec (T, L) (T\<lparr>tb_outbox := mark PublishedAtCol t (\<lambda>r. ob_ID r = ob_ID item) (tb_outbox T)\<rparr>, L @ [row_wire item])"
  using relay_inv_mark [OF assms] by (simp add: relayed_def forwarded_mark)

lemma snapshot_rows:
  assumes "relay_inv dec T L" and "set items \<subseteq> set (tb_outbox T)"
  shows "snapshot dec T items"
proof -
  have d: "distinct (map ob_ID (tb_outbox T))" using assms(1) by (simp add: relay_inv_def db_ok_def outbox_ok_def)
  have "row_wire r = row_wire it" if "r \<in> set (tb_outbox T)" "it \<in> set items" "ob_ID r = ob_ID it" for r it
    using distinct_map_inj_on [OF d that(1) _ that(3)] that(2) assms(2) by auto
  with assms show ?thesis unfolding snapshot_def relay_inv_def by auto
qed

lemma outbox_view_subset: "set (outbox_view q rows) \<subseteq> set rows"
  by (auto simp: outbox_view_def limited_def split: option.splits dest!: in_set_takeD)

context relay_env
begin

lemma claim_cases:
  assumes "or_outboxStore rl = db" and "claim rl s = (r, s1)"
  shows "tables s1 = tables s \<and> blog s1 = blog s \<and> r \<noteq> Panic \<and>
    (\<forall>items. r = Ok items \<longrightarrow> items = outbox_view (Some \<lparr>OnlyUnpublished = True, OnlyUndelivered = False, QLimit = or_batchSize rl\<rparr>)
       (tb_outbox (tables s)))"
proof -
  from assms have c: "db_GetOutboxItems db (Some \<lparr>OnlyUnpublished = True, OnlyUndelivered = False, QLimit = or_batchSize rl\<rparr>) s = (r, s1)"
    by (simp add: claim_def)
  show ?thesis
    using stmt_read [OF GetOutboxItems c] claim_blog [OF c] stmt_no_panic [OF GetOutboxItems] stmt_Ok [OF GetOutboxItems] c by metis
qed

lemma publish_cases:
  assumes "or_outboxStore rl = db" "or_publisher rl = pub" "db_ok (tables s)" "shippable dec item"
    and p: "publish rl clock item s = (r, s')"
  shows "r = Ok () \<and> (tables s' = tables s \<and> (blog s' = blog s \<or> blog s' = blog s @ [row_wire item]) \<or>
    (\<exists>t. tables s' = (tables s)\<lparr>tb_outbox := mark PublishedAtCol t (\<lambda>r. ob_ID r = ob_ID item) (tb_outbox (tables s))\<rparr> \<and>
         blog s' = blog s @ [row_wire item]))"
proof -
  from assms(4) obtain ev :: "'d event" where ev: "Decode (ob_Topic item) (ob_PartitionKey item) (ob_Data item) = Ok ev"
      "Encode dec (Some ev) = Ok (ob_Data item)" by (auto simp: shippable_def)
  have w: "(e_Topic ev, e_Key ev, ob_Data item) = row_wire item"
    using Decode_routing [OF ev(1)] by (simp add: row_wire_def)
  obtain r1 s1 where pp: "pub_Publish pub ev s = (r1, s1)" by fastforce
  have t1: "tables s1 = tables s" by (rule Publish_tables [OF pp])
  show ?thesis
  proof (cases r1)
    case (Fail e)
    with Publish_Fail [of ev s e s1] pp ev w t1 p assms(1,2) show ?thesis by (auto simp: publish_def)
  next
    case Panic
    with Publish_no_panic pp show ?thesis by metis
  next
    case (Ok u)
    with Publish_Ok [of ev s u s1] pp ev w have b1: "blog s1 = blog s @ [row_wire item]" by auto
    obtain r2 s2 where m: "db_SetPublishedAt db (ob_ID item) (clock s1) s1 = (r2, s2)" by fastforce
    from mark_blog [OF m] b1 have b2: "blog s2 = blog s @ [row_wire item]" by simp
    from SetPublishedAt [of "clock s1" "ob_ID item"] assms(3) t1 m b2 show ?thesis
      using p assms(1,2) ev pp Ok by (cases r2) (auto simp: publish_def strict_mark_def dest!: spec [of _ s1])
  qed
qed

lemma publish_relayed:
  assumes "or_outboxStore rl = db" "or_publisher rl = pub" and inv: "relay_inv dec (tables s) (blog s)"
    and snap: "snapshot dec (tables s) [item]" and "publish rl clock item s = (r, s')"
  shows "r = Ok () \<and> relayed dec (tables s, blog s) (tables s', blog s')"
  using publish_cases [OF assms(1,2) _ _ assms(5)] inv snap relayed_mark [OF inv snap] relayed_refl [OF inv]
    relay_inv_append [OF inv]
  by (auto simp: relay_inv_def snapshot_def relayed_def forwarded_refl)

lemma publish_all_relayed:
  assumes "or_outboxStore rl = db" "or_publisher rl = pub"
  shows "relay_inv dec (tables s) (blog s) \<Longrightarrow> snapshot dec (tables s) items \<Longrightarrow> publish_all rl clock items s = (r, s') \<Longrightarrow>
    r = Ok () \<and> relayed dec (tables s, blog s) (tables s', blog s')"
proof (induction items arbitrary: s)
  case Nil
  then show ?case by (simp add: relayed_refl)
next
  case (Cons item items)
  obtain r1 s1 where p: "publish rl clock item s = (r1, s1)" by fastforce
  have "snapshot dec (tables s) [item]" "snapshot dec (tables s) items" using Cons.prems(2) by (simp_all add: snapshot_def)
  with publish_relayed [OF assms Cons.prems(1) _ p]
  have 1: "r1 = Ok ()" "relayed dec (tables s, blog s) (tables s1, blog s1)" "snapshot dec (tables s1) items"
    by (auto intro: snapshot_relayed)
  then have "relay_inv dec (tables s1) (blog s1)" by (simp add: relayed_def)
  from Cons.IH [OF this 1(3)] Cons.prems(3) p 1 show ?case by (auto simp: go_simps intro: relayed_trans)
qed

lemma drain_relayed:
  assumes "or_outboxStore rl = db" "or_publisher rl = pub"
    and d: "drain rl clock s = Some res" and "relay_inv dec (tables s) (blog s)"
  shows "fst res = Ok () \<and> relayed dec (tables s, blog s) (tables (snd res), blog (snd res))"
  using d assms(1,2,4)
proof (induction rule: drain.raw_induct [rotated 1, consumes 1, case_names step])
  case (step drn rl clock s res)
  obtain r1 s1 where c: "claim rl s = (r1, s1)" by fastforce
  note cl = claim_cases [OF step.prems(1) c]
  show ?case
  proof (cases r1)
    case (Ok items)
    have items: "set items \<subseteq> set (tb_outbox (tables s1))" using cl Ok outbox_view_subset by force
    from cl step.prems(3) have inv: "relay_inv dec (tables s1) (blog s1)" by simp
    obtain r2 s2 where p: "publish_all rl clock items s1 = (r2, s2)" by fastforce
    note pa = publish_all_relayed [OF step.prems(1,2) inv snapshot_rows [OF inv items] p]
    then have inv2: "relay_inv dec (tables s2) (blog s2)" by (simp add: relayed_def)
    have "if items = [] then res = (Ok (), s1) else if int (length items) < or_batchSize rl then res = (Ok (), s2)
      else drn rl clock s2 = Some res"
      using step.hyps c Ok p pa by (simp split: if_splits)
    then consider "res = (Ok (), s1)" | "res = (Ok (), s2)" | "drn rl clock s2 = Some res" by (auto split: if_splits)
    then show ?thesis
    proof cases
      case 3
      from step.IH [OF 3 step.prems(1,2) inv2] pa cl show ?thesis by (auto intro: relayed_trans)
    qed (use pa cl relayed_refl [OF inv] in simp_all)
  qed (use step.hyps c cl relayed_refl [OF step.prems(3)] in auto)
qed

end


section \<open>Progress\<close>

text \<open>The rows still to publish, oldest first.\<close>

abbreviation unpublished :: "outbox_item \<Rightarrow> bool" where
  "unpublished r \<equiv> ob_PublishedAt r = None"

definition backlog :: "outbox_item list \<Rightarrow> outbox_item list" where
  "backlog rows = sort_key ob_ID (filter unpublished rows)"

lemma filter_unpublished_mark:
  "filter unpublished (mark PublishedAtCol t (\<lambda>r. ob_ID r = u) rows) = filter (\<lambda>r. ob_ID r \<noteq> u) (filter unpublished rows)"
  by (induction rows) (simp_all add: mark_def)

lemma outbox_view_backlog:
  "outbox_view (Some \<lparr>OnlyUnpublished = True, OnlyUndelivered = False, QLimit = n\<rparr>) rows
    = (if 0 < n then take (nat n) (backlog rows) else backlog rows)"
proof -
  have "filter (outbox_selected (Some \<lparr>OnlyUnpublished = True, OnlyUndelivered = False, QLimit = n\<rparr>)) rows = filter unpublished rows"
    by (rule filter_cong) (simp_all add: outbox_selected_def)
  then show ?thesis by (simp add: outbox_view_def backlog_def limited_def)
qed

lemma distinct_backlog: "distinct (map ob_ID rows) \<Longrightarrow> distinct (map ob_ID (backlog rows))"
  unfolding backlog_def distinct_map by (auto intro: inj_on_subset)

lemma set_backlog: "set (backlog rows) = {r \<in> set rows. unpublished r}"
  by (simp add: backlog_def)

lemma filter_not_in_take:
  assumes "distinct (map f xs)"
  shows "filter (\<lambda>x. f x \<notin> f ` set (take n xs)) xs = drop n xs"
proof -
  have d: "distinct (map f (take n xs) @ map f (drop n xs))"
    using assms by (metis append_take_drop_id map_append)
  have "filter (\<lambda>x. f x \<notin> f ` set (take n xs)) (take n xs @ drop n xs) = [] @ drop n xs"
    unfolding filter_append using d
    by (intro arg_cong2 [where f = append]) (auto simp: filter_empty_conv filter_id_conv)
  then show ?thesis by simp
qed

lemma backlog_after_batch:
  assumes "distinct (map ob_ID rows)"
    and "filter unpublished rows' = filter (\<lambda>r. ob_ID r \<notin> ob_ID ` set (take n (backlog rows))) (filter unpublished rows)"
  shows "backlog rows' = drop n (backlog rows)"
proof -
  have "backlog rows' = filter (\<lambda>r. ob_ID r \<notin> ob_ID ` set (take n (backlog rows))) (backlog rows)"
    unfolding backlog_def assms(2) by (simp add: filter_sort)
  then show ?thesis using filter_not_in_take [OF distinct_backlog [OF assms(1)]] by simp
qed

text \<open>
  A store and a publisher that answer, in the states \<open>up\<close>. What a publication of a row adds to the
  messages sent is \<open>ship\<close>: the row's message for a broker, and nothing for the no-op client.
\<close>

locale marking_relay = outbox_store db tables timecol
  for db :: "('d, 's) db_ops" and tables :: "'s \<Rightarrow> 'd tables" and timecol :: "time \<Rightarrow> time" +
  fixes dec :: "'d decimal_ops" and pub :: "('d, 's) publisher" and sent :: "'s \<Rightarrow> 'm list"
    and ship :: "outbox_item \<Rightarrow> 'm list" and up :: "'s \<Rightarrow> bool"
  assumes claim_up: "up s \<Longrightarrow> \<exists>xs s'. db_GetOutboxItems db q s = (Ok xs, s') \<and> up s' \<and> sent s' = sent s"
    and publish_up: "up s \<Longrightarrow> shippable dec item \<Longrightarrow> Decode (ob_Topic item) (ob_PartitionKey item) (ob_Data item) = Ok ev \<Longrightarrow>
      \<exists>s'. pub_Publish pub ev s = (Ok (), s') \<and> up s' \<and> tables s' = tables s \<and> sent s' = sent s @ ship item"
    and mark_up: "up s \<Longrightarrow> db_ok (tables s) \<Longrightarrow> r \<in> set (tb_outbox (tables s)) \<Longrightarrow>
      \<exists>s'. db_SetPublishedAt db (ob_ID r) t s = (Ok (), s') \<and> up s' \<and> sent s' = sent s"
begin

lemma publish_ships:
  assumes "or_outboxStore rl = db" "or_publisher rl = pub" "up s" "db_ok (tables s)" "shippable dec item"
    and mem: "ob_ID item \<in> ob_ID ` set (tb_outbox (tables s))"
  shows "\<exists>t s'. publish rl clock item s = (Ok (), s') \<and> up s' \<and> sent s' = sent s @ ship item \<and>
    tables s' = (tables s)\<lparr>tb_outbox := mark PublishedAtCol t (\<lambda>r. ob_ID r = ob_ID item) (tb_outbox (tables s))\<rparr>"
proof -
  from assms(5) obtain ev :: "'d event" where ev: "Decode (ob_Topic item) (ob_PartitionKey item) (ob_Data item) = Ok ev"
    by (auto simp: shippable_def)
  from publish_up [OF assms(3,5) ev] obtain s1
    where p: "pub_Publish pub ev s = (Ok (), s1)" "up s1" "tables s1 = tables s" "sent s1 = sent s @ ship item" by blast
  from mem obtain r where "r \<in> set (tb_outbox (tables s1))" "ob_ID r = ob_ID item" using p(3) by auto
  with mark_up [OF p(2), of r "clock s1"] p(3) assms(4)
  obtain s2 where m: "db_SetPublishedAt db (ob_ID item) (clock s1) s1 = (Ok (), s2)" "up s2" "sent s2 = sent s1" by auto
  from SetPublishedAt [of "clock s1" "ob_ID item"] assms(4) p(3) m(1)
  have "tables s2 = (tables s)\<lparr>tb_outbox := mark PublishedAtCol (timecol (clock s1)) (\<lambda>r. ob_ID r = ob_ID item) (tb_outbox (tables s))\<rparr>"
    by (auto simp: strict_mark_def dest!: spec [of _ s1])
  with p ev m assms(1,2) show ?thesis by (auto simp: publish_def)
qed

definition ready :: "'s \<Rightarrow> bool" where
  "ready s \<longleftrightarrow> up s \<and> db_ok (tables s) \<and> list_all (shippable dec) (tb_outbox (tables s))"

lemma ready_mark:
  assumes "ready s" and "up s'" and "tables s' = (tables s)\<lparr>tb_outbox := mark col t P (tb_outbox (tables s))\<rparr>"
  shows "ready s'"
  using assms db_ok_mark [of "tables s" col t P] by (auto simp: ready_def mark_def list_all_iff)

lemma publish_all_ships:
  assumes rl: "or_outboxStore rl = db" "or_publisher rl = pub"
  shows "ready s \<Longrightarrow> list_all (shippable dec) items \<Longrightarrow> ob_ID ` set items \<subseteq> ob_ID ` set (tb_outbox (tables s)) \<Longrightarrow>
    \<exists>s'. publish_all rl clock items s = (Ok (), s') \<and> ready s' \<and> sent s' = sent s @ concat (map ship items) \<and>
      filter unpublished (tb_outbox (tables s'))
        = filter (\<lambda>r. ob_ID r \<notin> ob_ID ` set items) (filter unpublished (tb_outbox (tables s)))"
proof (induction items arbitrary: s)
  case (Cons item items)
  have "shippable dec item" "ob_ID item \<in> ob_ID ` set (tb_outbox (tables s))" "up s" "db_ok (tables s)"
    using Cons.prems by (auto simp: ready_def)
  from publish_ships [OF rl this(3,4,1,2), of clock]
  obtain t s1 where s1: "publish rl clock item s = (Ok (), s1)" "up s1" "sent s1 = sent s @ ship item"
    and t1: "tables s1 = (tables s)\<lparr>tb_outbox := mark PublishedAtCol t (\<lambda>r. ob_ID r = ob_ID item) (tb_outbox (tables s))\<rparr>"
    by blast
  have "ob_ID ` set (tb_outbox (tables s1)) = ob_ID ` set (tb_outbox (tables s))"
    unfolding t1 by simp (metis image_set mark_ids(1))
  then have "list_all (shippable dec) items" "ob_ID ` set items \<subseteq> ob_ID ` set (tb_outbox (tables s1))"
    using Cons.prems(2,3) by simp_all
  from Cons.IH [OF ready_mark [OF Cons.prems(1) s1(2) t1] this] obtain s2 where
      "publish_all rl clock items s1 = (Ok (), s2)" "ready s2" "sent s2 = sent s1 @ concat (map ship items)"
      "filter unpublished (tb_outbox (tables s2))
        = filter (\<lambda>r. ob_ID r \<notin> ob_ID ` set items) (filter unpublished (tb_outbox (tables s1)))"
    by blast
  moreover have "filter (\<lambda>r. ob_ID r \<notin> ob_ID ` set items) (filter (\<lambda>r. ob_ID r \<noteq> ob_ID item) rows)
      = filter (\<lambda>r. ob_ID r \<notin> ob_ID ` set (item # items)) rows" for rows
    by (induction rows) auto
  ultimately show ?case
    using s1 t1 by (simp add: go_simps filter_unpublished_mark del: filter_filter list.set)
qed simp

text \<open>A scan: the first rows of the backlog.\<close>

lemma claim_backlog:
  assumes "or_outboxStore rl = db" and "ready s"
  shows "\<exists>s1. claim rl s = (Ok (if 0 < or_batchSize rl then take (nat (or_batchSize rl)) (backlog (tb_outbox (tables s)))
      else backlog (tb_outbox (tables s))), s1) \<and> ready s1 \<and> tables s1 = tables s \<and> sent s1 = sent s"
proof -
  let ?q = "Some \<lparr>OnlyUnpublished = True, OnlyUndelivered = False, QLimit = or_batchSize rl\<rparr>"
  from assms(2) have "up s" by (simp add: ready_def)
  from claim_up [OF this, of ?q] obtain xs s1 where c: "db_GetOutboxItems db ?q s = (Ok xs, s1)" "up s1" "sent s1 = sent s" by blast
  from stmt_Ok [OF GetOutboxItems c(1)] have "tables s1 = tables s" "xs = outbox_view ?q (tb_outbox (tables s))" by auto
  with c assms show ?thesis by (auto simp: claim_def ready_def outbox_view_backlog)
qed

lemma drain_ships:
  assumes rl: "or_outboxStore rl = db" "or_publisher rl = pub"
  shows "ready s \<Longrightarrow> \<exists>s'. drain rl clock s = Some (Ok (), s') \<and> ready s' \<and> backlog (tb_outbox (tables s')) = [] \<and>
      sent s' = sent s @ concat (map ship (backlog (tb_outbox (tables s))))"
proof (induction "length (backlog (tb_outbox (tables s)))" arbitrary: s rule: less_induct)
  case less
  let ?B = "backlog (tb_outbox (tables s))" and ?n = "or_batchSize rl"
  let ?m = "if 0 < ?n then nat ?n else length ?B"
  let ?items = "take ?m ?B"
  from claim_backlog [OF rl(1) less.prems] obtain s1
    where c: "claim rl s = (Ok ?items, s1)" "ready s1" "tables s1 = tables s" "sent s1 = sent s" by (cases "0 < ?n") auto
  have sub: "set ?items \<subseteq> set (tb_outbox (tables s1))" using c(3) by (auto simp: set_backlog dest!: in_set_takeD)
  have "list_all (shippable dec) ?items" using sub c(2) by (auto simp: ready_def list_all_iff)
  from publish_all_ships [OF rl c(2) this] sub
  obtain s2 where p: "publish_all rl clock ?items s1 = (Ok (), s2)" "ready s2" "sent s2 = sent s1 @ concat (map ship ?items)"
      "filter unpublished (tb_outbox (tables s2)) = filter (\<lambda>r. ob_ID r \<notin> ob_ID ` set ?items) (filter unpublished (tb_outbox (tables s1)))"
    by blast
  have "distinct (map ob_ID (tb_outbox (tables s)))" using less.prems by (simp add: ready_def db_ok_def outbox_ok_def)
  with p(4) c(3) have rest: "backlog (tb_outbox (tables s2)) = drop ?m ?B" by (intro backlog_after_batch) simp_all
  note unfold = drain.simps [of rl clock s]
  consider "?items = []" | "?items \<noteq> []" "int (length ?items) < ?n" | "?items \<noteq> []" "\<not> int (length ?items) < ?n" by linarith
  then show ?case
  proof cases
    case 1
    then have "?B = []" by (auto split: if_splits)
    with 1 c show ?thesis by (simp add: unfold)
  next
    case 2
    then have "length ?B \<le> ?m" by (auto split: if_splits)
    then have "?items = ?B" "backlog (tb_outbox (tables s2)) = []" using rest by simp_all
    with 2 c p show ?thesis by (simp add: unfold)
  next
    case 3
    have "length (backlog (tb_outbox (tables s2))) < length ?B" using 3(1) rest by auto
    then obtain s3 where "drain rl clock s2 = Some (Ok (), s3)" "ready s3" "backlog (tb_outbox (tables s3)) = []"
        "sent s3 = sent s2 @ concat (map ship (drop ?m ?B))"
      using less.hyps p(2) rest by metis
    moreover have "concat (map ship ?items) @ concat (map ship (drop ?m ?B)) = concat (map ship ?B)"
      by (metis append_take_drop_id concat_append map_append)
    ultimately show ?thesis using 3 c p by (simp add: unfold)
  qed
qed

end

text \<open>Over a broker that acknowledges, the messages sent are the log.\<close>

locale reliable_relay = relay_env dec db pub tables timecol blog
  for dec :: "'d decimal_ops" and db :: "('d, 's) db_ops" and pub :: "('d, 's) publisher"
    and tables :: "'s \<Rightarrow> 'd tables" and timecol :: "time \<Rightarrow> time" and blog :: "'s \<Rightarrow> wire list" +
  fixes up :: "'s \<Rightarrow> bool"
  assumes claim_up: "up s \<Longrightarrow> \<exists>xs s'. db_GetOutboxItems db q s = (Ok xs, s') \<and> up s'"
    and publish_up: "up s \<Longrightarrow> Encode dec (Some ev) = Ok v \<Longrightarrow> \<exists>s'. pub_Publish pub ev s = (Ok (), s') \<and> up s'"
    and mark_up: "up s \<Longrightarrow> db_ok (tables s) \<Longrightarrow> r \<in> set (tb_outbox (tables s)) \<Longrightarrow>
      \<exists>s'. db_SetPublishedAt db (ob_ID r) t s = (Ok (), s') \<and> up s'"

sublocale reliable_relay \<subseteq> marking: marking_relay db tables timecol dec pub blog "\<lambda>r. [row_wire r]" up
proof unfold_locales
  fix s and item and ev :: "'d event"
  assume up: "up s" and ship: "shippable dec item" and ev: "Decode (ob_Topic item) (ob_PartitionKey item) (ob_Data item) = Ok ev"
  from ship ev have enc: "Encode dec (Some ev) = Ok (ob_Data item)" by (auto simp: shippable_def)
  from publish_up [OF up enc] obtain s' where p: "pub_Publish pub ev s = (Ok (), s')" "up s'" by blast
  with Publish_tables [OF p(1)] Publish_Ok [OF p(1)] enc Decode_routing [OF ev]
  show "\<exists>s'. pub_Publish pub ev s = (Ok (), s') \<and> up s' \<and> tables s' = tables s \<and> blog s' = blog s @ [row_wire item]"
    by (auto simp: row_wire_def)
qed (use claim_up claim_blog mark_up mark_blog in blast)+

context reliable_relay
begin

lemma drain_ships:
  assumes "or_outboxStore rl = db" "or_publisher rl = pub" "up s" "relay_inv dec (tables s) (blog s)"
  shows "\<exists>s'. drain rl clock s = Some (Ok (), s') \<and> up s' \<and> backlog (tb_outbox (tables s')) = [] \<and>
      blog s' = blog s @ map row_wire (backlog (tb_outbox (tables s)))"
proof -
  have "marking.ready s" using assms(3,4) by (simp add: marking.ready_def relay_inv_def list_all_iff)
  from marking.drain_ships [OF assms(1,2) this, of clock] show ?thesis by (auto simp: marking.ready_def concat_map_singleton)
qed

end

section \<open>Divergence\<close>

text \<open>A full batch that is read again unchanged after the attempt to publish it is read forever.\<close>

lemma drain_diverges:
  assumes stuck: "\<And>s. stuck s \<Longrightarrow> \<exists>items s1 s2. claim rl s = (Ok items, s1) \<and> items \<noteq> [] \<and>
      or_batchSize rl \<le> int (length items) \<and> publish_all rl clock items s1 = (Ok (), s2) \<and> stuck s2"
    and "stuck s"
  shows "drain rl clock s = None"
proof -
  have "\<not> stuck s" if "drain rl clock s = Some res" and "\<And>s. stuck s \<Longrightarrow> \<exists>items s1 s2. claim rl s = (Ok items, s1) \<and> items \<noteq> [] \<and>
      or_batchSize rl \<le> int (length items) \<and> publish_all rl clock items s1 = (Ok (), s2) \<and> stuck s2" for rl clock s res
    using that
  proof (induction rule: drain.raw_induct [rotated 1, consumes 1, case_names step])
    case (step drn rl clock s res)
    show ?case
    proof
      assume "stuck s"
      from step.prems [OF this] obtain items s1 s2 where "claim rl s = (Ok items, s1)" "items \<noteq> []"
        "or_batchSize rl \<le> int (length items)" "publish_all rl clock items s1 = (Ok (), s2)" "stuck s2" by blast
      with step.hyps have "drn rl clock s2 = Some res" by simp
      from step.IH [OF this step.prems] \<open>stuck s2\<close> show False by blast
    qed
  qed
  with assms show ?thesis by (cases "drain rl clock s") blast+
qed

section \<open>The relay over GORM and Kafka\<close>

text \<open>The outbox statements of the mapper do not write to the broker.\<close>

locale broker_db = gorm dec g tables numcol timecol + kgo k tables blog
  for dec :: "'d decimal_ops" and g :: "('d, 's) gorm_ops" and k :: "'s kgo_ops" and tables :: "'s \<Rightarrow> 'd tables"
    and numcol :: "'d \<Rightarrow> 'd" and timecol :: "time \<Rightarrow> time" and blog :: "'s \<Rightarrow> wire list" +
  assumes find_outbox_blog: "g_find_outbox g bq s = (rs, s') \<Longrightarrow> blog s' = blog s"
    and update_outbox_blog: "g_update_outbox g cs col t s = (n, s') \<Longrightarrow> blog s' = blog s"

lemma strict_update_state: "snd (strict_update c m s) = snd (m s)"
  by (cases "m s"; cases "fst (m s)") (auto simp: strict_update_def go_simps)

context broker_db
begin

lemma GormDB_claim_blog: "db_GetOutboxItems (GormDB g) q s = (rs, s') \<Longrightarrow> blog s' = blog s"
  by (auto simp: GormDB_def GetOutboxItems_def intro: find_outbox_blog)

lemma GormDB_mark_blog: "db_SetPublishedAt (GormDB g) uid t s = (n, s') \<Longrightarrow> blog s' = blog s"
  using strict_update_state [of _ "g_update_outbox g [OutboxIdEq uid] PublishedAtCol t" s]
  by (auto simp: GormDB_def SetPublishedAt_def setOutboxTimestamp_def prod_eq_iff intro: update_outbox_blog)

end

sublocale broker_db \<subseteq> relay: relay_env dec "GormDB g" "kafka_publisher dec k" tables timecol blog
  by unfold_locales (fact GormDB_claim_blog GormDB_mark_blog)+

context broker_db
begin

lemmas GormDB_drain = relay.drain_relayed

lemma GormDB_publish_down:
  assumes "or_outboxStore rl = GormDB g" "or_publisher rl = kafka_publisher dec k" "alive s"
    and down: "\<And>rec s. alive s \<Longrightarrow> \<exists>e s'. k_ProduceSync k rec s = (Fail e, s') \<and> alive s'"
  shows "\<exists>s'. publish rl clock item s = (Ok (), s') \<and> alive s' \<and> tables s' = tables s"
proof (cases "Decode (ob_Topic item) (ob_PartitionKey item) (ob_Data item) :: 'd event res")
  case (Ok ev)
  obtain e s' where "kafka_Publish dec k ev s = (Fail e, s')" "alive s'" "tables s' = tables s"
  proof (cases "Encode dec (Some ev)")
    case (Ok v)
    with down [OF assms(3)] that produce_tables show thesis by (fastforce simp: kafka_Publish_def go_simps)
  qed (use that assms(3) Encode_no_panic [of dec "Some ev"] in \<open>auto simp: kafka_Publish_def go_simps\<close>)
  with Ok assms(1,2) show ?thesis by (auto simp: publish_def kafka_publisher_def)
qed (use assms Decode_no_panic [of "ob_Topic item" "ob_PartitionKey item" "ob_Data item", where 'a = 'd] in \<open>auto simp: publish_def\<close>)

lemma GormDB_publish_all_down:
  assumes "or_outboxStore rl = GormDB g" "or_publisher rl = kafka_publisher dec k"
    and down: "\<And>rec s. alive s \<Longrightarrow> \<exists>e s'. k_ProduceSync k rec s = (Fail e, s') \<and> alive s'"
  shows "alive s \<Longrightarrow> \<exists>s'. publish_all rl clock items s = (Ok (), s') \<and> alive s' \<and> tables s' = tables s"
proof (induction items arbitrary: s)
  case (Cons item items)
  obtain s1 where "publish rl clock item s = (Ok (), s1)" "alive s1" "tables s1 = tables s"
    using GormDB_publish_down [where alive = alive, OF assms(1,2) Cons.prems down] by blast
  with Cons.IH [of s1] show ?case by (auto simp: go_simps)
qed simp

lemma GormDB_drain_down:
  assumes rl: "or_outboxStore rl = GormDB g" "or_publisher rl = kafka_publisher dec k"
    and down: "\<And>rec s. alive s \<Longrightarrow> \<exists>e s'. k_ProduceSync k rec s = (Fail e, s') \<and> alive s'"
    and reads: "\<And>q s. alive s \<Longrightarrow> \<exists>xs s'. g_find_outbox g q s = (Ok xs, s') \<and> alive s'"
    and "0 < or_batchSize rl" "or_batchSize rl \<le> int (length (backlog (tb_outbox (tables s))))" "alive s"
  shows "drain rl clock s = None"
proof (rule drain_diverges [where stuck = "\<lambda>s1. alive s1 \<and> tables s1 = tables s"])
  fix s1 assume s1: "alive s1 \<and> tables s1 = tables s"
  obtain items s2 where c: "claim rl s1 = (Ok items, s2)" "alive s2"
    using reads s1 unfolding claim_def rl GormDB_def GetOutboxItems_def db_ops.simps by blast
  note cl = relay.claim_cases [OF rl(1) c(1)]
  with s1 assms(5) have items: "items = take (nat (or_batchSize rl)) (backlog (tb_outbox (tables s)))"
    by (simp add: outbox_view_backlog)
  obtain s3 where "publish_all rl clock items s2 = (Ok (), s3)" "alive s3" "tables s3 = tables s2"
    using GormDB_publish_all_down [where alive = alive, OF rl down c(2)] by blast
  moreover have "items \<noteq> []" "or_batchSize rl \<le> int (length items)" unfolding items using assms(5,6) by auto
  ultimately show "\<exists>items s2 s3. claim rl s1 = (Ok items, s2) \<and> items \<noteq> [] \<and> or_batchSize rl \<le> int (length items) \<and>
      publish_all rl clock items s2 = (Ok (), s3) \<and> alive s3 \<and> tables s3 = tables s"
    using c cl s1 by auto
qed (use assms(7) in simp)

end

text \<open>A store whose outbox statements do not fail in the states \<open>up\<close>.\<close>

locale answering_store = gorm dec g tables numcol timecol
  for dec :: "'d decimal_ops" and g :: "('d, 's) gorm_ops" and tables :: "'s \<Rightarrow> 'd tables"
    and numcol :: "'d \<Rightarrow> 'd" and timecol :: "time \<Rightarrow> time" +
  fixes up :: "'s \<Rightarrow> bool"
  assumes find_outbox_up: "up s \<Longrightarrow> \<exists>xs s'. g_find_outbox g bq s = (Ok xs, s') \<and> up s'"
    and update_outbox_up: "up s \<Longrightarrow> \<exists>n s'. g_update_outbox g cs col t s = (Ok n, s') \<and> up s'"
begin

lemma GormDB_claim_up: "up s \<Longrightarrow> \<exists>xs s'. db_GetOutboxItems (GormDB g) q s = (Ok xs, s') \<and> up s'"
  unfolding GormDB_def GetOutboxItems_def db_ops.simps by (rule find_outbox_up)

lemma update_row_up:
  assumes "up s" and one: "filter (outbox_matches c) (tb_outbox (tables s)) = [r]"
  shows "\<exists>s'. strict_update ctx (g_update_outbox g [c] col t) s = (Ok (), s') \<and> up s'"
proof -
  from update_outbox_up [OF assms(1), of "[c]" col t] obtain n s'
    where u: "g_update_outbox g [c] col t s = (Ok n, s')" "up s'" by blast
  with stmt_Ok [OF update_outbox u(1)] one have "n = 1" by (simp add: sel_def)
  with u show ?thesis by (simp add: strict_update_def go_simps)
qed

lemma GormDB_stamp_up:
  assumes "up s" "db_ok (tables s)" "r \<in> set (tb_outbox (tables s))"
  shows "\<exists>s'. db_SetPublishedAt (GormDB g) (ob_ID r) t s = (Ok (), s') \<and> up s'"
    and "\<exists>s'. db_SetDeliveredByEventID (GormDB g) (ob_EventID r) t s = (Ok (), s') \<and> up s'"
proof -
  have "distinct (map ob_ID (tb_outbox (tables s)))" "distinct (map ob_EventID (tb_outbox (tables s)))"
    using assms(2) by (simp_all add: db_ok_def outbox_ok_def)
  note one = this [THEN filter_key_singleton, OF assms(3)]
  show "\<exists>s'. db_SetPublishedAt (GormDB g) (ob_ID r) t s = (Ok (), s') \<and> up s'"
    using update_row_up [OF assms(1), of "OutboxIdEq (ob_ID r)"] one(1)
    by (simp add: outbox_matches_fun GormDB_def SetPublishedAt_def setOutboxTimestamp_def)
  show "\<exists>s'. db_SetDeliveredByEventID (GormDB g) (ob_EventID r) t s = (Ok (), s') \<and> up s'"
    using update_row_up [OF assms(1), of "EventIdEq (ob_EventID r)"] one(2)
    by (simp add: outbox_matches_fun GormDB_def SetDeliveredByEventID_def)
qed

end

text \<open>No produce call fails either.\<close>

locale reliable_broker = broker_db dec g k tables numcol timecol blog + answering_store dec g tables numcol timecol up
  for dec :: "'d decimal_ops" and g :: "('d, 's) gorm_ops" and k :: "'s kgo_ops" and tables :: "'s \<Rightarrow> 'd tables"
    and numcol :: "'d \<Rightarrow> 'd" and timecol :: "time \<Rightarrow> time" and blog :: "'s \<Rightarrow> wire list" and up :: "'s \<Rightarrow> bool" +
  assumes produce_up: "up s \<Longrightarrow> \<exists>s'. k_ProduceSync k rec s = (Ok (), s') \<and> up s'"

sublocale reliable_broker \<subseteq> relay: reliable_relay dec "GormDB g" "kafka_publisher dec k" tables timecol blog up
proof unfold_locales
  show "up s \<Longrightarrow> Encode dec (Some ev) = Ok v \<Longrightarrow> \<exists>s'. pub_Publish (kafka_publisher dec k) ev s = (Ok (), s') \<and> up s'" for s ev v
    using produce_up [of s] by (simp add: kafka_publisher_def kafka_Publish_def go_simps)
qed (fact GormDB_claim_up GormDB_stamp_up(1))+

context reliable_broker
begin

lemmas GormDB_drain_ships = relay.drain_ships

end

text \<open>
  The node without a broker: the publisher is the no-op client. \<open>sent\<close> is any observation of the
  world that the two outbox statements leave alone, such as what has reached a broker.
\<close>

locale brokerless = answering_store dec g tables numcol timecol up
  for dec :: "'d decimal_ops" and g :: "('d, 's) gorm_ops" and tables :: "'s \<Rightarrow> 'd tables"
    and numcol :: "'d \<Rightarrow> 'd" and timecol :: "time \<Rightarrow> time" and up :: "'s \<Rightarrow> bool" +
  fixes sent :: "'s \<Rightarrow> 'm list"
  assumes find_outbox_sent: "g_find_outbox g bq s = (xs, s') \<Longrightarrow> sent s' = sent s"
    and update_outbox_sent: "g_update_outbox g cs col t s = (n, s') \<Longrightarrow> sent s' = sent s"

sublocale brokerless \<subseteq> marking: marking_relay "GormDB g" tables timecol dec noop_publisher sent "\<lambda>_. []" up
proof unfold_locales
  show "\<exists>xs s'. db_GetOutboxItems (GormDB g) q s = (Ok xs, s') \<and> up s' \<and> sent s' = sent s" if "up s" for s q
    using GormDB_claim_up [OF that, of q] by (auto simp: GormDB_def GetOutboxItems_def dest: find_outbox_sent)
  show "\<exists>s'. db_SetPublishedAt (GormDB g) (ob_ID r) t s = (Ok (), s') \<and> up s' \<and> sent s' = sent s"
    if m: "up s" "db_ok (tables s)" "r \<in> set (tb_outbox (tables s))" for s r t
  proof -
    from GormDB_stamp_up(1) [OF m, of t] obtain s' where s': "db_SetPublishedAt (GormDB g) (ob_ID r) t s = (Ok (), s')" "up s'" by blast
    then have "s' = snd (g_update_outbox g [OutboxIdEq (ob_ID r)] PublishedAtCol t s)"
      using strict_update_state by (auto simp: GormDB_def SetPublishedAt_def setOutboxTimestamp_def prod_eq_iff)
    with s' update_outbox_sent show ?thesis by (metis surj_pair snd_conv)
  qed
qed (simp_all add: noop_publisher_def noop_Publish_def)

context brokerless
begin

lemma drain_marks:
  assumes "or_outboxStore rl = GormDB g" "or_publisher rl = noop_publisher" "up s" "db_ok (tables s)"
    and "list_all (shippable dec) (tb_outbox (tables s))"
  shows "\<exists>s'. drain rl clock s = Some (Ok (), s') \<and> backlog (tb_outbox (tables s')) = [] \<and> sent s' = sent s"
  using marking.drain_ships [OF assms(1,2), of s clock] assms(3-) by (auto simp: marking.ready_def)

end

interpretation world: broker_db dec10 "mem_engine pg" world_kgo m_tables "mem_numcol pg" "mem_timecol pg" w_log
  for pg
  by unfold_locales (auto simp: mem_engine_def mem_read_def mem_stmt_def Let_def split: if_splits option.splits)

definition world_up :: "world \<Rightarrow> bool" where
  "world_up s \<longleftrightarrow> m_faults s = [] \<and> w_pub_faults s = []"

lemma mem_update_ok: "mem_update pg cs col t T = Some (n, T') \<Longrightarrow> db_ok T \<Longrightarrow> db_ok T'"
  using db_ok_mark [of T col "mem_timecol pg t" "\<lambda>r. list_all (\<lambda>c. outbox_matches c r) cs"]
  by (auto simp: mem_update_def mark_def)

interpretation world: reliable_broker dec10 "mem_engine pg" world_kgo m_tables "mem_numcol pg" "mem_timecol pg" w_log world_up
  for pg
proof unfold_locales
  show "world_up s \<Longrightarrow> \<exists>xs s'. g_find_outbox (mem_engine pg) bq s = (Ok xs, s') \<and> world_up s'" for s bq
    by (simp add: world_up_def mem_engine_def mem_read_def mem_stmt_def Let_def)
  show "world_up s \<Longrightarrow> \<exists>n s'. g_update_outbox (mem_engine pg) cs col t s = (Ok n, s') \<and> world_up s'" for s cs col t
    using mem_update_ok [of pg cs col t "m_tables s"]
    by (cases "mem_update pg cs col t (m_tables s)") (auto simp: world_up_def mem_engine_def mem_stmt_def Let_def mem_update_def)
  show "world_up s \<Longrightarrow> \<exists>s'. k_ProduceSync world_kgo rec s = (Ok (), s') \<and> world_up s'" for s rec
    by (simp add: world_up_def world_kgo_def world_produce_def Let_def)
qed

interpretation world: brokerless dec10 "mem_engine pg" m_tables "mem_numcol pg" "mem_timecol pg" world_up w_log
  for pg
  by unfold_locales (fact world.find_outbox_blog world.update_outbox_blog)+

section \<open>Theorems\<close>

lemma NewOutboxRelayer_fields [simp]:
  "or_outboxStore (NewOutboxRelayer slot db pub [WithBatchSize n]) = db"
  "or_publisher (NewOutboxRelayer slot db pub [WithBatchSize n]) = pub"
  "or_batchSize (NewOutboxRelayer slot db pub [WithBatchSize n]) = n"
  by (simp_all add: NewOutboxRelayer_def WithBatchSize_def)

lemma shippable_code [code]:
  "shippable (dec :: 'd decimal_ops) r \<longleftrightarrow>
     (case Decode (ob_Topic r) (ob_PartitionKey r) (ob_Data r) :: 'd event res of
        Ok ev \<Rightarrow> Encode dec (Some ev) = Ok (ob_Data r) | _ \<Rightarrow> False)"
  by (auto simp: shippable_def split: res.splits)

text \<open>Three orders to announce, the first of them already published and in the log.\<close>

definition demo_row :: "int \<Rightarrow> string \<Rightarrow> time option \<Rightarrow> outbox_item" where
  "demo_row n ref pub =
     (case newOutboxItem dec10 (Event_New (''e'' @ ref) zero_time TopicOrderCreated ref
             (OrderData ((zero_order dec10)\<lparr>o_ID := n, o_Reference := ref\<rparr>))) of
        Ok row \<Rightarrow> row\<lparr>ob_ID := n, ob_PublishedAt := pub\<rparr>)"

definition demo_outbox :: "outbox_item list" where
  "demo_outbox = [demo_row 1 ''a'' (Some zero_time), demo_row 3 ''c'' None, demo_row 2 ''b'' None]"

definition demo_world :: "bool list \<Rightarrow> world" where
  "demo_world faults = (world_with \<lparr>tb_inventory = [], tb_orders = [], tb_outbox = demo_outbox\<rparr> faults)
     \<lparr>w_log := [row_wire (demo_row 1 ''a'' None)]\<rparr>"

definition demo_relayer :: "(dec10, world) outbox_relayer" where
  "demo_relayer = NewOutboxRelayer (w_relay_runner, \<lambda>r. w_relay_runner_update (\<lambda>_. r))
     (GormDB (mem_engine False)) (kafka_publisher dec10 world_kgo) [WithBatchSize 2]"

lemma demo_world_inv: "relay_inv dec10 (m_tables (demo_world faults)) (w_log (demo_world faults))"
proof -
  have "relay_inv dec10 \<lparr>tb_inventory = [], tb_orders = [], tb_outbox = demo_outbox\<rparr> [row_wire (demo_row 1 ''a'' None)]"
    by code_simp
  then show ?thesis by (simp add: demo_world_def world_with_def)
qed

text \<open>C8: The relay never loses an event. Whatever statements and produce calls fail during a drain that
  returns, every row marked as published has its message, byte for byte, in the broker's log; the log is
  only appended to, rows are only stamped, and no other table changes. Failures never surface as errors.\<close>

theorem relay_safety:
  assumes "broker_db dec g k tables numcol timecol blog"
    and "or_outboxStore rl = GormDB g" and "or_publisher rl = kafka_publisher dec k"
    and "relay_inv dec (tables s) (blog s)" and "drain rl clock s = Some (r, s')"
  shows "r = Ok () \<and> relay_inv dec (tables s') (blog s') \<and> prefix (blog s) (blog s') \<and>
    forwarded (tb_outbox (tables s)) (tb_outbox (tables s')) \<and> tables s' = (tables s)\<lparr>tb_outbox := tb_outbox (tables s')\<rparr>"
  using broker_db.GormDB_drain [OF assms(1,2,3,5,4)] by (simp add: relayed_def)

theorem relay_safety_witness:
  "\<exists>s'. drain demo_relayer (\<lambda>_. zero_time) (demo_world [True]) = Some (Ok (), s') \<and>
     relay_inv dec10 (m_tables s') (w_log s')"
proof -
  obtain r s' where d: "drain demo_relayer (\<lambda>_. zero_time) (demo_world [True]) = Some (r, s')"
  proof -
    have "drain demo_relayer (\<lambda>_. zero_time) (demo_world [True]) \<noteq> None" by code_simp
    with that show thesis by (auto simp: surj_pair)
  qed
  with relay_safety [OF world.broker_db_axioms _ _ demo_world_inv d, of False] show ?thesis
    by (auto simp: demo_relayer_def)
qed

text \<open>C9: The relay drains the outbox. When the database and the broker answer, a drain returns, no
  unpublished row is left, and the log is extended by exactly the messages of the unpublished rows, in the
  order of their identifiers; this holds for every batch size.\<close>

theorem relay_completes:
  assumes "reliable_broker dec g k tables numcol timecol blog up"
    and "or_outboxStore rl = GormDB g" and "or_publisher rl = kafka_publisher dec k"
    and "relay_inv dec (tables s) (blog s)" and "up s"
  shows "\<exists>s'. drain rl clock s = Some (Ok (), s') \<and> backlog (tb_outbox (tables s')) = [] \<and>
    blog s' = blog s @ map row_wire (backlog (tb_outbox (tables s)))"
  using reliable_broker.GormDB_drain_ships [OF assms(1,2,3,5,4)] by blast

theorem relay_completes_witness:
  "\<exists>s'. drain demo_relayer (\<lambda>_. zero_time) (demo_world []) = Some (Ok (), s') \<and>
     map (fst \<circ> snd) (w_log s') = [''a'', ''b'', ''c'']"
proof -
  have up: "world_up (demo_world [])" by (simp add: world_up_def demo_world_def world_with_def)
  have keys: "map (fst \<circ> snd) (w_log (demo_world []) @ map row_wire (backlog (tb_outbox (m_tables (demo_world [])))))
      = [''a'', ''b'', ''c'']" by code_simp
  from relay_completes [OF world.reliable_broker_axioms _ _ demo_world_inv up, of demo_relayer False "\<lambda>_. zero_time"] keys
  show ?thesis by (auto simp: demo_relayer_def)
qed

text \<open>C10: A broker outage turns the drain into a busy loop. When at least one full batch is waiting, every
  produce call fails and the scans still answer, the drain never returns: the failed batch is read again at
  once, and the poll interval never applies.\<close>

theorem relay_outage_spins:
  assumes "broker_db dec g k tables numcol timecol blog"
    and "or_outboxStore rl = GormDB g" and "or_publisher rl = kafka_publisher dec k"
    and "\<And>rec s. alive s \<Longrightarrow> \<exists>e s'. k_ProduceSync k rec s = (Fail e, s') \<and> alive s'"
    and "\<And>q s. alive s \<Longrightarrow> \<exists>xs s'. g_find_outbox g q s = (Ok xs, s') \<and> alive s'"
    and "0 < or_batchSize rl" and "or_batchSize rl \<le> int (length (backlog (tb_outbox (tables s))))" and "alive s"
  shows "drain rl clock s = None"
  using broker_db.GormDB_drain_down [where alive = alive, OF assms] .

definition down_kgo :: "world kgo_ops" where
  "down_kgo = world_kgo\<lparr>k_ProduceSync := \<lambda>rec s. (Fail (ErrExt ''broker down''), s)\<rparr>"

interpretation down: broker_db dec10 "mem_engine pg" down_kgo m_tables "mem_numcol pg" "mem_timecol pg" w_log
  for pg
  by unfold_locales (auto simp: down_kgo_def intro: world.find_outbox_blog world.update_outbox_blog)

theorem relay_outage_spins_witness:
  "drain (demo_relayer\<lparr>or_publisher := kafka_publisher dec10 down_kgo\<rparr>) (\<lambda>_. zero_time) (demo_world []) = None"
proof (rule relay_outage_spins [where alive = "\<lambda>s. m_faults s = []", OF down.broker_db_axioms [of False]])
  have "length (backlog (tb_outbox (m_tables (demo_world [])))) = 2" by code_simp
  then show "or_batchSize (demo_relayer\<lparr>or_publisher := kafka_publisher dec10 down_kgo\<rparr>)
      \<le> int (length (backlog (tb_outbox (m_tables (demo_world [])))))" by (simp add: demo_relayer_def)
qed (simp_all add: demo_relayer_def down_kgo_def demo_world_def world_with_def mem_engine_def mem_read_def mem_stmt_def Let_def)

text \<open>C11: Without a broker the relay still marks. On a node that runs with the no-op client, a drain of an
  outbox of decodable rows returns and leaves no unpublished row, although nothing was sent: every
  observation that the outbox statements leave alone, the broker's log for one, is what it was. The rows are
  then never offered to a broker that is configured later.\<close>

theorem noop_relay_marks:
  assumes "brokerless dec g tables numcol timecol up sent"
    and "or_outboxStore rl = GormDB g" and "or_publisher rl = noop_publisher"
    and "up s" and "db_ok (tables s)" and "list_all (shippable dec) (tb_outbox (tables s))"
  shows "\<exists>s'. drain rl clock s = Some (Ok (), s') \<and> backlog (tb_outbox (tables s')) = [] \<and> sent s' = sent s"
  using brokerless.drain_marks [OF assms] .

theorem noop_relay_marks_witness:
  "length (backlog (tb_outbox (m_tables (demo_world [])))) = 2 \<and>
   (\<exists>s'. drain (demo_relayer\<lparr>or_publisher := noop_publisher\<rparr>) (\<lambda>_. zero_time) (demo_world []) = Some (Ok (), s') \<and>
     backlog (tb_outbox (m_tables s')) = [] \<and> length (w_log s') = 1)"
proof -
  have "length (backlog (tb_outbox (m_tables (demo_world [])))) = 2" by code_simp
  moreover have up: "world_up (demo_world [])" and log: "length (w_log (demo_world [])) = 1"
    by (simp_all add: world_up_def demo_world_def world_with_def)
  have "db_ok (m_tables (demo_world []))" "list_all (shippable dec10) (tb_outbox (m_tables (demo_world [])))"
    using demo_world_inv [of "[]"] by (simp_all add: relay_inv_def list_all_iff)
  from noop_relay_marks [OF world.brokerless_axioms _ _ up this, of "demo_relayer\<lparr>or_publisher := noop_publisher\<rparr>" False "\<lambda>_. zero_time"]
  have "\<exists>s'. drain (demo_relayer\<lparr>or_publisher := noop_publisher\<rparr>) (\<lambda>_. zero_time) (demo_world []) = Some (Ok (), s') \<and>
     backlog (tb_outbox (m_tables s')) = [] \<and> w_log s' = w_log (demo_world [])" by (simp add: demo_relayer_def)
  ultimately show ?thesis using log by auto
qed

end
