(* ===== verification/Notifier.thy ===== *)
theory Notifier
  imports Relay
begin

text \<open>
  The notifier service (\<^verbatim>\<open>services/notifier\<close>): rendering an event as a notification, the sinks,
  the consume loop, the notifications view and the routes. The standard logger, the
  notification file and the context of the loop are arguments. The consume loop may run
  forever, so it is a partial function.
\<close>

section \<open>Notifications\<close>

definition notificationFromEvent :: "'d decimal_ops \<Rightarrow> 'd event \<Rightarrow> bool \<Rightarrow> notification res" where
  "notificationFromEvent dec ev delivered =
     bindR (wrapR (\<lambda>e. Wrap ''decode order event: '' e []) (DecodeData dec (dec_order dec) (zero_order dec) ev)) (\<lambda>ord.
       Ok \<lparr>n_EventID = e_ID ev, n_Reference = o_Reference ord, n_CustomerID = o_CustomerID ord,
           n_OccurredAt = e_OccurredAt ev, n_Delivered = delivered\<rparr>)"

section \<open>Sinks\<close>

type_synonym 's sink = "notification \<Rightarrow> ('s, unit) io"

text \<open>
  The effects a sink has outside the program: a record of the logger, opening the
  notification file for appending, and writing a line to it.
\<close>

record 's sink_ops =
  sk_info :: "notification \<Rightarrow> 's \<Rightarrow> 's"
  sk_open :: "string \<Rightarrow> ('s, unit) io"
  sk_println :: "string \<Rightarrow> ('s, unit) io"

definition terminalSink :: "'s sink_ops \<Rightarrow> 's sink" where
  "terminalSink k n s = (Ok (), sk_info k n s)"

definition newFileSink :: "'s sink_ops \<Rightarrow> string \<Rightarrow> ('s, unit) io" where
  "newFileSink k path = wrapS (\<lambda>e. Wrap ''open notification file: '' e []) (sk_open k path)"

definition fileSink :: "'s sink_ops \<Rightarrow> 's sink" where
  "fileSink k n =
     (case notification_json n of
        None \<Rightarrow> failS (ErrExt ''json'')
      | Some j \<Rightarrow> sk_println k (print_json j))"

fun teeSink :: "'s sink list \<Rightarrow> 's sink" where
  "teeSink [] n = returnS ()"
| "teeSink (t # ts) n = bindS (t n) (\<lambda>_. teeSink ts n)"

definition NewSink :: "'s sink_ops \<Rightarrow> string \<Rightarrow> ('s, 's sink) io" where
  "NewSink k filePath =
     (if filePath = [] then returnS (terminalSink k)
      else bindS (newFileSink k filePath) (\<lambda>_. returnS (teeSink [terminalSink k, fileSink k])))"

section \<open>The service\<close>

record ('d, 's) notifier_service =
  ns_authn :: authenticator
  ns_store :: "('d, 's) db_ops"
  ns_consumer :: "('d, 's) consumer"
  ns_sink :: "'s sink"
  ns_runner :: "'s slot"

definition Notifier_NewService ::
  "'s slot \<Rightarrow> authenticator \<Rightarrow> ('d, 's) db_ops \<Rightarrow> ('d, 's) consumer \<Rightarrow> 's sink \<Rightarrow> ('d, 's) notifier_service" where
  "Notifier_NewService slot authn db consumer sink =
     \<lparr>ns_authn = authn, ns_store = db, ns_consumer = consumer, ns_sink = sink, ns_runner = slot\<rparr>"

definition Notifier_Start :: "('d, 's) notifier_service \<Rightarrow> ('s, unit) io" where
  "Notifier_Start h =
     bindS (con_Ping (ns_consumer h)) (\<lambda>_ s. (Ok (), start_in (ns_runner h) s))"

definition Notifier_Stop :: "('d, 's) notifier_service \<Rightarrow> 's \<Rightarrow> (unit res \<times> 's) option" where
  "Notifier_Stop h s = map_option (\<lambda>s'. (Ok (), s')) (stop_in (ns_runner h) s)"

text \<open>Failures of a dispatch are logged and swallowed.\<close>

definition dispatch :: "'d decimal_ops \<Rightarrow> ('d, 's) notifier_service \<Rightarrow> ('s \<Rightarrow> time) \<Rightarrow> 'd event \<Rightarrow> ('s, unit) io" where
  "dispatch dec h clock ev s =
     (case notificationFromEvent dec ev True of
        Fail e \<Rightarrow> (Ok (), s)
      | Panic \<Rightarrow> (Panic, s)
      | Ok n \<Rightarrow>
          (case ns_sink h n s of
             (Fail e, s1) \<Rightarrow> (Ok (), s1)
           | (Panic, s1) \<Rightarrow> (Panic, s1)
           | (Ok _, s1) \<Rightarrow>
               (case db_SetDeliveredByEventID (ns_store h) (e_ID ev) (clock s1) s1 of
                  (Panic, s2) \<Rightarrow> (Panic, s2)
                | (_, s2) \<Rightarrow> (Ok (), s2))))"

fun dispatch_all ::
  "'d decimal_ops \<Rightarrow> ('d, 's) notifier_service \<Rightarrow> ('s \<Rightarrow> time) \<Rightarrow> 'd event list \<Rightarrow> ('s, unit) io" where
  "dispatch_all dec h clock [] = returnS ()"
| "dispatch_all dec h clock (ev # evs) = bindS (dispatch dec h clock ev) (\<lambda>_. dispatch_all dec h clock evs)"

text \<open>\<open>cancelled\<close> tells whether the context of the loop is cancelled in a state.\<close>

partial_function (option) consume ::
  "'d decimal_ops \<Rightarrow> ('d, 's) notifier_service \<Rightarrow> ('s \<Rightarrow> time) \<Rightarrow> ('s \<Rightarrow> bool) \<Rightarrow> 's \<Rightarrow> (unit res \<times> 's) option" where
  "consume dec h clock cancelled s =
     (if cancelled s then Some (Ok (), s)
      else case con_Poll (ns_consumer h) s of
        (Panic, s1) \<Rightarrow> Some (Panic, s1)
      | (Fail e, s1) \<Rightarrow> if cancelled s1 then Some (Ok (), s1) else consume dec h clock cancelled s1
      | (Ok events, s1) \<Rightarrow>
          (case dispatch_all dec h clock events s1 of
             (Panic, s2) \<Rightarrow> Some (Panic, s2)
           | (Fail e, s2) \<Rightarrow> Some (Fail e, s2)
           | (Ok _, s2) \<Rightarrow>
               (case con_Commit (ns_consumer h) s2 of
                  (Panic, s3) \<Rightarrow> Some (Panic, s3)
                | (_, s3) \<Rightarrow> consume dec h clock cancelled s3)))"

declare consume.simps [code]

section \<open>The view\<close>

fun render_rows :: "'d decimal_ops \<Rightarrow> outbox_item list \<Rightarrow> notification list res" where
  "render_rows dec [] = Ok []"
| "render_rows dec (item # items) =
     bindR (Decode (ob_Topic item) (ob_PartitionKey item) (ob_Data item) :: 'd event res) (\<lambda>ev.
     bindR (notificationFromEvent dec ev (ob_DeliveredAt item \<noteq> None)) (\<lambda>n.
     bindR (render_rows dec items) (\<lambda>ns. Ok (n # ns))))"

definition Notifications_handler :: "'d decimal_ops \<Rightarrow> ('d, 's) notifier_service \<Rightarrow> ('d, 's) api_handler" where
  "Notifications_handler dec h req p =
     (let undelivered = (Query_Get req ''undelivered'' = ''true'') in
      bindS (db_GetOutboxItems (ns_store h)
          (Some \<lparr>OnlyUnpublished = False, OnlyUndelivered = undelivered, QLimit = 0\<rparr>)) (\<lambda>items.
      bindS (liftS (render_rows dec items)) (\<lambda>ns. returnS (NotificationsPayload ns))))"

definition Notifier_ServiceName :: string where "Notifier_ServiceName = ''notifier service''"
definition ConsumerGroup :: string where "ConsumerGroup = ''notifier''"
definition NotificationsEndPnt :: string where "NotificationsEndPnt = ''/v1/notifications''"

definition Notifier_RegisterHandlers ::
  "'d decimal_ops \<Rightarrow> string \<Rightarrow> 's handle \<Rightarrow> ('d, 's) notifier_service \<Rightarrow> 's endpoint list" where
  "Notifier_RegisterHandlers dec version promhttp h =
     Routes promhttp (AddEndpoints
      [\<lparr>ep_Path = StatusEndPnt, ep_MethodType = ''GET'', ep_Handler = StatusHandler dec Notifier_ServiceName version\<rparr>,
       \<lparr>ep_Path = HealthEndPnt, ep_MethodType = ''GET'',
        ep_Handler = HealthHandler dec Notifier_ServiceName version
          [\<lparr>ck_Name = ''database'', ck_Probe = db_Ping (ns_store h)\<rparr>,
           \<lparr>ck_Name = ''consumer'', ck_Probe = con_Ping (ns_consumer h)\<rparr>]\<rparr>,
       \<lparr>ep_Path = NotificationsEndPnt, ep_MethodType = ''GET'',
        ep_Handler = Auth (ns_authn h) (Handle dec (Notifications_handler dec h))\<rparr>])"

section \<open>Contracts\<close>

text \<open>
  What the notifier relies on: \<open>sunk\<close> are the notifications that reached the sink. A success
  means that the notification did; after a failure it may or may not have.
\<close>

locale sink_ok =
  fixes sink :: "'s sink" and tables :: "'s \<Rightarrow> 'd tables" and sunk :: "'s \<Rightarrow> notification list"
  assumes Write_tables: "sink n s = (r, s') \<Longrightarrow> tables s' = tables s"
    and Write_no_panic: "sink n s \<noteq> (Panic, s')"
    and Write_Ok: "sink n s = (Ok u, s') \<Longrightarrow> sunk s' = sunk s @ [n]"
    and Write_Fail: "sink n s = (Fail e, s') \<Longrightarrow> sunk s' = sunk s \<or> sunk s' = sunk s @ [n]"

text \<open>The logger writes every notification; the file is elsewhere and may fail.\<close>

locale sink_env =
  fixes o_sink :: "'s sink_ops" and tables :: "'s \<Rightarrow> 'd tables" and sunk :: "'s \<Rightarrow> notification list"
  assumes info_tables: "tables (sk_info o_sink n s) = tables s"
    and info_sunk: "sunk (sk_info o_sink n s) = sunk s @ [n]"
    and open_env: "sk_open o_sink path s = (r, s') \<Longrightarrow> tables s' = tables s \<and> sunk s' = sunk s \<and> r \<noteq> Panic"
    and println_env: "sk_println o_sink line s = (r, s') \<Longrightarrow> tables s' = tables s \<and> sunk s' = sunk s \<and> r \<noteq> Panic"
begin

lemma terminalSink_ok: "sink_ok (terminalSink o_sink) tables sunk"
  by unfold_locales (auto simp: terminalSink_def info_tables info_sunk)

lemma fileSink_env: "fileSink o_sink n s = (r, s') \<Longrightarrow> tables s' = tables s \<and> sunk s' = sunk s \<and> r \<noteq> Panic"
  by (auto simp: fileSink_def println_env split: option.splits)

lemma tee_cases:
  assumes "teeSink [terminalSink o_sink, fileSink o_sink] n s = (r, s')"
  shows "tables s' = tables s \<and> sunk s' = sunk s @ [n] \<and> r \<noteq> Panic"
proof -
  obtain r1 s1 where f: "fileSink o_sink n (sk_info o_sink n s) = (r1, s1)" by fastforce
  with fileSink_env [OF f] assms info_tables [of n s] info_sunk [of n s] show ?thesis
    by (cases r1) (auto simp: go_simps terminalSink_def bindS_def)
qed

lemma teeSink_ok: "sink_ok (teeSink [terminalSink o_sink, fileSink o_sink]) tables sunk"
  by unfold_locales (metis tee_cases)+

lemma NewSink_ok:
  assumes "NewSink o_sink path s = (Ok sink, s')"
  shows "sink_ok sink tables sunk"
  using assms terminalSink_ok teeSink_ok by (auto simp: NewSink_def bindS_eq_Ok split: if_splits)

end

text \<open>Polling and committing touch neither the database nor the sink.\<close>

locale consumer_ok =
  fixes con :: "('d, 's) consumer" and tables :: "'s \<Rightarrow> 'd tables" and sunk :: "'s \<Rightarrow> notification list"
  assumes Poll_frame: "con_Poll con s = (evs, s') \<Longrightarrow> tables s' = tables s \<and> sunk s' = sunk s \<and> evs \<noteq> Panic"
    and Commit_frame: "con_Commit con s = (r, s') \<Longrightarrow> tables s' = tables s \<and> sunk s' = sunk s \<and> r \<noteq> Panic"

locale notifier_env = outbox_store db tables timecol + consumer_ok con tables sunk + sink_ok sink tables sunk
  for db :: "('d, 's) db_ops" and con :: "('d, 's) consumer" and sink :: "'s sink" and tables :: "'s \<Rightarrow> 'd tables"
    and timecol :: "time \<Rightarrow> time" and sunk :: "'s \<Rightarrow> notification list" +
  assumes deliver_sunk: "db_SetDeliveredByEventID db eid t s = (r, s') \<Longrightarrow> sunk s' = sunk s"

text \<open>The invariant of the notifier: an event marked as delivered was written to the sink.\<close>

definition notify_inv :: "'d tables \<Rightarrow> notification list \<Rightarrow> bool" where
  "notify_inv T ns \<longleftrightarrow> db_ok T \<and> (\<forall>r \<in> set (tb_outbox T). ob_DeliveredAt r \<noteq> None \<longrightarrow> ob_EventID r \<in> n_EventID ` set ns)"

definition delivered_to :: "outbox_item list \<Rightarrow> outbox_item list \<Rightarrow> bool" where
  "delivered_to = list_all2 (\<lambda>r r'. r' = r \<or> (\<exists>t. r' = r\<lparr>ob_DeliveredAt := Some t\<rparr>))"

definition notified :: "'d tables \<times> notification list \<Rightarrow> 'd tables \<times> notification list \<Rightarrow> bool" where
  "notified = (\<lambda>(T, L) (T', L'). notify_inv T' L' \<and> prefix L L' \<and>
     delivered_to (tb_outbox T) (tb_outbox T') \<and> T' = T\<lparr>tb_outbox := tb_outbox T'\<rparr>)"

lemma delivered_to_refl: "delivered_to rows rows"
  by (simp add: delivered_to_def list_all2_refl)

lemma delivered_to_trans: "delivered_to a b \<Longrightarrow> delivered_to b c \<Longrightarrow> delivered_to a c"
  unfolding delivered_to_def by (erule (1) list_all2_trans [rotated]) auto

lemma delivered_to_mark: "delivered_to rows (mark DeliveredAtCol t P rows)"
  by (auto simp: delivered_to_def mark_def list_all2_map2 list_all2_same)

lemma notified_refl: "notify_inv T L \<Longrightarrow> notified (T, L) (T, L)"
  by (simp add: notified_def delivered_to_refl)

lemma notify_inv_append: "notify_inv T L \<Longrightarrow> notify_inv T (L @ M)"
  by (auto simp: notify_inv_def)

lemma notified_sunk: "notify_inv T L \<Longrightarrow> notified (T, L) (T, L @ M)"
  by (simp add: notified_def delivered_to_refl notify_inv_append)

lemma notified_trans:
  assumes a: "notified x y" and b: "notified y z"
  shows "notified x z"
proof -
  obtain T L T1 L1 T2 L2 where e: "x = (T, L)" "y = (T1, L1)" "z = (T2, L2)" by (metis surj_pair)
  from a b have "T1 = T\<lparr>tb_outbox := tb_outbox T1\<rparr>" "T2 = T1\<lparr>tb_outbox := tb_outbox T2\<rparr>" by (simp_all add: notified_def e)
  then have "T2 = T\<lparr>tb_outbox := tb_outbox T2\<rparr>" by (cases T; cases T1; cases T2) simp
  with a b e show ?thesis unfolding notified_def by (auto intro: delivered_to_trans prefix_order.trans)
qed

lemma notified_mark:
  assumes "notify_inv T L" and "n_EventID n = eid"
  shows "notified (T, L) (T\<lparr>tb_outbox := mark DeliveredAtCol t (\<lambda>r. ob_EventID r = eid) (tb_outbox T)\<rparr>, L @ [n])"
  using assms db_ok_mark [of T DeliveredAtCol t "\<lambda>r. ob_EventID r = eid"]
  by (auto simp: notified_def notify_inv_def delivered_to_mark) (auto simp: mark_def split: if_splits)

lemma notificationFromEvent_ID: "notificationFromEvent dec ev d = Ok n \<Longrightarrow> n_EventID n = e_ID ev"
  by (auto simp: notificationFromEvent_def bindR_eq_Ok)

lemma notificationFromEvent_no_panic: "notificationFromEvent dec ev d \<noteq> Panic"
proof -
  have "marshal_data dec x \<noteq> Panic" for x by (auto simp: marshal_data_def marshal_raw_def split: event_data.splits)
  then have "DecodeData dec (dec_order dec) (zero_order dec) ev \<noteq> Panic"
    by (cases "e_Data ev"; cases "marshal_data dec (e_Data ev)") (auto simp: DecodeData_def split: option.splits)
  then show ?thesis
    by (cases "DecodeData dec (dec_order dec) (zero_order dec) ev") (auto simp: notificationFromEvent_def)
qed

context notifier_env
begin

lemma dispatch_notified:
  assumes h: "ns_store h = db" "ns_sink h = sink" and inv: "notify_inv (tables s) (sunk s)"
    and d: "dispatch dec h clock ev s = (r, s')"
  shows "r = Ok () \<and> notified (tables s, sunk s) (tables s', sunk s')"
proof (cases "notificationFromEvent dec ev True")
  case (Ok n)
  obtain r1 s1 where w: "sink n s = (r1, s1)" by fastforce
  have t1: "tables s1 = tables s" by (rule Write_tables [OF w])
  show ?thesis
  proof (cases r1)
    case (Fail e)
    with Write_Fail [of n s e s1] w t1 Ok d h notified_sunk [OF inv] notified_refl [OF inv] show ?thesis
      by (auto simp: dispatch_def)
  next
    case Panic
    with w Write_no_panic show ?thesis by metis
  next
    case (Ok u)
    with Write_Ok w have k1: "sunk s1 = sunk s @ [n]" by metis
    obtain r2 s2 where m: "db_SetDeliveredByEventID db (e_ID ev) (clock s1) s1 = (r2, s2)" by fastforce
    have res: "r2 = Panic \<or> r = Ok () \<and> s' = s2" using d h Ok \<open>notificationFromEvent dec ev True = Ok n\<close> w m
      by (cases r2) (auto simp: dispatch_def)
    have k2: "sunk s2 = sunk s @ [n]" using deliver_sunk [OF m] k1 by simp
    have ok: "db_ok (tables s1)" using inv t1 by (simp add: notify_inv_def)
    from SetDeliveredByEventID [of "clock s1" "e_ID ev"] ok m
    consider t where "r2 = Ok ()" "tables s2 = (tables s)\<lparr>tb_outbox := mark DeliveredAtCol t (\<lambda>r. ob_EventID r = e_ID ev) (tb_outbox (tables s))\<rparr>"
      | e where "r2 = Fail e" "tables s2 = tables s"
      using t1 by (cases r2) (auto simp: strict_mark_def dest!: spec [of _ s1])
    then show ?thesis
    proof cases
      case 1
      with notified_mark [OF inv notificationFromEvent_ID [OF \<open>notificationFromEvent dec ev True = Ok n\<close>]] res k2
      show ?thesis by auto
    next
      case 2
      with notified_sunk [OF inv] res k2 show ?thesis by auto
    qed
  qed
qed (use d notified_refl [OF inv] notificationFromEvent_no_panic [of dec ev True] in \<open>auto simp: dispatch_def\<close>)

lemma dispatch_all_notified:
  assumes h: "ns_store h = db" "ns_sink h = sink"
  shows "notify_inv (tables s) (sunk s) \<Longrightarrow> dispatch_all dec h clock evs s = (r, s') \<Longrightarrow>
    r = Ok () \<and> notified (tables s, sunk s) (tables s', sunk s')"
proof (induction evs arbitrary: s)
  case Nil
  then show ?case by (simp add: notified_refl)
next
  case (Cons ev evs)
  obtain r1 s1 where p: "dispatch dec h clock ev s = (r1, s1)" by fastforce
  from dispatch_notified [OF h Cons.prems(1) p]
  have 1: "r1 = Ok ()" "notified (tables s, sunk s) (tables s1, sunk s1)" by auto
  then have "notify_inv (tables s1) (sunk s1)" by (simp add: notified_def)
  from Cons.IH [OF this] Cons.prems(2) p 1 show ?case by (auto simp: go_simps intro: notified_trans)
qed

lemma consume_notified:
  assumes h: "ns_store h = db" "ns_sink h = sink" "ns_consumer h = con"
    and c: "consume dec h clock cancelled s = Some res" and "notify_inv (tables s) (sunk s)"
  shows "fst res = Ok () \<and> notified (tables s, sunk s) (tables (snd res), sunk (snd res))"
  using c h assms(5)
proof (induction rule: consume.raw_induct [rotated 1, consumes 1, case_names step])
  case (step csm dec h clock cancelled s res)
  note inv = step.prems(4)
  show ?case
  proof (cases "cancelled s")
    case False
    obtain evs s1 where p: "con_Poll con s = (evs, s1)" by fastforce
    note fr = Poll_frame [OF p]
    show ?thesis
    proof (cases evs)
      case (Fail e)
      then have "if cancelled s1 then res = (Ok (), s1) else csm dec h clock cancelled s1 = Some res"
        using step.hyps False p step.prems by (simp split: if_splits)
      with step.IH [OF _ step.prems(1-3), of dec clock cancelled s1 res] fr inv notified_refl [OF inv] show ?thesis
        by (auto split: if_splits)
    next
      case (Ok events)
      obtain r2 s2 where d: "dispatch_all dec h clock events s1 = (r2, s2)" by fastforce
      obtain r3 s3 where m: "con_Commit con s2 = (r3, s3)" by fastforce
      note fr3 = Commit_frame [OF m]
      from dispatch_all_notified [OF step.prems(1,2) _ d] fr inv
      have n2: "r2 = Ok ()" "notified (tables s, sunk s) (tables s2, sunk s2)" by auto
      have c3: "csm dec h clock cancelled s3 = Some res"
        using step.hyps False p Ok d n2 m fr3 step.prems by (cases r3) auto
      have "notify_inv (tables s3) (sunk s3)" using n2 fr3 by (simp add: notified_def)
      from step.IH [OF c3 step.prems(1-3) this] fr3
      have "fst res = Ok ()" "notified (tables s2, sunk s2) (tables (snd res), sunk (snd res))" by simp_all
      with n2 show ?thesis by (auto intro: notified_trans)
    qed (use fr in simp)
  qed (use step.hyps notified_refl [OF inv] in auto)
qed

end

text \<open>
  A sink and a store that answer, in the states \<open>up\<close>: every notification of a poll that can be written as
  JSON reaches the sink, and the rows of its events are marked.
\<close>

definition undelivered :: "outbox_item \<Rightarrow> bool" where
  "undelivered r \<longleftrightarrow> ob_DeliveredAt r = None"

lemma filter_undelivered_mark:
  "filter undelivered (mark DeliveredAtCol t (\<lambda>r. ob_EventID r = u) rows) = filter (\<lambda>r. ob_EventID r \<noteq> u) (filter undelivered rows)"
  by (induction rows) (simp_all add: mark_def undelivered_def)

lemma mark_event_ids: "ob_EventID ` set (mark col t P rows) = ob_EventID ` set rows"
  by (metis image_set mark_ids(2))

locale delivering = notifier_env db con sink tables timecol sunk
  for db :: "('d, 's) db_ops" and con :: "('d, 's) consumer" and sink :: "'s sink" and tables :: "'s \<Rightarrow> 'd tables"
    and timecol :: "time \<Rightarrow> time" and sunk :: "'s \<Rightarrow> notification list" +
  fixes up :: "'s \<Rightarrow> bool"
  assumes write_up: "up s \<Longrightarrow> notification_json n \<noteq> None \<Longrightarrow> \<exists>s'. sink n s = (Ok (), s') \<and> up s'"
    and deliver_up: "up s \<Longrightarrow> db_ok (tables s) \<Longrightarrow> r \<in> set (tb_outbox (tables s)) \<Longrightarrow>
      \<exists>s'. db_SetDeliveredByEventID db (ob_EventID r) t s = (Ok (), s') \<and> up s'"
begin

lemma dispatch_delivers:
  assumes h: "ns_store h = db" "ns_sink h = sink" and "up s" "db_ok (tables s)"
    and n: "notificationFromEvent dec ev True = Ok n" "notification_json n \<noteq> None"
    and mem: "n_EventID n \<in> ob_EventID ` set (tb_outbox (tables s))"
  shows "\<exists>t s'. dispatch dec h clock ev s = (Ok (), s') \<and> up s' \<and> sunk s' = sunk s @ [n] \<and>
    tables s' = (tables s)\<lparr>tb_outbox := mark DeliveredAtCol t (\<lambda>r. ob_EventID r = n_EventID n) (tb_outbox (tables s))\<rparr>"
proof -
  from write_up [OF assms(3) n(2)] obtain s1 where w: "sink n s = (Ok (), s1)" "up s1" by blast
  note t1 = Write_tables [OF w(1)] and k1 = Write_Ok [OF w(1)]
  from mem obtain r where "r \<in> set (tb_outbox (tables s1))" "ob_EventID r = n_EventID n" using t1 by auto
  with deliver_up [OF w(2), of r "clock s1"] t1 assms(4) obtain s2
    where m: "db_SetDeliveredByEventID db (n_EventID n) (clock s1) s1 = (Ok (), s2)" "up s2" by auto
  from SetDeliveredByEventID [of "clock s1" "n_EventID n"] assms(4) t1 m(1)
  have "tables s2 = (tables s)\<lparr>tb_outbox := mark DeliveredAtCol (timecol (clock s1)) (\<lambda>r. ob_EventID r = n_EventID n) (tb_outbox (tables s))\<rparr>"
    by (auto simp: strict_mark_def dest!: spec [of _ s1])
  with m w k1 deliver_sunk [OF m(1)] n h notificationFromEvent_ID [OF n(1)] show ?thesis by (auto simp: dispatch_def)
qed

lemma dispatch_all_delivers:
  assumes h: "ns_store h = db" "ns_sink h = sink"
  shows "up s \<Longrightarrow> db_ok (tables s) \<Longrightarrow> map (\<lambda>ev. notificationFromEvent dec ev True) evs = map Ok ns \<Longrightarrow>
    list_all (\<lambda>n. notification_json n \<noteq> None) ns \<Longrightarrow> n_EventID ` set ns \<subseteq> ob_EventID ` set (tb_outbox (tables s)) \<Longrightarrow>
    \<exists>s'. dispatch_all dec h clock evs s = (Ok (), s') \<and> sunk s' = sunk s @ ns \<and>
      delivered_to (tb_outbox (tables s)) (tb_outbox (tables s')) \<and>
      filter undelivered (tb_outbox (tables s'))
        = filter (\<lambda>r. ob_EventID r \<notin> n_EventID ` set ns) (filter undelivered (tb_outbox (tables s)))"
proof (induction ns arbitrary: s evs)
  case (Cons n ns)
  then obtain ev evs' where evs: "evs = ev # evs'" by (cases evs) auto
  have n: "notificationFromEvent dec ev True = Ok n" "notification_json n \<noteq> None"
      "n_EventID n \<in> ob_EventID ` set (tb_outbox (tables s))" using Cons.prems evs by simp_all
  from dispatch_delivers [OF h Cons.prems(1,2) n, of clock] obtain t s1
    where d: "dispatch dec h clock ev s = (Ok (), s1)" "up s1" "sunk s1 = sunk s @ [n]"
    and t1: "tables s1 = (tables s)\<lparr>tb_outbox := mark DeliveredAtCol t (\<lambda>r. ob_EventID r = n_EventID n) (tb_outbox (tables s))\<rparr>"
    by blast
  have "db_ok (tables s1)" unfolding t1 by (rule db_ok_mark [OF Cons.prems(2)])
  moreover have "n_EventID ` set ns \<subseteq> ob_EventID ` set (tb_outbox (tables s1))" using Cons.prems(5) by (simp add: t1 mark_event_ids)
  ultimately obtain s2 where "dispatch_all dec h clock evs' s1 = (Ok (), s2)" "sunk s2 = sunk s1 @ ns"
      "delivered_to (tb_outbox (tables s1)) (tb_outbox (tables s2))"
      "filter undelivered (tb_outbox (tables s2)) = filter (\<lambda>r. ob_EventID r \<notin> n_EventID ` set ns) (filter undelivered (tb_outbox (tables s1)))"
    using Cons.IH [OF d(2), of evs'] Cons.prems(3,4) evs by auto
  moreover have "filter (\<lambda>r. ob_EventID r \<notin> n_EventID ` set ns) (filter (\<lambda>r. ob_EventID r \<noteq> n_EventID n) rows)
      = filter (\<lambda>r. ob_EventID r \<notin> n_EventID ` set (n # ns)) rows" for rows
    by (induction rows) auto
  moreover have "delivered_to (tb_outbox (tables s)) (tb_outbox (tables s1))" by (simp add: t1 delivered_to_mark)
  ultimately show ?case
    using d evs by (auto simp: t1 go_simps filter_undelivered_mark simp del: filter_filter list.set intro: delivered_to_trans)
qed (simp add: delivered_to_refl)

lemma consume_delivers:
  assumes h: "ns_store h = db" "ns_sink h = sink" "ns_consumer h = con"
    and "\<not> cancelled s" and p: "con_Poll con s = (Ok evs, s1)" and "up s1" "db_ok (tables s)"
    and n: "map (\<lambda>ev. notificationFromEvent dec ev True) evs = map Ok ns" "list_all (\<lambda>n. notification_json n \<noteq> None) ns"
      "n_EventID ` set ns \<subseteq> ob_EventID ` set (tb_outbox (tables s))"
  shows "\<exists>s2. sunk s2 = sunk s @ ns \<and> delivered_to (tb_outbox (tables s)) (tb_outbox (tables s2)) \<and>
    filter undelivered (tb_outbox (tables s2))
      = filter (\<lambda>r. ob_EventID r \<notin> n_EventID ` set ns) (filter undelivered (tb_outbox (tables s))) \<and>
    consume dec h clock cancelled s = consume dec h clock cancelled (snd (con_Commit con s2))"
proof -
  note fr = Poll_frame [OF p]
  from dispatch_all_delivers [OF h(1,2) assms(6) _ n(1,2), of clock] fr assms(7) n(3) obtain s2
    where d: "dispatch_all dec h clock evs s1 = (Ok (), s2)" "sunk s2 = sunk s @ ns"
      "delivered_to (tb_outbox (tables s)) (tb_outbox (tables s2))"
      "filter undelivered (tb_outbox (tables s2))
        = filter (\<lambda>r. ob_EventID r \<notin> n_EventID ` set ns) (filter undelivered (tb_outbox (tables s)))" by auto
  obtain r3 s3 where c: "con_Commit con s2 = (r3, s3)" by fastforce
  with Commit_frame [OF c] have "consume dec h clock cancelled s = consume dec h clock cancelled s3"
    using assms(4) h p d(1) by (subst consume.simps) (cases r3; simp)
  with c d(2-) show ?thesis by (intro exI [of _ s2]) simp
qed

end

section \<open>Rows that announce an order\<close>

text \<open>The row was written for the event \<open>e\<close> of the order \<open>ord\<close>.\<close>

definition announces :: "'d decimal_ops \<Rightarrow> 'd event \<Rightarrow> 'd order \<Rightarrow> outbox_item \<Rightarrow> bool" where
  "announces dec e ord r \<longleftrightarrow> order_event_ok e ord \<and> Encode dec (Some e) = Ok (ob_Data r) \<and>
     ob_Topic r = e_Topic e \<and> ob_PartitionKey r = e_Key e \<and> ob_EventID r = e_ID e"

definition note_of :: "'d event \<Rightarrow> 'd order \<Rightarrow> bool \<Rightarrow> notification" where
  "note_of e ord delivered =
     \<lparr>n_EventID = e_ID e, n_Reference = o_Reference ord, n_CustomerID = o_CustomerID ord,
      n_OccurredAt = e_OccurredAt e, n_Delivered = delivered\<rparr>"

context decimal_lib
begin

lemma announced_notification:
  assumes "announces dec e ord r"
  shows "\<exists>ev. Decode (ob_Topic r) (ob_PartitionKey r) (ob_Data r) = Ok ev \<and>
    notificationFromEvent dec ev d = Ok (note_of e ord d)"
proof -
  let ?ev = "e\<lparr>e_Data := RawMessage (print_json (order_json dec ord))\<rparr>"
  from assms have ok: "order_event_ok e ord" and enc: "Encode dec (Some e) = Ok (ob_Data r)"
    and r: "ob_Topic r = e_Topic e" "ob_PartitionKey r = e_Key e" by (simp_all add: announces_def)
  from order_event_codec [OF ok] enc r have "Decode (ob_Topic r) (ob_PartitionKey r) (ob_Data r) = Ok ?ev" by simp
  moreover have "json_wf (order_json dec ord)" using ok by (intro order_json_wf) (simp_all add: order_event_ok_def)
  with DecodeData_order [of ord ?ev] ok obtain p where
      "DecodeData dec (dec_order dec) (zero_order dec) ?ev = Ok (ord\<lparr>o_Price := p\<rparr>)" by (auto simp: order_event_ok_def)
  then have "notificationFromEvent dec ?ev d = Ok (note_of e ord d)" by (simp add: notificationFromEvent_def note_of_def)
  ultimately show ?thesis by blast
qed

lemma note_of_json: "announces dec e ord r \<Longrightarrow> notification_json (note_of e ord d) \<noteq> None"
  by (simp add: announces_def order_event_ok_def note_of_def notification_json_def)

text \<open>Polling the messages of such rows decodes them all.\<close>

lemma announced_records:
  assumes "map (\<lambda>x. (kr_Topic x, kr_Key x, kr_Value x)) recs = map row_wire rows"
    and "\<And>r. r \<in> set rows \<Longrightarrow> announces dec (ev_of r) (ord_of r) r"
  shows "\<exists>evs. decode_records recs = (evs, []) \<and> length evs = length rows \<and>
    map (\<lambda>ev. notificationFromEvent dec ev True) evs = map Ok (map (\<lambda>r. note_of (ev_of r) (ord_of r) True) rows)"
  using assms
proof (induction rows arbitrary: recs)
  case (Cons r rows)
  then obtain x recs' where recs: "recs = x # recs'" by (cases recs) auto
  from announced_notification [OF Cons.prems(2) [of r], of True] obtain ev
    where "Decode (ob_Topic r) (ob_PartitionKey r) (ob_Data r) = Ok ev"
      "notificationFromEvent dec ev True = Ok (note_of (ev_of r) (ord_of r) True)" by auto
  moreover from Cons.IH [of recs'] Cons.prems recs obtain evs where "decode_records recs' = (evs, [])" "length evs = length rows"
      "map (\<lambda>ev. notificationFromEvent dec ev True) evs = map Ok (map (\<lambda>r. note_of (ev_of r) (ord_of r) True) rows)" by auto
  ultimately show ?case using Cons.prems(1) recs by (intro exI [of _ "ev # evs"]) (simp add: row_wire_def)
qed simp

lemma announced_shippable: "announces dec e ord r \<Longrightarrow> shippable dec r"
  using order_event_codec [of e ord] by (auto simp: announces_def shippable_def)

lemma render_rows_announced:
  assumes "\<And>r. r \<in> set rows \<Longrightarrow> announces dec (ev_of r) (ord_of r) r"
  shows "render_rows dec rows = Ok (map (\<lambda>r. note_of (ev_of r) (ord_of r) (ob_DeliveredAt r \<noteq> None)) rows)"
  using assms
proof (induction rows)
  case (Cons r rows)
  from announced_notification [OF Cons.prems [of r], of "ob_DeliveredAt r \<noteq> None"] obtain ev
    where "Decode (ob_Topic r) (ob_PartitionKey r) (ob_Data r) = Ok ev"
      "notificationFromEvent dec ev (ob_DeliveredAt r \<noteq> None) = Ok (note_of (ev_of r) (ord_of r) (ob_DeliveredAt r \<noteq> None))"
    by auto
  with Cons show ?case by simp
qed simp

end

section \<open>The notifier over GORM and Kafka\<close>

context gorm
begin

lemmas GormDB_outbox = store.outbox_store_axioms

end

locale notifier_node = gorm dec g tables numcol timecol + sink_env o_sink tables sunk
  for dec :: "'d decimal_ops" and g :: "('d, 's) gorm_ops" and tables :: "'s \<Rightarrow> 'd tables"
    and numcol :: "'d \<Rightarrow> 'd" and timecol :: "time \<Rightarrow> time" and o_sink :: "'s sink_ops" and sunk :: "'s \<Rightarrow> notification list" +
  fixes k :: "'s kgo_ops"
  assumes poll_frame: "k_PollFetches k s = (fs, s') \<Longrightarrow> tables s' = tables s \<and> sunk s' = sunk s \<and> fs \<noteq> Panic"
    and commit_frame: "k_CommitUncommittedOffsets k s = (r, s') \<Longrightarrow> tables s' = tables s \<and> sunk s' = sunk s \<and> r \<noteq> Panic"
    and update_outbox_sunk: "g_update_outbox g cs col t s = (n, s') \<Longrightarrow> sunk s' = sunk s"
begin

lemma kafka_Poll_frame:
  assumes "kafka_Poll k c s = (evs, s')"
  shows "tables s' = tables s \<and> sunk s' = sunk s \<and> evs \<noteq> Panic"
proof (cases "kc_group c = []")
  case False
  obtain fs s1 where p: "k_PollFetches k s = (fs, s1)" by fastforce
  from poll_frame [OF p] False p assms show ?thesis
    by (cases fs) (auto simp: kafka_Poll_def bindS_def Let_def split: option.splits prod.splits if_splits)
qed (use assms in \<open>auto simp: kafka_Poll_def\<close>)

lemma kafka_Commit_frame: "kafka_Commit k c s = (r, s') \<Longrightarrow> tables s' = tables s \<and> sunk s' = sunk s \<and> r \<noteq> Panic"
  by (auto simp: kafka_Commit_def commit_frame split: if_splits)

lemma node_env:
  assumes "NewSink o_sink path s0 = (Ok sink, s1)"
  shows "notifier_env (GormDB g) (kafka_consumer k c) sink tables timecol sunk"
proof (intro notifier_env.intro notifier_env_axioms.intro)
  show "outbox_store (GormDB g) tables timecol" by (rule store.outbox_store_axioms)
  show "consumer_ok (kafka_consumer k c) tables sunk"
    by unfold_locales (auto simp: kafka_consumer_def dest: kafka_Poll_frame kafka_Commit_frame)
  show "sink_ok sink tables sunk" by (rule NewSink_ok [OF assms])
  show "sunk s' = sunk s" if "db_SetDeliveredByEventID (GormDB g) eid t s = (r, s')" for eid t s r s'
    using strict_update_state [of _ "g_update_outbox g [EventIdEq eid] DeliveredAtCol t" s] that
    by (auto simp: GormDB_def SetDeliveredByEventID_def prod_eq_iff intro: update_outbox_sunk)
qed

lemmas node_consume = notifier_env.consume_notified [OF node_env]

end

text \<open>The node when its statements and the writes of its notification file do not fail.\<close>

locale answering_node = notifier_node dec g tables numcol timecol o_sink sunk k + answering_store dec g tables numcol timecol up
  for dec :: "'d decimal_ops" and g :: "('d, 's) gorm_ops" and tables :: "'s \<Rightarrow> 'd tables" and numcol :: "'d \<Rightarrow> 'd"
    and timecol :: "time \<Rightarrow> time" and o_sink :: "'s sink_ops" and sunk :: "'s \<Rightarrow> notification list" and k :: "'s kgo_ops"
    and up :: "'s \<Rightarrow> bool" +
  assumes info_up: "up s \<Longrightarrow> up (sk_info o_sink n s)"
    and println_up: "up s \<Longrightarrow> \<exists>s'. sk_println o_sink line s = (Ok (), s') \<and> up s'"
begin

lemma NewSink_up:
  assumes "NewSink o_sink path s0 = (Ok sink, s1)" and "up s" and "notification_json n \<noteq> None"
  shows "\<exists>s'. sink n s = (Ok (), s') \<and> up s'"
proof -
  from assms(3) obtain j where "notification_json n = Some j" by blast
  with println_up [OF info_up [OF assms(2)], of "print_json j" n] have "\<exists>s'. fileSink o_sink n (sk_info o_sink n s) = (Ok (), s') \<and> up s'"
    by (simp add: fileSink_def)
  moreover from assms(1) have "sink = terminalSink o_sink \<or> sink = teeSink [terminalSink o_sink, fileSink o_sink]"
    by (auto simp: NewSink_def bindS_eq_Ok split: if_splits)
  ultimately show ?thesis using info_up [OF assms(2)] by (auto simp: terminalSink_def bindS_def)
qed

lemma node_delivering:
  assumes "NewSink o_sink path s0 = (Ok sink, s1)"
  shows "delivering (GormDB g) (kafka_consumer k c) sink tables timecol sunk up"
  by (intro delivering.intro delivering_axioms.intro node_env [OF assms] NewSink_up [OF assms] GormDB_stamp_up(2))

lemmas node_delivers = delivering.consume_delivers [OF node_delivering]

end

locale notifying_node = answering_node dec g tables numcol timecol o_sink sunk k up + decimal_lib dec val
  for dec :: "'d decimal_ops" and g :: "('d, 's) gorm_ops" and tables :: "'s \<Rightarrow> 'd tables" and numcol :: "'d \<Rightarrow> 'd"
    and timecol :: "time \<Rightarrow> time" and o_sink :: "'s sink_ops" and sunk :: "'s \<Rightarrow> notification list" and k :: "'s kgo_ops"
    and up :: "'s \<Rightarrow> bool" and val :: "'d \<Rightarrow> rat"
begin

lemma poll_delivers:
  assumes "NewSink o_sink path s0 = (Ok sink, s0')"
    and "ns_store h = GormDB g" and "ns_sink h = sink" and "ns_consumer h = kafka_consumer k c"
    and "kc_group c \<noteq> []" and "\<not> cancelled s" and "k_PollFetches k s = (Ok (fes, recs), s1)" and "k_ctx_err k s1 = None"
    and wire: "map (\<lambda>x. (kr_Topic x, kr_Key x, kr_Value x)) recs = map row_wire rows" and "rows = [] \<Longrightarrow> fes = []"
    and "ob_EventID ` set rows \<subseteq> ob_EventID ` set (tb_outbox (tables s))"
    and rows: "\<And>r. r \<in> set rows \<Longrightarrow> announces dec (ev_of r) (ord_of r) r"
    and "up s1" and "db_ok (tables s)"
  shows "\<exists>s2. sunk s2 = sunk s @ map (\<lambda>r. note_of (ev_of r) (ord_of r) True) rows \<and>
    delivered_to (tb_outbox (tables s)) (tb_outbox (tables s2)) \<and>
    filter undelivered (tb_outbox (tables s2))
      = filter (\<lambda>r. ob_EventID r \<notin> ob_EventID ` set rows) (filter undelivered (tb_outbox (tables s))) \<and>
    consume dec h clock cancelled s = consume dec h clock cancelled (snd (kafka_Commit k c s2))"
proof -
  let ?ns = "map (\<lambda>r. note_of (ev_of r) (ord_of r) True) rows"
  from announced_records [OF wire rows] obtain evs where evs: "decode_records recs = (evs, [])" "length evs = length rows"
    "map (\<lambda>ev. notificationFromEvent dec ev True) evs = map Ok ?ns" by blast
  have poll: "con_Poll (kafka_consumer k c) s = (Ok evs, s1)"
    using assms(5,7,8,10) evs(1,2) by (cases rows) (auto simp: kafka_consumer_def kafka_Poll_def fetch_errors_def bindS_def)
  have ids: "n_EventID ` set ?ns = ob_EventID ` set rows"
    using rows by (force simp: note_of_def announces_def image_image)
  have json: "list_all (\<lambda>n. notification_json n \<noteq> None) ?ns" using note_of_json [OF rows] by (auto simp: list_all_iff)
  from assms(11) ids have "n_EventID ` set ?ns \<subseteq> ob_EventID ` set (tb_outbox (tables s))" by auto
  from node_delivers [where cancelled = cancelled, OF assms(1-4,6) poll assms(13,14) evs(3) json this, of clock]
  show ?thesis unfolding ids by (simp add: kafka_consumer_def)
qed

end

text \<open>The sink of the reference world: the logger's records, and a file whose writes may fail.\<close>

definition world_sink :: "world sink_ops" where
  "world_sink =
     \<lparr>sk_info = (\<lambda>n s. s\<lparr>w_sunk := w_sunk s @ [n]\<rparr>), sk_open = (\<lambda>_. returnS ()),
      sk_println = (\<lambda>line s. let s1 = s\<lparr>w_file_faults := tl (w_file_faults s)\<rparr> in
        if w_file_faults s \<noteq> [] \<and> hd (w_file_faults s) then (Fail (ErrExt ''disk full''), s1)
        else (Ok (), s1\<lparr>w_file := w_file s @ [line]\<rparr>))\<rparr>"

interpretation world: notifier_node dec10 "mem_engine pg" m_tables "mem_numcol pg" "mem_timecol pg" world_sink w_sunk world_kgo
  for pg
  by unfold_locales
    (auto simp: world_sink_def world_kgo_def world_poll_def mem_engine_def mem_stmt_def Let_def split: if_splits option.splits)

definition world_live :: "world \<Rightarrow> bool" where
  "world_live s \<longleftrightarrow> world_up s \<and> w_file_faults s = []"

interpretation world: answering_node dec10 "mem_engine pg" m_tables "mem_numcol pg" "mem_timecol pg" world_sink w_sunk world_kgo world_live
  for pg
proof unfold_locales
  show "world_live s \<Longrightarrow> \<exists>xs s'. g_find_outbox (mem_engine pg) bq s = (Ok xs, s') \<and> world_live s'" for s bq
    by (simp add: world_live_def world_up_def mem_engine_def mem_read_def mem_stmt_def Let_def)
  show "world_live s \<Longrightarrow> \<exists>n s'. g_update_outbox (mem_engine pg) cs col t s = (Ok n, s') \<and> world_live s'" for s cs col t
    using mem_update_ok [of pg cs col t "m_tables s"]
    by (cases "mem_update pg cs col t (m_tables s)")
      (auto simp: world_live_def world_up_def mem_engine_def mem_stmt_def Let_def mem_update_def)
qed (simp_all add: world_live_def world_up_def world_sink_def)

interpretation world: notifying_node dec10 "mem_engine pg" m_tables "mem_numcol pg" "mem_timecol pg" world_sink w_sunk world_kgo world_live dec10_val
  for pg
  by (rule notifying_node.intro [OF world.answering_node_axioms dec10.decimal_lib_axioms])

context notifier_env
begin

lemma dispatch_sink_fails:
  assumes h: "ns_sink h = sink" and down: "\<And>n s. \<exists>e s'. sink n s = (Fail e, s')"
  shows "\<exists>s'. dispatch dec h clock ev s = (Ok (), s') \<and> tables s' = tables s"
proof (cases "notificationFromEvent dec ev True")
  case (Ok n)
  from down obtain e s' where "sink n s = (Fail e, s')" by blast
  with Ok h Write_tables show ?thesis by (fastforce simp: dispatch_def)
qed (use notificationFromEvent_no_panic [of dec ev True] in \<open>auto simp: dispatch_def\<close>)

lemma dispatch_all_sink_fails:
  assumes h: "ns_sink h = sink" and down: "\<And>n s. \<exists>e s'. sink n s = (Fail e, s')"
  shows "\<exists>s'. dispatch_all dec h clock evs s = (Ok (), s') \<and> tables s' = tables s"
proof (induction evs arbitrary: s)
  case (Cons ev evs)
  from dispatch_sink_fails [OF h down] obtain s1 where "dispatch dec h clock ev s = (Ok (), s1)" "tables s1 = tables s" by blast
  with Cons [of s1] show ?case by (auto simp: go_simps)
qed simp

lemma consume_sink_fails:
  assumes h: "ns_sink h = sink" "ns_consumer h = con" and down: "\<And>n s. \<exists>e s'. sink n s = (Fail e, s')"
    and "\<not> cancelled s" and p: "con_Poll con s = (Ok evs, s1)"
  shows "\<exists>s2. tables s2 = tables s \<and>
    consume dec h clock cancelled s = consume dec h clock cancelled (snd (con_Commit con s2))"
proof -
  from dispatch_all_sink_fails [OF h(1) down] obtain s2 where d: "dispatch_all dec h clock evs s1 = (Ok (), s2)" "tables s2 = tables s1" by blast
  obtain r3 s3 where c: "con_Commit con s2 = (r3, s3)" by fastforce
  with Commit_frame [OF c] have "consume dec h clock cancelled s = consume dec h clock cancelled s3"
    using assms d by (subst consume.simps) (cases r3; simp)
  with c d Poll_frame [OF p] show ?thesis by (intro exI [of _ s2]) simp
qed

end

section \<open>Theorems\<close>

definition demo_notifier :: "world sink \<Rightarrow> (dec10, world) notifier_service" where
  "demo_notifier sink = Notifier_NewService (w_notifier_runner, \<lambda>r. w_notifier_runner_update (\<lambda>_. r))
     (Authenticate [''secret'' \<mapsto> ''alice'']) (GormDB (mem_engine False))
     (kafka_consumer world_kgo \<lparr>kc_addresses = [''broker:9092''], kc_group = ConsumerGroup\<rparr>) sink"

lemma demo_notifier_fields [simp]:
  "ns_store (demo_notifier sink) = GormDB (mem_engine False)" "ns_sink (demo_notifier sink) = sink"
  "ns_consumer (demo_notifier sink) = kafka_consumer world_kgo \<lparr>kc_addresses = [''broker:9092''], kc_group = ConsumerGroup\<rparr>"
  by (simp_all add: demo_notifier_def Notifier_NewService_def)

lemma demo_notify_inv: "notify_inv (m_tables (demo_world [])) (w_sunk (demo_world []))"
  by code_simp



text \<open>C16: A failed delivery is not retried. When the sink rejects every notification, the loop still
  commits the offsets of the polled events: it goes on from the committed state, in which no row is marked.\<close>

theorem notifier_commits_failures:
  assumes "notifier_node dec g tables numcol timecol o_sink sunk k" and "NewSink o_sink path s0 = (Ok sink, s1)"
    and "ns_sink h = sink" and "ns_consumer h = kafka_consumer k c"
    and "\<And>n s. \<exists>e s'. sink n s = (Fail e, s')" and "\<not> cancelled s" and "kafka_Poll k c s = (Ok (evs :: 'd event list), s2)"
  shows "\<exists>s3. tables s3 = tables s \<and>
    consume (dec :: 'd decimal_ops) h clock cancelled s = consume dec h clock cancelled (snd (kafka_Commit k c s3))"
  using notifier_env.consume_sink_fails [where cancelled = cancelled and s = s, OF notifier_node.node_env [OF assms(1,2)] assms(3,4,5,6)] assms(7)
  by (simp add: kafka_consumer_def)

definition full_sink :: "world sink_ops" where
  "full_sink = world_sink\<lparr>sk_println := \<lambda>_ s. (Fail (ErrExt ''disk full''), s)\<rparr>"

interpretation full: notifier_node dec10 "mem_engine pg" m_tables "mem_numcol pg" "mem_timecol pg" full_sink w_sunk world_kgo
  for pg
  by unfold_locales
    (auto simp: full_sink_def world_sink_def intro: world.update_outbox_sunk dest: world.poll_frame world.commit_frame)

theorem notifier_commits_failures_witness:
  "\<exists>s. m_tables s = m_tables (demo_world []) \<and>
     consume dec10 (demo_notifier (teeSink [terminalSink full_sink, fileSink full_sink])) (\<lambda>_. zero_time) (\<lambda>_. False) (demo_world [])
       = consume dec10 (demo_notifier (teeSink [terminalSink full_sink, fileSink full_sink])) (\<lambda>_. zero_time) (\<lambda>_. False)
           (snd (kafka_Commit world_kgo \<lparr>kc_addresses = [''broker:9092''], kc_group = ConsumerGroup\<rparr> s))"
proof -
  have n: "NewSink full_sink ''f'' (demo_world []) = (Ok (teeSink [terminalSink full_sink, fileSink full_sink]), demo_world [])"
    by (simp add: NewSink_def newFileSink_def full_sink_def world_sink_def go_simps wrapS_def bindS_def)
  have down: "\<exists>e s'. teeSink [terminalSink full_sink, fileSink full_sink] n s = (Fail e, s')" for n s
    by (simp add: terminalSink_def fileSink_def full_sink_def bindS_def split: option.split)
  obtain evs s2 where "kafka_Poll world_kgo \<lparr>kc_addresses = [''broker:9092''], kc_group = ConsumerGroup\<rparr> (demo_world []) = (Ok (evs :: dec10 event list), s2)"
  proof -
    have "is_ok (fst (kafka_Poll world_kgo \<lparr>kc_addresses = [''broker:9092''], kc_group = ConsumerGroup\<rparr> (demo_world []) :: dec10 event list res \<times> world))"
      by code_simp
    with that show thesis by (metis is_ok_iff prod.collapse)
  qed
  from notifier_commits_failures [OF full.notifier_node_axioms n _ _ down _ this, of "demo_notifier (teeSink [terminalSink full_sink, fileSink full_sink])" "\<lambda>_. False"]
  show ?thesis by (simp del: teeSink.simps)
qed

text \<open>C15: The notifier delivers what it polls. When a poll brings the messages of outbox rows that announce
  orders, fetch errors of other partitions notwithstanding, and the sink and the statements answer, then
  exactly the notifications of those orders reach the sink, in the order of the records, exactly the rows of
  those events stop being undelivered, and the loop commits the offsets and goes on from there.\<close>

theorem notifier_delivers:
  assumes "notifying_node dec g tables numcol timecol o_sink sunk k up val"
    and "NewSink o_sink path s0 = (Ok sink, s0')"
    and "ns_store h = GormDB g" and "ns_sink h = sink" and "ns_consumer h = kafka_consumer k c"
    and "kc_group c \<noteq> []" and "\<not> cancelled s" and "k_PollFetches k s = (Ok (fes, recs), s1)" and "k_ctx_err k s1 = None"
    and "map (\<lambda>x. (kr_Topic x, kr_Key x, kr_Value x)) recs = map row_wire rows" and "rows = [] \<Longrightarrow> fes = []"
    and "ob_EventID ` set rows \<subseteq> ob_EventID ` set (tb_outbox (tables s))" and "\<And>r. r \<in> set rows \<Longrightarrow> announces dec (ev_of r) (ord_of r) r"
    and "up s1" and "db_ok (tables s)"
  shows "\<exists>s2. sunk s2 = sunk s @ map (\<lambda>r. note_of (ev_of r) (ord_of r) True) rows \<and>
    delivered_to (tb_outbox (tables s)) (tb_outbox (tables s2)) \<and>
    filter undelivered (tb_outbox (tables s2))
      = filter (\<lambda>r. ob_EventID r \<notin> ob_EventID ` set rows) (filter undelivered (tb_outbox (tables s))) \<and>
    consume dec h clock cancelled s = consume dec h clock cancelled (snd (kafka_Commit k c s2))"
  by (rule notifying_node.poll_delivers [where cancelled = cancelled and s = s and rows = rows and ev_of = ev_of and ord_of = ord_of, OF assms])

text \<open>C17: The notifications view. Over rows that announce orders the handler answers with one notification
  per row, oldest first, with the event, reference and customer of the order and whether the row is marked as
  delivered; with \<open>undelivered=true\<close> only unmarked rows are listed. It changes nothing.\<close>

theorem notifications_view:
  assumes "gorm dec g tables numcol timecol" and "decimal_lib dec val" and "ns_store h = GormDB g"
    and "\<And>r. r \<in> set (tb_outbox (tables s)) \<Longrightarrow> announces dec (ev_of r) (ord_of r) r"
    and "Notifications_handler dec h req p s = (Ok payload, s')"
  shows "tables s' = tables s \<and> payload = NotificationsPayload
    (map (\<lambda>r. note_of (ev_of r) (ord_of r) (ob_DeliveredAt r \<noteq> None))
      (sort_key ob_ID (filter (\<lambda>r. Query_Get req ''undelivered'' = ''true'' \<longrightarrow> ob_DeliveredAt r = None) (tb_outbox (tables s)))))"
proof -
  note store = gorm.GormDB_outbox [OF assms(1)]
  let ?q = "Some \<lparr>OnlyUnpublished = False, OnlyUndelivered = (Query_Get req ''undelivered'' = ''true''), QLimit = 0\<rparr>"
  from assms(5) obtain items ns where g: "db_GetOutboxItems (GormDB g) ?q s = (Ok items, s')"
    and r: "render_rows dec items = Ok ns" "payload = NotificationsPayload ns"
    unfolding Notifications_handler_def Let_def assms(3) by (auto simp: bindS_eq_Ok)
  have items: "items = outbox_view ?q (tb_outbox (tables s))" and t: "tables s' = tables s"
    using stmt_Ok [OF outbox_store.GetOutboxItems [OF store] g] by auto
  have "filter (outbox_selected ?q) rows = filter (\<lambda>r. Query_Get req ''undelivered'' = ''true'' \<longrightarrow> ob_DeliveredAt r = None) rows" for rows
    by (rule filter_cong) (simp_all add: outbox_selected_def)
  then have "items = sort_key ob_ID (filter (\<lambda>r. Query_Get req ''undelivered'' = ''true'' \<longrightarrow> ob_DeliveredAt r = None) (tb_outbox (tables s)))"
    unfolding items by (simp add: outbox_view_def limited_def)
  with r t decimal_lib.render_rows_announced [OF assms(2), of items ev_of ord_of] assms(4) show ?thesis by auto
qed

definition demo_order_of :: "outbox_item \<Rightarrow> dec10 order" where
  "demo_order_of r = (zero_order dec10)\<lparr>o_ID := ob_ID r, o_Reference := ob_PartitionKey r\<rparr>"

definition demo_event_of :: "outbox_item \<Rightarrow> dec10 event" where
  "demo_event_of r = Event_New (ob_EventID r) zero_time TopicOrderCreated (ob_PartitionKey r) (OrderData (demo_order_of r))"

theorem notifier_delivers_witness:
  "\<exists>s2. map n_Reference (w_sunk s2) = [''a''] \<and> map ob_PartitionKey (filter undelivered (tb_outbox (m_tables s2))) = [''c'', ''b''] \<and>
     consume dec10 (demo_notifier (terminalSink world_sink)) (\<lambda>_. zero_time) (\<lambda>_. False) (demo_world [])
       = consume dec10 (demo_notifier (terminalSink world_sink)) (\<lambda>_. zero_time) (\<lambda>_. False)
           (snd (kafka_Commit world_kgo \<lparr>kc_addresses = [''broker:9092''], kc_group = ConsumerGroup\<rparr> s2))"
proof -
  let ?row = "demo_row 1 ''a'' (Some zero_time)" and ?s1 = "(demo_world [])\<lparr>w_pos := 1\<rparr>"
  let ?rec = "\<lparr>kr_Topic = ob_Topic ?row, kr_Key = ob_PartitionKey ?row, kr_Value = ob_Data ?row, kr_Partition = 0, kr_Offset = 0\<rparr>"
  have sink: "NewSink world_sink [] (demo_world []) = (Ok (terminalSink world_sink), demo_world [])" by (simp add: NewSink_def)
  have rows: "tb_outbox (m_tables (demo_world [])) = demo_outbox" by (simp add: demo_world_def world_with_def)
  have ok: "db_ok (m_tables (demo_world []))" using demo_world_inv [of "[]"] by (simp add: relay_inv_def)
  have "announces dec10 (demo_event_of ?row) (demo_order_of ?row) ?row" by code_simp
  then have a: "announces dec10 (demo_event_of r) (demo_order_of r) r" if "r \<in> set [?row]" for r using that by simp
  have poll: "k_PollFetches world_kgo (demo_world []) = (Ok ([], [?rec]), ?s1)" by code_simp
  have live: "world_live ?s1" by (simp add: world_live_def world_up_def demo_world_def world_with_def)
  have group: "kc_group \<lparr>kc_addresses = [''broker:9092''], kc_group = ConsumerGroup\<rparr> \<noteq> []" by (simp add: ConsumerGroup_def)
  have ctx: "k_ctx_err world_kgo ?s1 = None" by (simp add: world_kgo_def)
  have wire: "map (\<lambda>x. (kr_Topic x, kr_Key x, kr_Value x)) [?rec] = map row_wire [?row]" by (simp add: row_wire_def)
  have sub: "ob_EventID ` set [?row] \<subseteq> ob_EventID ` set (tb_outbox (m_tables (demo_world [])))" unfolding rows by (simp add: demo_outbox_def)
  have keys: "map n_Reference (w_sunk (demo_world []) @ map (\<lambda>r. note_of (demo_event_of r) (demo_order_of r) True) [?row]) = [''a'']"
    "map ob_PartitionKey (filter (\<lambda>r. ob_EventID r \<notin> ob_EventID ` set [?row]) (filter undelivered demo_outbox)) = [''c'', ''b'']"
    by code_simp+
  have "\<not> (\<lambda>_. False) (demo_world [])" "[?row] = [] \<Longrightarrow> ([] :: fetch_error list) = []" by simp_all
  from notifier_delivers [OF world.notifying_node_axioms sink demo_notifier_fields group this(1) poll ctx wire
    this(2) sub a live ok, of "\<lambda>_. zero_time"]
  obtain s2 where s2: "w_sunk s2 = w_sunk (demo_world []) @ map (\<lambda>r. note_of (demo_event_of r) (demo_order_of r) True) [?row]"
      "filter undelivered (tb_outbox (m_tables s2))
        = filter (\<lambda>r. ob_EventID r \<notin> ob_EventID ` set [?row]) (filter undelivered demo_outbox)"
      "consume dec10 (demo_notifier (terminalSink world_sink)) (\<lambda>_. zero_time) (\<lambda>_. False) (demo_world [])
        = consume dec10 (demo_notifier (terminalSink world_sink)) (\<lambda>_. zero_time) (\<lambda>_. False)
           (snd (kafka_Commit world_kgo \<lparr>kc_addresses = [''broker:9092''], kc_group = ConsumerGroup\<rparr> s2))"
    unfolding rows by blast
  show ?thesis by (intro exI [of _ s2] conjI, unfold s2(1,2)) (fact keys s2(3))+
qed

definition view_request :: request where
  "view_request = \<lparr>r_Method = ''GET'', r_Path = NotificationsEndPnt, r_Query = [(''undelivered'', ''true'')], r_Header = Map.empty,
     r_Body = [], r_Context = \<lparr>c_userID = Some ''alice''\<rparr>\<rparr>"

theorem notifications_view_witness:
  "\<exists>s'. Notifications_handler dec10 (demo_notifier (terminalSink world_sink)) view_request [] (demo_world []) =
     (Ok (NotificationsPayload (map (\<lambda>r. note_of (demo_event_of r) (demo_order_of r) (ob_DeliveredAt r \<noteq> None))
        (sort_key ob_ID demo_outbox))), s')"
proof -
  have "is_ok (fst (Notifications_handler dec10 (demo_notifier (terminalSink world_sink)) view_request [] (demo_world [])))"
    by code_simp
  then obtain payload s' where h: "Notifications_handler dec10 (demo_notifier (terminalSink world_sink)) view_request [] (demo_world [])
      = (Ok payload, s')" by (metis is_ok_iff prod.collapse)
  have "list_all (\<lambda>r. announces dec10 (demo_event_of r) (demo_order_of r) r) demo_outbox" by code_simp
  then have a: "announces dec10 (demo_event_of r) (demo_order_of r) r" if "r \<in> set (tb_outbox (m_tables (demo_world [])))" for r
    using that by (simp add: list_all_iff demo_world_def world_with_def)
  have "filter (\<lambda>r. Query_Get view_request ''undelivered'' = ''true'' \<longrightarrow> ob_DeliveredAt r = None) demo_outbox = demo_outbox"
    by code_simp
  then show ?thesis
    using notifications_view [OF mem.gorm_axioms dec10.decimal_lib_axioms _ a h] h
    by (auto simp: demo_world_def world_with_def)
qed

end
