(* ===== verification/Server.thy ===== *)
theory Server
  imports Notifier
begin

text \<open>
  The node around a service: the service contract (\<^verbatim>\<open>services/service.go\<close>) and the life cycle of
  the HTTP server (\<^verbatim>\<open>httpserver/server.go\<close>). The listener runs in a goroutine that interleaves with
  the caller, as a step relation. The router and the network listener are parameters.
\<close>

section \<open>Services\<close>

record 's service =
  svc_Start :: "('s, unit) io"
  svc_Stop :: "'s \<Rightarrow> (unit res \<times> 's) option"
  svc_RegisterHandlers :: "'s endpoint list"

definition orders_as_service ::
  "'d decimal_ops \<Rightarrow> string \<Rightarrow> 's handle \<Rightarrow> (request \<Rightarrow> string \<times> string \<times> time) \<Rightarrow> ('d, 's) orders_service \<Rightarrow> 's service" where
  "orders_as_service dec version promhttp fresh h =
     \<lparr>svc_Start = Service_Start h, svc_Stop = Service_Stop h,
      svc_RegisterHandlers = RegisterHandlers dec version promhttp fresh h\<rparr>"

definition notifier_as_service ::
  "'d decimal_ops \<Rightarrow> string \<Rightarrow> 's handle \<Rightarrow> ('d, 's) notifier_service \<Rightarrow> 's service" where
  "notifier_as_service dec version promhttp h =
     \<lparr>svc_Start = Notifier_Start h, svc_Stop = Notifier_Stop h,
      svc_RegisterHandlers = Notifier_RegisterHandlers dec version promhttp h\<rparr>"

section \<open>The HTTP server\<close>

text \<open>
  Where the serving goroutine is: not started, spawned, past storing the flag, listening, or
  returned (the port is taken, or the server was shut down). \<open>hs_down\<close> records that \<^verbatim>\<open>Shutdown\<close>
  was called, after which \<^verbatim>\<open>ListenAndServe\<close> returns at once.
\<close>

datatype serving = NotSpawned | Spawned | Marked | Listening | Returned

record 's http_server =
  hs_Addr :: string
  hs_ReadHeaderTimeout :: int
  hs_service :: "'s service"
  hs_started :: bool
  hs_Handler :: "(request \<Rightarrow> (writer \<times> 's, observation) io) option"
  hs_serving :: serving
  hs_down :: bool
  hs_state :: 's

definition HTTPServer_New :: "int \<Rightarrow> 's service \<Rightarrow> 's \<Rightarrow> 's http_server" where
  "HTTPServer_New port svc s =
     \<lparr>hs_Addr = CHR '':'' # print_int port, hs_ReadHeaderTimeout = 5000000000, hs_service = svc, hs_started = False,
      hs_Handler = None, hs_serving = NotSpawned, hs_down = False, hs_state = s\<rparr>"

definition HTTPServer_Start ::
  "('s endpoint list \<Rightarrow> request \<Rightarrow> (writer \<times> 's, unit) io) \<Rightarrow> 's http_server \<Rightarrow> unit res \<times> 's http_server" where
  "HTTPServer_Start router h =
     (let h = h\<lparr>hs_Handler := Some (Observer (router (svc_RegisterHandlers (hs_service h))))\<rparr> in
      case svc_Start (hs_service h) (hs_state h) of
        (Fail e, s) \<Rightarrow> (Fail e, h\<lparr>hs_state := s\<rparr>)
      | (Panic, s) \<Rightarrow> (Panic, h\<lparr>hs_state := s\<rparr>)
      | (Ok _, s) \<Rightarrow> (Ok (), h\<lparr>hs_state := s, hs_serving := Spawned\<rparr>))"

text \<open>The steps of the serving goroutine.\<close>

inductive serve_step :: "'s http_server \<Rightarrow> 's http_server \<Rightarrow> bool" where
  mark: "hs_serving h = Spawned \<Longrightarrow> serve_step h (h\<lparr>hs_started := True, hs_serving := Marked\<rparr>)"
| listen: "hs_serving h = Marked \<Longrightarrow> \<not> hs_down h \<Longrightarrow> serve_step h (h\<lparr>hs_serving := Listening\<rparr>)"
| give_up: "hs_serving h = Marked \<Longrightarrow> serve_step h (h\<lparr>hs_serving := Returned\<rparr>)"

text \<open>
  \<open>shutdown\<close> is the outcome of the graceful shutdown of the listener, which fails when requests
  are still running after the timeout. Either way the listener is closed.
\<close>

definition HTTPServer_Stop :: "unit res \<Rightarrow> 's http_server \<Rightarrow> (unit res \<times> 's http_server) option" where
  "HTTPServer_Stop shutdown h =
     (if \<not> hs_started h then Some (Ok (), h)
      else let h = h\<lparr>hs_started := False, hs_down := True,
                     hs_serving := (if hs_serving h = Listening then Returned else hs_serving h)\<rparr> in
        case shutdown of
          Fail e \<Rightarrow> Some (Fail e, h)
        | Panic \<Rightarrow> Some (Panic, h)
        | Ok _ \<Rightarrow> map_option (\<lambda>(r, s). (r, h\<lparr>hs_state := s\<rparr>)) (svc_Stop (hs_service h) (hs_state h)))"

definition Port :: "'s http_server \<Rightarrow> string" where
  "Port h = hs_Addr h"

section \<open>Facts\<close>

inductive_simps serve_step_iff: "serve_step h h'"

lemma HTTPServer_Start_cases:
  assumes "HTTPServer_Start router h = (r, h')"
  obtains s where "svc_Start (hs_service h) (hs_state h) = (r, s)" "hs_state h' = s" "hs_service h' = hs_service h"
    "hs_started h' = hs_started h" "hs_down h' = hs_down h" "hs_serving h' = (if is_ok r then Spawned else hs_serving h)"
proof -
  obtain r' s where s: "svc_Start (hs_service h) (hs_state h) = (r', s)" by fastforce
  with assms that show thesis by (cases r') (auto simp: HTTPServer_Start_def Let_def)
qed

lemma serve_step_frame:
  "serve_step\<^sup>*\<^sup>* h h' \<Longrightarrow> hs_state h' = hs_state h \<and> hs_service h' = hs_service h \<and> hs_down h' = hs_down h"
  by (induction rule: rtranclp_induct) (auto simp: serve_step_iff)

lemma shut_down_never_listens:
  "serve_step\<^sup>*\<^sup>* h h'' \<Longrightarrow> hs_down h \<Longrightarrow> hs_serving h \<noteq> Listening \<Longrightarrow> hs_down h'' \<and> hs_serving h'' \<noteq> Listening"
  by (induction rule: rtranclp_induct) (auto simp: serve_step_iff)

section \<open>Theorems\<close>

text \<open>A service that fails to start is not served: the error is returned and no goroutine is spawned,
  so in every state reached from there the server is not listening.\<close>

theorem server_start_failure:
  assumes "hs_serving h = NotSpawned" and "HTTPServer_Start router h = (Fail e, h')" and "serve_step\<^sup>*\<^sup>* h' h''"
  shows "h'' = h' \<and> hs_serving h'' = NotSpawned \<and> fst (svc_Start (hs_service h) (hs_state h)) = Fail e"
proof -
  from assms(2) have n: "hs_serving h' = NotSpawned" "fst (svc_Start (hs_service h) (hs_state h)) = Fail e"
    using assms(1) by (auto elim: HTTPServer_Start_cases)
  from assms(3) n have "h'' = h'" by (induction rule: rtranclp_induct) (auto simp: serve_step_iff)
  with n show ?thesis by simp
qed

definition demo_node :: "'s service \<Rightarrow> 's \<Rightarrow> 's http_server" where
  "demo_node svc s = HTTPServer_New 8000 svc s"

definition down_service :: "unit service" where
  "down_service = \<lparr>svc_Start = failS (ErrExt ''broker down''), svc_Stop = (\<lambda>s. Some (Ok (), s)), svc_RegisterHandlers = []\<rparr>"

theorem server_start_failure_witness:
  "hs_serving (snd (HTTPServer_Start (\<lambda>_ _. returnS ()) (demo_node down_service ()))) = NotSpawned"
proof -
  have s: "HTTPServer_Start (\<lambda>_ _. returnS ()) (demo_node down_service ())
      = (Fail (ErrExt ''broker down''), snd (HTTPServer_Start (\<lambda>_ _. returnS ()) (demo_node down_service ())))"
    by (simp add: HTTPServer_Start_def down_service_def demo_node_def HTTPServer_New_def Let_def)
  show ?thesis using server_start_failure [OF _ s rtranclp.rtrancl_refl] by (simp add: demo_node_def HTTPServer_New_def)
qed

text \<open>C18: Stopping a node that is up. Once the goroutine has stored its flag, a stop whose listener shuts
  down in time stops the service and leaves no listener, and a second stop changes nothing.\<close>

theorem server_stop:
  assumes "hs_started h" and "svc_Stop (hs_service h) (hs_state h) = Some (r, s)"
  shows "\<exists>h'. HTTPServer_Stop (Ok ()) h = Some (r, h') \<and> hs_state h' = s \<and>
    (\<forall>h''. serve_step\<^sup>*\<^sup>* h' h'' \<longrightarrow> hs_serving h'' \<noteq> Listening) \<and>
    (\<forall>shutdown. HTTPServer_Stop shutdown h' = Some (Ok (), h'))"
proof -
  define h' where "h' = h\<lparr>hs_started := False, hs_down := True,
      hs_serving := (if hs_serving h = Listening then Returned else hs_serving h), hs_state := s\<rparr>"
  have "hs_down h'" "hs_serving h' \<noteq> Listening" by (simp_all add: h'_def)
  then have "hs_serving h'' \<noteq> Listening" if "serve_step\<^sup>*\<^sup>* h' h''" for h''
    using shut_down_never_listens [OF that] by blast
  moreover have "HTTPServer_Stop (Ok ()) h = Some (r, h')" using assms by (simp add: HTTPServer_Stop_def Let_def h'_def)
  moreover have "HTTPServer_Stop shutdown h' = Some (Ok (), h')" for shutdown by (simp add: HTTPServer_Stop_def h'_def)
  moreover have "hs_state h' = s" by (simp add: h'_def)
  ultimately show ?thesis by blast
qed

theorem server_stop_witness:
  "\<exists>h'. HTTPServer_Stop (Ok ()) ((demo_node down_service ())\<lparr>hs_started := True, hs_serving := Listening\<rparr>) = Some (Ok (), h') \<and>
     hs_state h' = ()"
  using server_stop [of "(demo_node down_service ())\<lparr>hs_started := True, hs_serving := Listening\<rparr>" "Ok ()" "()"]
  by (auto simp: demo_node_def HTTPServer_New_def down_service_def)

text \<open>C19: A stop that overtakes the serving goroutine is lost. Right after a successful start the flag is
  not yet set, so a stop returns success without stopping the service or shutting the listener down, and the
  server can still come up afterwards.\<close>

theorem server_stop_race:
  assumes "\<not> hs_started h" and "\<not> hs_down h" and "HTTPServer_Start router h = (Ok u, h')"
  shows "HTTPServer_Stop shutdown h' = Some (Ok (), h') \<and>
    (\<exists>h''. serve_step\<^sup>*\<^sup>* h' h'' \<and> hs_serving h'' = Listening \<and> hs_state h'' = hs_state h')"
proof -
  from assms have h: "\<not> hs_started h'" "\<not> hs_down h'" "hs_serving h' = Spawned" by (auto elim: HTTPServer_Start_cases)
  let ?m = "h'\<lparr>hs_started := True, hs_serving := Marked\<rparr>"
  have "serve_step h' ?m" using h by (intro serve_step.mark)
  moreover have "serve_step ?m (?m\<lparr>hs_serving := Listening\<rparr>)" using h by (intro serve_step.listen) simp_all
  ultimately have "serve_step\<^sup>*\<^sup>* h' (?m\<lparr>hs_serving := Listening\<rparr>)" by (meson converse_rtranclp_into_rtranclp rtranclp.rtrancl_refl)
  moreover have "HTTPServer_Stop shutdown h' = Some (Ok (), h')" using h by (simp add: HTTPServer_Stop_def)
  ultimately show ?thesis by (auto intro!: exI [of _ "?m\<lparr>hs_serving := Listening\<rparr>"])
qed

definition up_service :: "unit service" where
  "up_service = down_service\<lparr>svc_Start := returnS ()\<rparr>"

theorem server_stop_race_witness:
  "\<exists>h' h''. HTTPServer_Stop (Ok ()) h' = Some (Ok (), h') \<and> serve_step\<^sup>*\<^sup>* h' h'' \<and> hs_serving h'' = Listening \<and>
     HTTPServer_Start (\<lambda>_ _. returnS ()) (demo_node up_service ()) = (Ok (), h')"
proof -
  obtain h' where s: "HTTPServer_Start (\<lambda>_ _. returnS ()) (demo_node up_service ()) = (Ok (), h')"
    by (simp add: HTTPServer_Start_def up_service_def down_service_def demo_node_def HTTPServer_New_def Let_def)
  have "\<not> hs_started (demo_node up_service ())" "\<not> hs_down (demo_node up_service ())"
    by (simp_all add: demo_node_def HTTPServer_New_def)
  from server_stop_race [OF this s, of "Ok ()"] s show ?thesis by blast
qed

end
