(* ===== verification/Logging.thy ===== *)
theory Logging
  imports Go_Time
begin

text \<open>
  Logging and build information: the logger set-up and the writer that colours the level of
  each log line (\<^verbatim>\<open>cmd/logging.go\<close>), the version-control stamps of the binary
  (\<^verbatim>\<open>constants/version.go\<close>) and the version command (\<^verbatim>\<open>cmd/version.go\<close>).
\<close>

section \<open>Set-up\<close>

definition upper :: "char \<Rightarrow> char" where
  "upper c = (if 97 \<le> (of_char c :: nat) \<and> (of_char c :: nat) \<le> 122 then char_of ((of_char c :: nat) - 32) else c)"

text \<open>\<^verbatim>\<open>strconv.Atoi\<close> on the offset of a level, in the range of an int.\<close>

definition atoi :: "string \<Rightarrow> int option" where
  "atoi t =
     (let neg = (t \<noteq> [] \<and> hd t = CHR ''-'');
          ds = (if t \<noteq> [] \<and> (hd t = CHR ''-'' \<or> hd t = CHR ''+'') then tl t else t);
          n = (if neg then - int (digits_val ds) else int (digits_val ds))
      in if ds \<noteq> [] \<and> list_all is_digit ds \<and> - (2 ^ 63) \<le> n \<and> n < 2 ^ 63 then Some n else None)"

text \<open>\<^verbatim>\<open>slog.Level.UnmarshalText\<close>: a name in any case, and an offset after a sign.\<close>

definition level_names :: "(string \<times> int) list" where
  "level_names = [(''DEBUG'', -4), (''INFO'', 0), (''WARN'', 4), (''ERROR'', 8)]"

definition parse_level :: "string \<Rightarrow> int option" where
  "parse_level t =
     (let name = takeWhile (\<lambda>c. c \<noteq> CHR ''+'' \<and> c \<noteq> CHR ''-'') t; rest = drop (length name) t
      in Option.bind (if rest = [] then Some 0 else atoi rest) (\<lambda>offset.
           map_option (\<lambda>l. l + offset) (map_of level_names (map upper name))))"

datatype log_format = JSONHandler | TextHandler bool

record logger =
  lg_level :: int
  lg_format :: log_format

definition formatText :: string where "formatText = ''text''"
definition formatJSON :: string where "formatJSON = ''json''"

text \<open>The environment is given by the lookup of its variables; an unset one reads as empty.\<close>

definition defaultColorEnabled :: "(string \<Rightarrow> string) \<Rightarrow> bool" where
  "defaultColorEnabled env =
     (if env ''NO_COLOR'' \<noteq> [] then False
      else let term = env ''TERM'' in term \<noteq> [] \<and> term \<noteq> ''dumb'')"

definition initLogging :: "(string \<Rightarrow> string) \<Rightarrow> string \<Rightarrow> string \<Rightarrow> logger res" where
  "initLogging env logLevelStr format =
     (case parse_level logLevelStr of
        None \<Rightarrow> Fail (ErrExt ''slog: level string'')
      | Some level \<Rightarrow>
          if format = formatJSON then Ok \<lparr>lg_level = level, lg_format = JSONHandler\<rparr>
          else if format = formatText then Ok \<lparr>lg_level = level, lg_format = TextHandler (defaultColorEnabled env)\<rparr>
          else Fail (ErrExt ''invalid log format''))"

section \<open>Colours\<close>

definition esc :: "string \<Rightarrow> string" where "esc code = CHR 0x1B # CHR ''['' # code @ ''m''"
definition cReset :: string where "cReset = esc ''0''"
definition cRed :: string where "cRed = esc ''31''"
definition cYel :: string where "cYel = esc ''33''"
definition cGrn :: string where "cGrn = esc ''32''"
definition cCyn :: string where "cCyn = esc ''36''"
definition cBlu :: string where "cBlu = esc ''34''"
definition cMag :: string where "cMag = esc ''35''"

text \<open>\<^verbatim>\<open>bytes.Index\<close>: the position of the first occurrence.\<close>

fun index_of :: "string \<Rightarrow> string \<Rightarrow> nat option" where
  "index_of key [] = (if key = [] then Some 0 else None)"
| "index_of key (c # cs) =
     (if take (length key) (c # cs) = key then Some 0 else map_option Suc (index_of key cs))"

definition level_color :: "string \<Rightarrow> string option" where
  "level_color lv =
     (if lv = ''DEBUG'' then Some cCyn
      else if lv = ''INFO'' then Some cGrn
      else if lv = ''WARN'' \<or> lv = ''WARNING'' then Some cYel
      else if lv = ''ERROR'' then Some cRed
      else if lv = ''TRACE'' then Some cBlu
      else if lv = ''CRIT'' \<or> lv = ''FATAL'' then Some cMag
      else None)"

definition newline :: char where "newline = CHR 0x0A"

definition value_char :: "char \<Rightarrow> bool" where
  "value_char c \<longleftrightarrow> c \<noteq> CHR '' '' \<and> c \<noteq> newline \<and> c \<noteq> CHR 0x0D"

definition colorizeLevel :: "string \<Rightarrow> string" where
  "colorizeLevel line =
     (case index_of ''level='' line of
        None \<Rightarrow> line
      | Some pos \<Rightarrow>
          (let start = pos + length ''level='';
               lv = takeWhile value_char (drop start line);
               stop = start + length lv
           in case level_color lv of
                None \<Rightarrow> line
              | Some color \<Rightarrow> take start line @ color @ lv @ cReset @ drop stop line))"

section \<open>The line writer\<close>

text \<open>
  The buffer holds the bytes after the last newline. Each whole line goes to the destination in
  one write; an error drops the buffer and the rest of the input.
\<close>

function write_lines :: "bool \<Rightarrow> (string \<Rightarrow> ('s, unit) io) \<Rightarrow> string \<Rightarrow> string \<times> 's \<Rightarrow> unit res \<times> string \<times> 's" where
  "write_lines enable dst p (buf, s) =
     (if p = [] then (Ok (), buf, s)
      else if newline \<notin> set p then (Ok (), buf @ p, s)
      else let i = length (takeWhile (\<lambda>c. c \<noteq> newline) p);
               line = buf @ take (i + 1) p;
               out = (if enable then colorizeLevel line else line)
           in case dst out s of
                (Ok _, s') \<Rightarrow> write_lines enable dst (drop (i + 1) p) ([], s')
              | (Fail e, s') \<Rightarrow> (Fail e, [], s')
              | (Panic, s') \<Rightarrow> (Panic, line, s'))"
  by pat_completeness auto
termination by (relation "measure (\<lambda>(enable, dst, p, st). length p)") auto

declare write_lines.simps [simp del]

text \<open>The number of bytes reported: all of them, or none with the error.\<close>

definition levelColorWriter_Write :: "bool \<Rightarrow> (string \<Rightarrow> ('s, unit) io) \<Rightarrow> string \<Rightarrow> string \<times> 's \<Rightarrow> int res \<times> string \<times> 's" where
  "levelColorWriter_Write enable dst p st =
     (case write_lines enable dst p st of (r, st') \<Rightarrow> (mapR (\<lambda>_. int (length p)) r, st'))"

section \<open>Build information\<close>

definition vcsUnknown :: string where "vcsUnknown = ''unknown''"

definition vcs_setting :: "string \<times> string \<times> bool \<Rightarrow> string \<times> string \<Rightarrow> string \<times> string \<times> bool" where
  "vcs_setting acc kv =
     (case acc of (commit, date, dirty) \<Rightarrow>
        if fst kv = ''vcs.revision'' then (snd kv, date, dirty)
        else if fst kv = ''vcs.time'' then (commit, snd kv, dirty)
        else if fst kv = ''vcs.modified'' then (commit, date, snd kv = ''true'')
        else (commit, date, dirty))"

definition parseVCS :: "(string \<times> string) list \<Rightarrow> string \<times> string \<times> bool" where
  "parseVCS settings = foldl vcs_setting (vcsUnknown, vcsUnknown, False) settings"

record build_info =
  bi_Version :: string
  bi_BuildDate :: string
  bi_GitCommit :: string
  bi_CommitDate :: string
  bi_Dirty :: bool

text \<open>The package's initialiser: without embedded build information the placeholders stay.\<close>

definition version_init :: "string \<Rightarrow> string \<Rightarrow> (string \<times> string) list option \<Rightarrow> build_info" where
  "version_init version buildDate info =
     (let (commit, date, dirty) = (case info of None \<Rightarrow> (vcsUnknown, vcsUnknown, False) | Some settings \<Rightarrow> parseVCS settings)
      in \<lparr>bi_Version = version, bi_BuildDate = buildDate, bi_GitCommit = commit, bi_CommitDate = date, bi_Dirty = dirty\<rparr>)"

definition isBuildDirty :: "build_info \<Rightarrow> bool" where
  "isBuildDirty b = bi_Dirty b"

text \<open>The lines the version command prints.\<close>

definition VersionCmd :: "build_info \<Rightarrow> string list" where
  "VersionCmd b =
     [''version: '' @ bi_Version b, ''git commit sha: '' @ bi_GitCommit b, ''commit timestamp: '' @ bi_CommitDate b,
      ''build date: '' @ bi_BuildDate b] @
     (if isBuildDirty b then [''git tree DIRTY (uncommitted changes in build).''] else [])"

section \<open>Facts\<close>

lemma index_of_Some:
  "index_of key s = Some n \<Longrightarrow> take (length key) (drop n s) = key \<and> n + length key \<le> length s"
proof (induction s arbitrary: n)
  case (Cons c cs)
  then show ?case
  proof (cases "take (length key) (c # cs) = key")
    case True
    with Cons.prems have "n = 0" by simp
    moreover have "length key \<le> length (c # cs)" using arg_cong [OF True, of length] by simp
    ultimately show ?thesis using True by simp
  qed (auto dest: Cons.IH)
qed (simp split: if_splits)

lemma colorizeLevel_split:
  "colorizeLevel line = line \<or> (\<exists>a lv b c. line = a @ lv @ b \<and> level_color lv = Some c \<and> colorizeLevel line = a @ c @ lv @ cReset @ b)"
proof (cases "index_of ''level='' line")
  case (Some pos)
  define start where "start = pos + length ''level=''"
  define lv where "lv = takeWhile value_char (drop start line)"
  have lv: "line = take start line @ lv @ drop (start + length lv) line"
    unfolding lv_def by (metis append_take_drop_id drop_drop takeWhile_eq_take add.commute)
  show ?thesis
  proof (cases "level_color lv")
    case (Some c)
    then have "colorizeLevel line = take start line @ c @ lv @ cReset @ drop (start + length lv) line"
      using \<open>index_of ''level='' line = Some pos\<close> by (simp add: colorizeLevel_def start_def lv_def Let_def)
    with lv Some show ?thesis by blast
  qed (use Some in \<open>simp add: colorizeLevel_def start_def lv_def Let_def\<close>)
qed (simp add: colorizeLevel_def)

text \<open>The whole lines of a text, with their newlines, and the rest.\<close>

fun split_lines :: "string \<Rightarrow> string \<Rightarrow> string list \<times> string" where
  "split_lines acc [] = ([], acc)"
| "split_lines acc (c # cs) =
     (if c = newline then (case split_lines [] cs of (ls, rest) \<Rightarrow> ((acc @ [c]) # ls, rest))
      else split_lines (acc @ [c]) cs)"

fun send_all :: "(string \<Rightarrow> ('s, unit) io) \<Rightarrow> string list \<Rightarrow> ('s, unit) io" where
  "send_all dst [] = returnS ()"
| "send_all dst (x # xs) = bindS (dst x) (\<lambda>_. send_all dst xs)"

lemma split_lines_no_newline: "newline \<notin> set p \<Longrightarrow> split_lines buf p = ([], buf @ p)"
  by (induction buf p rule: split_lines.induct) auto

lemma split_lines_newline:
  "newline \<notin> set a \<Longrightarrow> split_lines buf (a @ newline # b) = (case split_lines [] b of (ls, rest) \<Rightarrow> ((buf @ a @ [newline]) # ls, rest))"
  by (induction a arbitrary: buf) auto

lemma split_lines_append:
  "split_lines buf (p @ q) = (case split_lines buf p of (ls, rest) \<Rightarrow> (case split_lines rest q of (ls', rest') \<Rightarrow> (ls @ ls', rest')))"
  by (induction buf p rule: split_lines.induct) (auto split: prod.splits)

lemma newline_split:
  assumes "newline \<in> set p"
  defines "a \<equiv> takeWhile (\<lambda>c. c \<noteq> newline) p"
  shows "p = a @ newline # drop (length a + 1) p" "newline \<notin> set a" "take (length a + 1) p = a @ [newline]"
proof -
  have "dropWhile (\<lambda>c. c \<noteq> newline) p = newline # drop (length a + 1) p"
    using assms by (metis (mono_tags, lifting) One_nat_def add.commute add_diff_cancel_left' drop_Suc drop_drop dropWhile_eq_Nil_conv dropWhile_eq_drop hd_dropWhile list.collapse plus_1_eq_Suc drop_0 a_def)
  then show p: "p = a @ newline # drop (length a + 1) p" unfolding a_def by (metis takeWhile_dropWhile_id)
  show "newline \<notin> set a" by (auto simp: a_def dest: set_takeWhileD)
  show "take (length a + 1) p = a @ [newline]" by (subst p) simp
qed

lemma write_lines_spec:
  assumes "\<And>x s s'. dst x s \<noteq> (Panic, s')"
  shows "write_lines enable dst p (buf, s) =
     (let (ls, rest) = split_lines buf p in
      case send_all dst (map (\<lambda>l. if enable then colorizeLevel l else l) ls) s of
        (Ok _, s') \<Rightarrow> (Ok (), rest, s')
      | (r, s') \<Rightarrow> (r, [], s'))"
  using assms
proof (induction enable dst p "(buf, s)" arbitrary: buf s rule: write_lines.induct)
  case (1 enable dst p buf s)
  show ?case
  proof (cases "newline \<in> set p")
    case False
    then show ?thesis by (simp add: split_lines_no_newline write_lines.simps)
  next
    case True
    let ?a = "takeWhile (\<lambda>c. c \<noteq> newline) p"
    note nl = newline_split [OF True]
    let ?b = "drop (length ?a + 1) p" and ?line = "buf @ ?a @ [newline]"
    let ?out = "if enable then colorizeLevel ?line else ?line"
    have sl: "split_lines buf p = (case split_lines [] ?b of (ls, rest) \<Rightarrow> (?line # ls, rest))"
      by (subst nl(1)) (simp add: split_lines_newline [OF nl(2)])
    obtain r s' where d: "dst ?out s = (r, s')" by fastforce
    have w: "write_lines enable dst p (buf, s) = (case (r, s') of
         (Ok _, s') \<Rightarrow> write_lines enable dst ?b ([], s') | (Fail e, s') \<Rightarrow> (Fail e, [], s') | (Panic, s') \<Rightarrow> (Panic, ?line, s'))"
      using True d nl(3) by (subst write_lines.simps) (cases r; auto simp: Let_def)
    show ?thesis
    proof (cases r)
      case (Ok u)
      have "write_lines enable dst ?b ([], s') =
         (let (ls, rest) = split_lines [] ?b in
          case send_all dst (map (\<lambda>l. if enable then colorizeLevel l else l) ls) s' of
            (Ok _, s') \<Rightarrow> (Ok (), rest, s') | (r, s') \<Rightarrow> (r, [], s'))"
        using True d nl(3) Ok "1.prems" by (intro "1.hyps" [of _ ?line ?out "Ok u" _ u]) auto
      with w d sl Ok show ?thesis by (simp add: Let_def go_simps split: prod.splits)
    qed (use w d sl "1.prems" in \<open>simp_all add: go_simps split: prod.split\<close>)
  qed
qed


lemma send_all_append: "send_all dst (xs @ ys) = bindS (send_all dst xs) (\<lambda>_. send_all dst ys)"
  by (induction xs) (auto simp: fun_eq_iff bindS_def split: prod.split res.split)

lemma parseVCS_acc:
  "foldl vcs_setting (commit, date, dirty) settings =
     (case map_of (rev settings) ''vcs.revision'' of None \<Rightarrow> commit | Some v \<Rightarrow> v,
      case map_of (rev settings) ''vcs.time'' of None \<Rightarrow> date | Some v \<Rightarrow> v,
      case map_of (rev settings) ''vcs.modified'' of None \<Rightarrow> dirty | Some v \<Rightarrow> v = ''true'')"
proof (induction settings arbitrary: commit date dirty)
  case (Cons kv settings)
  obtain k v where "kv = (k, v)" by fastforce
  with Cons show ?case by (auto simp: vcs_setting_def map_add_def split: option.splits)
qed simp

section \<open>Theorems\<close>

text \<open>The log writer emits whole lines. Whatever the chunk boundaries, the destination receives each
  completed line in one write, coloured when colours are on, and the bytes after the last newline stay
  buffered; all input bytes are reported as written.\<close>

theorem writer_lines:
  assumes "\<And>x s s'. dst x s \<noteq> (Panic, s')" and "split_lines buf p = (ls, rest)"
  shows "levelColorWriter_Write enable dst p (buf, s) =
    (case send_all dst (map (\<lambda>l. if enable then colorizeLevel l else l) ls) s of
       (Ok _, s') \<Rightarrow> (Ok (int (length p)), rest, s')
     | (Fail e, s') \<Rightarrow> (Fail e, [], s')
     | (Panic, s') \<Rightarrow> (Panic, [], s'))"
  using write_lines_spec [where dst = dst, OF assms(1), of enable p buf s] assms(2)
  by (simp add: levelColorWriter_Write_def split: prod.splits res.splits)

theorem writer_lines_witness:
  "levelColorWriter_Write False (\<lambda>x s. (Ok (), s @ [x])) [CHR ''b'', newline, CHR ''c''] ([CHR ''a''], [])
     = (Ok 3, [CHR ''c''], [[CHR ''a'', CHR ''b'', newline]])"
  using writer_lines [of "\<lambda>x s. (Ok (), s @ [x])" "[CHR ''a'']" "[CHR ''b'', newline, CHR ''c'']" "[[CHR ''a'', CHR ''b'', newline]]" "[CHR ''c'']" False "[]"]
  by (simp add: newline_def bindS_def)

text \<open>Splitting a write does not matter: writing \<open>p\<close> and then \<open>q\<close> has the same effect and outcome as
  writing \<open>p @ q\<close> at once, up to the reported counts, also when the destination fails.\<close>

theorem writer_chunks:
  assumes "\<And>x s s'. dst x s \<noteq> (Panic, s')"
  shows "levelColorWriter_Write enable dst (p @ q) st =
    (case levelColorWriter_Write enable dst p st of
       (Ok n, st1) \<Rightarrow> (case levelColorWriter_Write enable dst q st1 of (r, st2) \<Rightarrow> (mapR (\<lambda>m. n + m) r, st2))
     | (Fail e, st1) \<Rightarrow> (Fail e, st1)
     | (Panic, st1) \<Rightarrow> (Panic, st1))"
proof -
  obtain buf s where st: "st = (buf, s)" by fastforce
  obtain ls rest where p: "split_lines buf p = (ls, rest)" by fastforce
  obtain ls' rest' where q: "split_lines rest q = (ls', rest')" by fastforce
  let ?f = "map (\<lambda>l. if enable then colorizeLevel l else l)"
  obtain r1 s1 where s1: "send_all dst (?f ls) s = (r1, s1)" by fastforce
  obtain r2 s2 where s2: "send_all dst (?f ls') s1 = (r2, s2)" by fastforce
  show ?thesis
    unfolding st levelColorWriter_Write_def using s1 s2
    by (cases r1; cases r2) (simp_all add: write_lines_spec [OF assms] split_lines_append p q send_all_append go_simps)
qed

theorem writer_chunks_witness:
  "levelColorWriter_Write True (\<lambda>x s. (Ok (), s @ [x])) (''level=IN'' @ ''FO'' @ [newline]) ([], [])
     = (Ok 11, [], [''level='' @ cGrn @ ''INFO'' @ cReset @ [newline]])"
proof -
  have 1: "levelColorWriter_Write True (\<lambda>x s. (Ok (), s @ [x])) ''level=IN'' ([], []) = (Ok 8, ''level=IN'', [])" by code_simp
  have 2: "levelColorWriter_Write True (\<lambda>x s. (Ok (), s @ [x])) (''FO'' @ [newline]) (''level=IN'', [])
      = (Ok 3, [], [''level='' @ cGrn @ ''INFO'' @ cReset @ [newline]])" by code_simp
  show ?thesis
    using writer_chunks [of "\<lambda>x s. (Ok (), s @ [x])" True "''level=IN''" "''FO'' @ [newline]" "([], [])"] by (simp add: 1 2 [simplified])
qed

text \<open>The build stamps are the last values of their keys in the toolchain's settings, with the
  placeholder when there is none; a tree counts as dirty only when the last stamp says \<open>true\<close>.\<close>

theorem parseVCS_last:
  "parseVCS settings =
     (case map_of (rev settings) ''vcs.revision'' of None \<Rightarrow> vcsUnknown | Some v \<Rightarrow> v,
      case map_of (rev settings) ''vcs.time'' of None \<Rightarrow> vcsUnknown | Some v \<Rightarrow> v,
      map_of (rev settings) ''vcs.modified'' = Some ''true'')"
  by (auto simp: parseVCS_def parseVCS_acc split: option.split)

text \<open>The levels the help text of the log-level flag lists are not all accepted: debug, info, warn and
  error are, fatal and panic are rejected, in either format; an unknown format is rejected at every level.\<close>

theorem logging_levels:
  "list_all (\<lambda>l. is_ok (initLogging env l ''text'') \<and> is_ok (initLogging env l ''json'')) [''debug'', ''info'', ''warn'', ''error''] \<and>
   list_all (\<lambda>l. \<not> is_ok (initLogging env l format)) [''fatal'', ''panic''] \<and>
   (format \<notin> {''text'', ''json''} \<longrightarrow> \<not> is_ok (initLogging env lv format))"
proof -
  have "parse_level ''debug'' \<noteq> None" "parse_level ''info'' \<noteq> None" "parse_level ''warn'' \<noteq> None"
    "parse_level ''error'' \<noteq> None" "parse_level ''fatal'' = None" "parse_level ''panic'' = None" by code_simp+
  then show ?thesis by (auto simp: initLogging_def formatText_def formatJSON_def split: option.splits)
qed

theorem logging_levels_witness: "\<not> is_ok (initLogging (\<lambda>_. []) ''info'' ''yaml'')"
  using logging_levels [of "\<lambda>_. []" "''yaml''" "''info''"] by simp

end
