(* ===== verification/Wiring.thy ===== *)
theory Wiring
  imports Purchase Server Logging
begin

text \<open>
  The commands that run the services (\<^verbatim>\<open>cmd/service.go\<close>, \<^verbatim>\<open>cmd/orders.go\<close>, \<^verbatim>\<open>cmd/notifier.go\<close>,
  \<^verbatim>\<open>cmd/flag.go\<close>, \<^verbatim>\<open>cmd/defaults.go\<close>): flags, configuration, the construction of the database,
  the messaging clients and the authenticator, and the common tail that serves until a
  signal. The flag library, the operating system and the libraries behind the database and
  the broker are the fields of one environment record.
\<close>

section \<open>Flags\<close>

definition DefaultUserID :: string where "DefaultUserID = ''default-user''"
definition DefaultServerPort :: int where "DefaultServerPort = 8000"
definition DefaultDBPort :: int where "DefaultDBPort = 5432"
definition FlagPort :: string where "FlagPort = ''port''"
definition FlagSQLite :: string where "FlagSQLite = ''sqlite''"
definition FlagDBHost :: string where "FlagDBHost = ''db-host''"
definition FlagDBUser :: string where "FlagDBUser = ''db-user''"
definition FlagDBPassword :: string where "FlagDBPassword = ''db-password''"
definition FlagDBPort :: string where "FlagDBPort = ''db-port''"
definition FlagMemoryDB :: string where "FlagMemoryDB = ''memory-db''"
definition FlagRecreateSchema :: string where "FlagRecreateSchema = ''recreate-schema''"
definition FlagLogLevel :: string where "FlagLogLevel = ''log-level''"
definition FlagLogFormat :: string where "FlagLogFormat = ''log-format''"
definition FlagPassword :: string where "FlagPassword = ''password''"
definition FlagEventBroker :: string where "FlagEventBroker = ''event-broker''"
definition FlagNotificationFile :: string where "FlagNotificationFile = ''notification-file''"

lemmas flag_defs = FlagPort_def FlagSQLite_def FlagDBHost_def FlagDBUser_def FlagDBPassword_def FlagDBPort_def
  FlagMemoryDB_def FlagRecreateSchema_def FlagLogLevel_def FlagLogFormat_def FlagPassword_def FlagEventBroker_def

datatype flag_value = FInt int | FString string | FBool bool

text \<open>The flags a service command registers, with their defaults.\<close>

definition registerServiceFlags :: "(string \<times> flag_value) list" where
  "registerServiceFlags =
     [(FlagPort, FInt DefaultServerPort), (FlagSQLite, FString ''data/db''), (FlagDBUser, FString []),
      (FlagDBHost, FString []), (FlagDBPassword, FString []), (FlagDBPort, FInt DefaultDBPort),
      (FlagMemoryDB, FBool False), (FlagRecreateSchema, FBool False), (FlagLogLevel, FString ''info''),
      (FlagLogFormat, FString ''text''), (FlagPassword, FString []), (FlagEventBroker, FString [])]"

text \<open>The typed getters of the flag library: a value of another type reads as the zero value.\<close>

record viper =
  vp_GetInt :: "string \<Rightarrow> int"
  vp_GetString :: "string \<Rightarrow> string"
  vp_GetBool :: "string \<Rightarrow> bool"

definition viper_of :: "(string \<Rightarrow> flag_value option) \<Rightarrow> viper" where
  "viper_of m =
     \<lparr>vp_GetInt = (\<lambda>k. case m k of Some (FInt n) \<Rightarrow> n | _ \<Rightarrow> 0),
      vp_GetString = (\<lambda>k. case m k of Some (FString v) \<Rightarrow> v | _ \<Rightarrow> []),
      vp_GetBool = (\<lambda>k. case m k of Some (FBool b) \<Rightarrow> b | _ \<Rightarrow> False)\<rparr>"

section \<open>Configuration\<close>

record serviceConfig =
  sc_port :: int
  sc_sqliteDBPath :: string
  sc_dbHost :: string
  sc_dbUser :: string
  sc_dbPassword :: string
  sc_dbPort :: int
  sc_useMemoryDB :: bool
  sc_recreateSchema :: bool
  sc_logLevel :: string
  sc_logFormat :: string
  sc_authPassword :: string
  sc_eventBroker :: string

definition readServiceConfig :: "viper \<Rightarrow> serviceConfig" where
  "readServiceConfig v =
     \<lparr>sc_port = vp_GetInt v FlagPort, sc_sqliteDBPath = vp_GetString v FlagSQLite, sc_dbHost = vp_GetString v FlagDBHost,
      sc_dbUser = vp_GetString v FlagDBUser, sc_dbPassword = vp_GetString v FlagDBPassword, sc_dbPort = vp_GetInt v FlagDBPort,
      sc_useMemoryDB = vp_GetBool v FlagMemoryDB, sc_recreateSchema = vp_GetBool v FlagRecreateSchema,
      sc_logLevel = vp_GetString v FlagLogLevel, sc_logFormat = vp_GetString v FlagLogFormat,
      sc_authPassword = vp_GetString v FlagPassword, sc_eventBroker = vp_GetString v FlagEventBroker\<rparr>"

text \<open>
  The environment: variables, creating the directory of a file, the mapper opened on a
  database, the broker and notification file, the router and metrics page, fresh identifiers,
  quoting of a text in an error message, what happens until the interrupt arrives, and the
  outcome of the listener's shutdown.
\<close>

record ('d, 's) node_env =
  ne_getenv :: "string \<Rightarrow> string"
  ne_mkdir :: "string \<Rightarrow> ('s, unit) io"
  ne_gorm :: "dialector \<Rightarrow> ('d, 's) gorm_ops"
  ne_kgo :: "'s kgo_ops"
  ne_sink :: "'s sink_ops"
  ne_router :: "'s endpoint list \<Rightarrow> request \<Rightarrow> (writer \<times> 's, unit) io"
  ne_promhttp :: "'s handle"
  ne_fresh :: "request \<Rightarrow> string \<times> string \<times> time"
  ne_quote :: "string \<Rightarrow> string"
  ne_wait :: "'s http_server \<Rightarrow> 's http_server"
  ne_shutdown :: "unit res"

definition openDatabase :: "('d, 's) node_env \<Rightarrow> serviceConfig \<Rightarrow> ('s, ('d, 's) db_ops) io" where
  "openDatabase env cfg =
     (if sc_useMemoryDB cfg then NewSQLiteDB (ne_gorm env) InMemoryDSN (sc_recreateSchema cfg)
      else if sc_dbHost cfg \<noteq> [] then
        NewPostgresDB (ne_gorm env) (sc_dbHost cfg) (sc_dbUser cfg) (sc_dbPassword cfg) (sc_dbPort cfg)
      else
        bindS (wrapS (\<lambda>e. Wrap ''failed to create data dir: '' e []) (ne_mkdir env (sc_sqliteDBPath cfg))) (\<lambda>_.
          NewSQLiteDB (ne_gorm env) (sc_sqliteDBPath cfg) (sc_recreateSchema cfg)))"

definition newAuthenticator :: "serviceConfig \<Rightarrow> authenticator" where
  "newAuthenticator cfg = Authenticate [sc_authPassword cfg \<mapsto> DefaultUserID]"

definition openPublisher :: "'d decimal_ops \<Rightarrow> ('d, 's) node_env \<Rightarrow> serviceConfig \<Rightarrow> ('s, ('d, 's) publisher) io" where
  "openPublisher dec env cfg =
     (if sc_eventBroker cfg = [] then returnS noop_publisher
      else bindS (NewClient (ne_kgo env) [sc_eventBroker cfg] []) (\<lambda>_. returnS (kafka_publisher dec (ne_kgo env))))"

definition openConsumer ::
  "('d, 's) node_env \<Rightarrow> serviceConfig \<Rightarrow> string \<Rightarrow> string list \<Rightarrow> ('s, ('d, 's) consumer) io" where
  "openConsumer env cfg grp topics =
     (if sc_eventBroker cfg = [] then returnS noop_consumer
      else bindS (NewClient (ne_kgo env) [sc_eventBroker cfg] [WithConsumerGroup grp topics]) (\<lambda>c.
        returnS (kafka_consumer (ne_kgo env) c)))"

section \<open>Commands\<close>

text \<open>The start-up log lines are left out. The value is \<open>None\<close> when stopping the service blocks.\<close>

definition serve :: "('d, 's) node_env \<Rightarrow> int \<Rightarrow> 's service \<Rightarrow> 's \<Rightarrow> (unit res \<times> 's) option" where
  "serve env port svc s =
     (case HTTPServer_Start (ne_router env) (HTTPServer_New port svc s) of
        (Fail e, h) \<Rightarrow> Some (Fail (Wrap ''failed to start service: '' e []), hs_state h)
      | (Panic, h) \<Rightarrow> Some (Panic, hs_state h)
      | (Ok _, h) \<Rightarrow>
          (case HTTPServer_Stop (ne_shutdown env) (ne_wait env h) of
             None \<Rightarrow> None
           | Some (Panic, h') \<Rightarrow> Some (Panic, hs_state h')
           | Some (_, h') \<Rightarrow> Some (Ok (), hs_state h')))"

definition returning :: "('s, 'a) io \<Rightarrow> ('a \<Rightarrow> 's \<Rightarrow> ('b res \<times> 's) option) \<Rightarrow> 's \<Rightarrow> ('b res \<times> 's) option" where
  "returning m f s = (case m s of
      (Ok a, s') \<Rightarrow> f a s' | (Fail e, s') \<Rightarrow> Some (Fail e, s') | (Panic, s') \<Rightarrow> Some (Panic, s'))"

definition broker_error :: "('d, 's) node_env \<Rightarrow> serviceConfig \<Rightarrow> error \<Rightarrow> error" where
  "broker_error env cfg e = Wrap (''could not connect to event broker '' @ ne_quote env (sc_eventBroker cfg) @ '': '') e []"

definition NewOrdersCmd_RunE ::
  "'d decimal_ops \<Rightarrow> string \<Rightarrow> 's slot \<Rightarrow> ('d, 's) node_env \<Rightarrow> viper \<Rightarrow> 's \<Rightarrow> (unit res \<times> 's) option" where
  "NewOrdersCmd_RunE dec version slot env v =
     (let cfg = readServiceConfig v in
      returning (wrapS (\<lambda>e. Wrap ''failed to initialize logger: '' e [])
          (liftS (initLogging (ne_getenv env) (sc_logLevel cfg) (sc_logFormat cfg)))) (\<lambda>_.
      returning (openDatabase env cfg) (\<lambda>db.
      returning (wrapS (broker_error env cfg) (openPublisher dec env cfg)) (\<lambda>publisher.
        let relay = NewOutboxRelayer slot db publisher [];
            svc = NewService dec db (relayer_of relay) (newAuthenticator cfg)
        in serve env (sc_port cfg) (orders_as_service dec version (ne_promhttp env) (ne_fresh env) svc)))))"

definition NewNotifierCmd_RunE ::
  "'d decimal_ops \<Rightarrow> string \<Rightarrow> 's slot \<Rightarrow> ('d, 's) node_env \<Rightarrow> viper \<Rightarrow> 's \<Rightarrow> (unit res \<times> 's) option" where
  "NewNotifierCmd_RunE dec version slot env v =
     (let cfg = readServiceConfig v in
      returning (wrapS (\<lambda>e. Wrap ''failed to initialize logger: '' e [])
          (liftS (initLogging (ne_getenv env) (sc_logLevel cfg) (sc_logFormat cfg)))) (\<lambda>_.
      returning (openDatabase env cfg) (\<lambda>db.
      returning (wrapS (broker_error env cfg) (openConsumer env cfg ConsumerGroup [Orders_TopicOrderCreated])) (\<lambda>consumer.
      returning (wrapS (\<lambda>e. Wrap ''could not build notification sink: '' e [])
          (NewSink (ne_sink env) (vp_GetString v FlagNotificationFile))) (\<lambda>sink.
        let svc = Notifier_NewService slot (newAuthenticator cfg) db consumer sink
        in serve env (sc_port cfg) (notifier_as_service dec version (ne_promhttp env) svc))))))"

section \<open>Facts\<close>

text \<open>The notifier subscribes to the topic the purchase handler writes to.\<close>

lemma subscribed_topic: "Orders_TopicOrderCreated = TopicOrderCreated"
  by (simp add: Orders_TopicOrderCreated_def TopicOrderCreated_def)

context gorm
begin

lemma drop_tables:
  assumes "deleteStorage g s = (Ok u, s')"
  shows "tables s' = \<lparr>tb_inventory = [], tb_orders = [], tb_outbox = []\<rparr>"
proof -
  from assms obtain s1 s2 where "g_drop g InventoryTable s = (Ok (), s1)" "g_drop g OrdersTable s1 = (Ok (), s2)"
      "g_drop g OutboxTable s2 = (Ok (), s')"
    by (auto simp: deleteStorage_def bindS_eq_Ok wrapS_eq_Ok)
  then show ?thesis using stmt_Ok [OF drop] by fastforce
qed

lemma migrate_tables: "newStorage g s = (Ok u, s') \<Longrightarrow> tables s' = tables s"
  using stmt_Ok [OF migrate] by (auto simp: newStorage_def bindS_eq_Ok wrapS_eq_Ok)

lemma NewGormDB_tables:
  assumes "NewGormDB g recreate s = (Ok u, s')"
  shows "tables s' = (if recreate then \<lparr>tb_inventory = [], tb_orders = [], tb_outbox = []\<rparr> else tables s)"
proof -
  from assms obtain s1 s2 u' where "g_open g s = (Ok (), s1)" "newStorage g s2 = (Ok u, s')"
      "if recreate then deleteStorage g s1 = (Ok u', s2) else s2 = s1"
    by (auto simp: NewGormDB_def bindS_eq_Ok split: if_splits)
  then show ?thesis using stmt_Ok [OF open_ok] migrate_tables drop_tables by (auto split: if_splits)
qed

end

lemma newAuthenticator_eq:
  "newAuthenticator cfg c = (if c = sc_authPassword cfg then Ok DefaultUserID else Fail ErrUnauthenticated)"
  by (simp add: newAuthenticator_def Authenticate_def)

section \<open>Theorems\<close>


definition demo_env :: "(dec10, mem) node_env" where
  "demo_env =
     \<lparr>ne_getenv = (\<lambda>_. []), ne_mkdir = (\<lambda>_. returnS ()), ne_gorm = (\<lambda>_. mem_engine False),
      ne_kgo = \<lparr>k_NewClient = (\<lambda>_. returnS ()), k_ProduceSync = (\<lambda>_. returnS ()), k_PollFetches = returnS ([], []),
        k_ctx_err = (\<lambda>_. None), k_CommitUncommittedOffsets = returnS (), k_Ping = returnS (), k_Close = returnS ()\<rparr>,
      ne_sink = \<lparr>sk_info = (\<lambda>_ s. s), sk_open = (\<lambda>_. returnS ()), sk_println = (\<lambda>_. returnS ())\<rparr>,
      ne_router = (\<lambda>_ _. returnS ()), ne_promhttp = (\<lambda>_ _. returnS ()), ne_fresh = (\<lambda>_. ([], [], zero_time)),
      ne_quote = id, ne_wait = id, ne_shutdown = Ok ()\<rparr>"

definition demo_config :: serviceConfig where
  "demo_config = (readServiceConfig (viper_of (map_of registerServiceFlags)))\<lparr>sc_recreateSchema := True\<rparr>"


text \<open>C21: The password guard. A protected handler runs, as the placeholder user, exactly when the request's
  credential equals the configured password; any other request is answered with 401 without running it. A
  request without the header has the empty credential, so an empty password lets it through.\<close>

theorem password_guard:
  assumes "fresh_writer w"
  shows "Auth (newAuthenticator cfg) h req p (w, s) =
    (if Header_Get req XAuthHeaderKey = sc_authPassword cfg
     then h (req\<lparr>r_Context := WithUserID (r_Context req) DefaultUserID\<rparr>) p (w, s)
     else (Ok (), (responded 401 (print_json (JObj [(''error'', JStr ''unauthorized'')]) @ [CHR 0x0A]) w, s)))"
  using assms
  by (simp add: Auth_def newAuthenticator_eq on_writer_def writeJSONError_def Write_def WriteHeader_def
      SetContentType_def fresh_writer_def responded_def omit_string_def omitempty_def)

definition bare_request :: request where
  "bare_request = \<lparr>r_Method = ''POST'', r_Path = ItemsEndPnt, r_Query = [], r_Header = Map.empty, r_Body = [],
     r_Context = \<lparr>c_userID = None\<rparr>\<rparr>"

theorem password_guard_witness:
  "snd (snd (Auth (newAuthenticator demo_config) (\<lambda>req p ws. (Ok (), (fst ws, UserID (r_Context req)))) bare_request []
      (new_writer, None))) = Some ''default-user''"
  using password_guard [of new_writer demo_config "\<lambda>req p ws. (Ok (), (fst ws, UserID (r_Context req)))" bare_request "[]" None]
  by (simp add: fresh_writer_def new_writer_def Header_Get_def bare_request_def WithUserID_def UserID_def DefaultUserID_def
      demo_config_def readServiceConfig_def viper_of_def registerServiceFlags_def flag_defs)

end
