(* ===== verification/Client.thy ===== *)
theory Client
  imports Notifier
begin

text \<open>
  The Go client of the two services (\<^verbatim>\<open>client/client.go\<close>) and the health command built on it
  (\<^verbatim>\<open>cmd/health.go\<close>). The transport of the HTTP client, the parsing of the base URL and the
  headers carried by a context are arguments; joining and escaping paths, canonical header
  names and JSON decoding follow the standard library.
\<close>

section \<open>Paths of URLs\<close>

definition unreserved :: "char \<Rightarrow> bool" where
  "unreserved c \<longleftrightarrow> byte_in c 0x61 0x7A \<or> byte_in c 0x41 0x5A \<or> is_digit c \<or> c \<in> set ''-_.~''"

text \<open>\<^verbatim>\<open>shouldEscape\<close> in a path: of the reserved characters only the question mark.\<close>

definition should_escape :: "char \<Rightarrow> bool" where
  "should_escape c \<longleftrightarrow> \<not> unreserved c \<and> c \<notin> set ''$&+,/:;=@''"

definition hex_upper :: "nat \<Rightarrow> char" where
  "hex_upper n = char_of (if n < 10 then 48 + n else 55 + n)"

definition escape_char :: "char \<Rightarrow> string" where
  "escape_char c =
     (if should_escape c then [CHR ''%'', hex_upper ((of_char c :: nat) div 16), hex_upper ((of_char c :: nat) mod 16)] else [c])"

definition escape_path :: "string \<Rightarrow> string" where
  "escape_path p = concat (map escape_char p)"

fun unescape_path :: "string \<Rightarrow> string option" where
  "unescape_path [] = Some []"
| "unescape_path (c # cs) =
     (if c = CHR ''%'' then
        (case cs of
           a # b # ds \<Rightarrow>
             (case (hex_val a, hex_val b) of
                (Some m, Some n) \<Rightarrow> map_option (Cons (char_of (16 * m + n))) (unescape_path ds)
              | _ \<Rightarrow> None)
         | _ \<Rightarrow> None)
      else map_option (Cons c) (unescape_path cs))"

definition valid_encoded :: "string \<Rightarrow> bool" where
  "valid_encoded p = list_all (\<lambda>c. c \<in> set ''!$&()*+,;=:@[]%'' \<or> c = CHR 0x27 \<or> \<not> should_escape c) p"

text \<open>\<^verbatim>\<open>path.Join\<close> of elements, the first of which is rooted: empty and dot segments go, dot-dot removes one.\<close>

fun split_slash :: "string \<Rightarrow> string \<Rightarrow> string list" where
  "split_slash acc [] = [acc]"
| "split_slash acc (c # cs) = (if c = CHR ''/'' then acc # split_slash [] cs else split_slash (acc @ [c]) cs)"

definition clean_segment :: "string list \<Rightarrow> string \<Rightarrow> string list" where
  "clean_segment acc seg =
     (if seg = [] \<or> seg = ''.'' then acc else if seg = ''..'' then butlast acc else acc @ [seg])"

definition join_rooted :: "string list \<Rightarrow> string" where
  "join_rooted ps =
     (case foldl clean_segment [] (concat (map (split_slash []) ps)) of
        [] \<Rightarrow> ''/''
      | segs \<Rightarrow> concat (map (Cons (CHR ''/'')) segs))"

text \<open>A parsed URL: the scheme with the authority, and the decoded path.\<close>

record url =
  u_Origin :: string
  u_Path :: string

definition url_string :: "url \<Rightarrow> string" where
  "url_string u =
     u_Origin u @ (if u_Origin u \<noteq> [] \<and> u_Path u \<noteq> [] \<and> hd (u_Path u) \<noteq> CHR ''/'' then ''/'' else []) @ escape_path (u_Path u)"

text \<open>\<^verbatim>\<open>URL.JoinPath\<close> followed by \<^verbatim>\<open>String\<close>; a path that does not unescape is dropped.\<close>

definition url_join :: "url \<Rightarrow> string \<Rightarrow> string" where
  "url_join u seg =
     (let base = escape_path (u_Path u);
          rooted = (base \<noteq> [] \<and> hd base = CHR ''/'');
          q = (if rooted then join_rooted [base, seg] else tl (join_rooted [CHR ''/'' # base, seg]));
          p = (if seg \<noteq> [] \<and> last seg = CHR ''/'' \<and> (q = [] \<or> last q \<noteq> CHR ''/'') then q @ ''/'' else q)
      in u_Origin u @
         (case unescape_path p of
            None \<Rightarrow> base
          | Some path \<Rightarrow> if p \<noteq> escape_path path \<and> valid_encoded p then p else escape_path path))"

section \<open>Headers\<close>

type_synonym header = "string \<rightharpoonup> string list"

definition token_char :: "char \<Rightarrow> bool" where
  "token_char c \<longleftrightarrow> byte_in c 0x61 0x7A \<or> byte_in c 0x41 0x5A \<or> is_digit c \<or> c \<in> set ''!#$%&*+-.^_`|~'' \<or> c = CHR 0x27"

definition lower_ascii :: "char \<Rightarrow> char" where
  "lower_ascii c = (if byte_in c 0x41 0x5A then char_of (of_char c + 32 :: nat) else c)"

fun canonical_go :: "bool \<Rightarrow> string \<Rightarrow> string" where
  "canonical_go up [] = []"
| "canonical_go up (c # cs) = (if up then upper_ascii c else lower_ascii c) # canonical_go (c = CHR ''-'') cs"

definition CanonicalHeaderKey :: "string \<Rightarrow> string" where
  "CanonicalHeaderKey k = (if list_all token_char k then canonical_go True k else k)"

text \<open>The source headers are listed in the order the map is iterated in.\<close>

definition setHeaders :: "header \<Rightarrow> (string \<times> string list) list \<Rightarrow> header" where
  "setHeaders dst src = foldl (\<lambda>d (k, vs). d(CanonicalHeaderKey k \<mapsto> vs)) dst src"

section \<open>The client\<close>

record client_request =
  cq_Method :: string
  cq_URL :: string
  cq_Header :: header
  cq_Body :: "string option"

record client_response =
  cs_StatusCode :: int
  cs_Body :: "error + string"

text \<open>Errors of the network and of the parser are left injections.\<close>

type_synonym 's transport = "client_request \<Rightarrow> 's \<Rightarrow> (error + client_response) \<times> 's"

record 's client =
  cl_base :: url
  cl_http :: "'s transport"
  cl_hdr :: header

record http_error =
  he_Status :: int
  he_Body :: string
  he_JSON :: "string option"

text \<open>An HTTP error of the server, or any other error.\<close>

datatype client_error = HTTPErr http_error | OtherErr error

definition WithHTTPClient :: "'s transport \<Rightarrow> 's client \<Rightarrow> 's client" where
  "WithHTTPClient hc c = c\<lparr>cl_http := hc\<rparr>"

definition Client_New ::
  "(string \<Rightarrow> error + url) \<Rightarrow> 's transport \<Rightarrow> string \<Rightarrow> ('s client \<Rightarrow> 's client) list \<Rightarrow> error + 's client" where
  "Client_New parse default_http baseURL opts =
     (case parse baseURL of
        Inl e \<Rightarrow> Inl (Wrap ''invalid baseURL: '' e [])
      | Inr u \<Rightarrow> Inr (foldl (\<lambda>c opt. opt c)
          \<lparr>cl_base = u, cl_http = default_http, cl_hdr = [''Accept'' \<mapsto> [''application/json'']]\<rparr> opts))"

definition AddAuthorizationHeader :: "string \<Rightarrow> 's client \<Rightarrow> 's client" where
  "AddAuthorizationHeader psswd c = c\<lparr>cl_hdr := (cl_hdr c)(CanonicalHeaderKey XAuthHeaderKey \<mapsto> [psswd])\<rparr>"

definition HTTPError_Error :: "http_error \<Rightarrow> string" where
  "HTTPError_Error e =
     ''http '' @ print_int (he_Status e) @ '': '' @
     (case he_JSON e of Some m \<Rightarrow> if m \<noteq> [] then m else he_Body e | None \<Rightarrow> he_Body e)"

definition dec_json_error :: "json \<Rightarrow> string option" where
  "dec_json_error j = decode_struct [(''error'', dec_string)] j []"

definition http_error_of :: "int \<Rightarrow> string \<Rightarrow> http_error" where
  "http_error_of status b =
     \<lparr>he_Status = status, he_Body = b,
      he_JSON = (case Option.bind (parse_json b) dec_json_error of
         Some m \<Rightarrow> if m \<noteq> [] then Some m else None | None \<Rightarrow> None)\<rparr>"

text \<open>
  The request body is given as JSON, the target of the response by its decoder; both may be
  absent. \<open>parse\<close> parses a URL, \<open>hdrs\<close> are the headers of the context.
\<close>

definition executeJSONRequest ::
  "(string \<Rightarrow> error + url) \<Rightarrow> 's client \<Rightarrow> (string \<times> string list) list \<Rightarrow> string \<Rightarrow> string \<Rightarrow> json option \<Rightarrow>
   (json \<Rightarrow> 'a option) option \<Rightarrow> 's \<Rightarrow> (client_error + 'a option) \<times> 's" where
  "executeJSONRequest parse c hdrs meth path inp outp s =
     (case parse (u_Path (cl_base c)) of
        Inl e \<Rightarrow> (Inl (OtherErr e), s)
      | Inr b \<Rightarrow>
          (let u = (cl_base c)\<lparr>u_Path := url_join b path\<rparr>;
               hdr = setHeaders ((cl_hdr c)(''Content-Type'' \<mapsto> [''application/json''])) hdrs
           in case cl_http c \<lparr>cq_Method = meth, cq_URL = url_string u, cq_Header = hdr,
                              cq_Body = map_option print_json inp\<rparr> s of
                (Inl e, s') \<Rightarrow> (Inl (OtherErr e), s')
              | (Inr resp, s') \<Rightarrow>
                  (case cs_Body resp of
                     Inl e \<Rightarrow> (Inl (OtherErr e), s')
                   | Inr b \<Rightarrow>
                       if 400 \<le> cs_StatusCode resp then
                         (if cs_StatusCode resp = 405
                          then (Inl (OtherErr (Wrap (''method '' @ meth @ '' '' @ path @ '': '') ErrMethodNotAllowed [])), s')
                          else (Inl (HTTPErr (http_error_of (cs_StatusCode resp) b)), s'))
                       else (case outp of
                               None \<Rightarrow> (Inr None, s')
                             | Some d \<Rightarrow> (case Option.bind (parse_first b) d of
                                           None \<Rightarrow> (Inl (OtherErr (ErrExt ''json'')), s')
                                         | Some v \<Rightarrow> (Inr (Some v), s'))))))"

subsection \<open>Response bodies\<close>

text \<open>\<^verbatim>\<open>strconv.ParseFloat\<close> of a JSON number: the nearest binary64 value, and an error out of range.\<close>

definition exp_val :: "string \<Rightarrow> int" where
  "exp_val t = (case t of
      [] \<Rightarrow> 0
    | _ # ds \<Rightarrow> (case ds of
        [] \<Rightarrow> 0
      | d # ds' \<Rightarrow> if d = CHR ''-'' then - int (digits_val ds')
                 else if d = CHR ''+'' then int (digits_val ds') else int (digits_val ds)))"

definition num_val :: "string \<Rightarrow> rat" where
  "num_val t =
     (let neg = (t \<noteq> [] \<and> hd t = CHR ''-''); u = (if neg then tl t else t);
          ip = takeWhile is_digit u; r = dropWhile is_digit u;
          fp = (if r \<noteq> [] \<and> hd r = CHR ''.'' then takeWhile is_digit (tl r) else []);
          ex = (if r \<noteq> [] \<and> hd r = CHR ''.'' then dropWhile is_digit (tl r) else r);
          m = of_nat (digits_val (ip @ fp)) * 10 powi (exp_val ex - int (length fp))
      in if neg then - m else m)"

fun dec_float :: "json \<Rightarrow> float64 \<Rightarrow> float64 option" where
  "dec_float JNull old = Some old"
| "dec_float (JNum l) old = (case round64 (num_val l) of Fin q \<Rightarrow> Some (Fin q) | _ \<Rightarrow> None)"
| "dec_float _ old = None"

definition dec_status_response :: "json \<Rightarrow> status_response option" where
  "dec_status_response j =
     decode_struct
       [(''message'', fld st_Message st_Message_update dec_string),
        (''version'', fld st_Version st_Version_update dec_string),
        (''service'', fld st_Service st_Service_update dec_string)]
       j \<lparr>st_Message = [], st_Version = [], st_Service = []\<rparr>"

definition dec_health_response :: "json \<Rightarrow> health_response option" where
  "dec_health_response j =
     decode_struct
       [(''version'', fld hr_Version hr_Version_update dec_string),
        (''service'', fld hr_Service hr_Service_update dec_string),
        (''failures'', fld hr_Failures hr_Failures_update (dec_slice dec_string []))]
       j \<lparr>hr_Version = [], hr_Service = [], hr_Failures = None\<rparr>"

definition dec_items :: "'d decimal_ops \<Rightarrow> json \<Rightarrow> 'd item option list option option" where
  "dec_items dec j = dec_slice (dec_ptr (dec_item dec) (zero_item dec)) None j None"

text \<open>The price response as the client holds it: slices of pointers that may be nil.\<close>

record 'd client_promotions =
  cp_Deduction :: float64
  cp_AddedItems :: "'d item option list option"

record 'd client_price =
  cp_Items :: "'d item option list option"
  cp_Promotions :: "'d client_promotions option"
  cp_TotalGross :: float64
  cp_TotalWithDiscount :: float64

definition dec_client_promotions :: "'d decimal_ops \<Rightarrow> json \<Rightarrow> 'd client_promotions \<Rightarrow> 'd client_promotions option" where
  "dec_client_promotions dec =
     decode_struct
       [(''deduction'', fld cp_Deduction cp_Deduction_update dec_float),
        (''added_items'', fld cp_AddedItems cp_AddedItems_update (dec_slice (dec_ptr (dec_item dec) (zero_item dec)) None))]"

definition dec_price_response :: "'d decimal_ops \<Rightarrow> json \<Rightarrow> 'd client_price option" where
  "dec_price_response dec j =
     decode_struct
       [(''items'', fld cp_Items cp_Items_update (dec_slice (dec_ptr (dec_item dec) (zero_item dec)) None)),
        (''promotions'', fld cp_Promotions cp_Promotions_update
           (dec_ptr (dec_client_promotions dec) \<lparr>cp_Deduction = Fin 0, cp_AddedItems = None\<rparr>)),
        (''total_gross'', fld cp_TotalGross cp_TotalGross_update dec_float),
        (''total_with_discount'', fld cp_TotalWithDiscount cp_TotalWithDiscount_update dec_float)]
       j \<lparr>cp_Items = None, cp_Promotions = None, cp_TotalGross = Fin 0, cp_TotalWithDiscount = Fin 0\<rparr>"

definition dec_purchase_items_response :: "json \<Rightarrow> purchase_items_response option" where
  "dec_purchase_items_response j =
     decode_struct
       [(''order_reference'', fld ps_OrderReference ps_OrderReference_update dec_string),
        (''cost'', fld ps_Cost ps_Cost_update dec_float)]
       j \<lparr>ps_OrderReference = [], ps_Cost = Fin 0\<rparr>"

definition dec_orders :: "'d decimal_ops \<Rightarrow> json \<Rightarrow> 'd order list option option" where
  "dec_orders dec j = dec_slice (dec_order dec) (zero_order dec) j None"

definition dec_notification :: "json \<Rightarrow> notification option" where
  "dec_notification j =
     decode_struct
       [(''event_id'', fld n_EventID n_EventID_update dec_string),
        (''reference'', fld n_Reference n_Reference_update dec_string),
        (''customer_id'', fld n_CustomerID n_CustomerID_update dec_string),
        (''occurred_at'', fld n_OccurredAt n_OccurredAt_update dec_time),
        (''delivered'', fld n_Delivered n_Delivered_update dec_bool)]
       j \<lparr>n_EventID = [], n_Reference = [], n_CustomerID = [], n_OccurredAt = zero_time, n_Delivered = False\<rparr>"

subsection \<open>The calls\<close>

text \<open>Each call is the request of one endpoint; \<open>x\<close> is its execution by a client.\<close>

type_synonym ('s, 'a) exec =
  "string \<Rightarrow> string \<Rightarrow> json option \<Rightarrow> (json \<Rightarrow> 'a option) option \<Rightarrow> 's \<Rightarrow> (client_error + 'a option) \<times> 's"

definition Client_Status :: "('s, status_response) exec \<Rightarrow> 's \<Rightarrow> (client_error + status_response option) \<times> 's" where
  "Client_Status x = x ''GET'' StatusEndPnt None (Some dec_status_response)"

definition Client_Health :: "('s, health_response) exec \<Rightarrow> 's \<Rightarrow> (client_error + health_response option) \<times> 's" where
  "Client_Health x = x ''GET'' HealthEndPnt None (Some dec_health_response)"

definition add_items_request_json :: "'d decimal_ops \<Rightarrow> 'd add_items_request \<Rightarrow> json" where
  "add_items_request_json dec r =
     JObj [(''items'', json_slice (\<lambda>p. case p of None \<Rightarrow> JNull | Some i \<Rightarrow> item_json dec i) (ar_Items r))]"

definition Client_AddItems :: "'d decimal_ops \<Rightarrow> ('s, unit) exec \<Rightarrow> 'd add_items_request \<Rightarrow> 's \<Rightarrow> (client_error + unit option) \<times> 's" where
  "Client_AddItems dec x addItemReq = x ''POST'' ItemsEndPnt (Some (add_items_request_json dec addItemReq)) None"

definition Client_ListItems :: "'d decimal_ops \<Rightarrow> ('s, 'd item option list option) exec \<Rightarrow> 's \<Rightarrow> (client_error + 'd item option list option option) \<times> 's" where
  "Client_ListItems dec x = x ''GET'' ItemsEndPnt None (Some (dec_items dec))"

definition Client_GetItemPrice :: "'d decimal_ops \<Rightarrow> ('s, 'd client_price) exec \<Rightarrow> string \<Rightarrow> 's \<Rightarrow> (client_error + 'd client_price option) \<times> 's" where
  "Client_GetItemPrice dec x key = x ''GET'' (ItemPriceEndPnt @ ''/'' @ key) None (Some (dec_price_response dec))"

definition Client_GetItemsPrice :: "'d decimal_ops \<Rightarrow> ('s, 'd client_price) exec \<Rightarrow> items_price_request \<Rightarrow> 's \<Rightarrow> (client_error + 'd client_price option) \<times> 's" where
  "Client_GetItemsPrice dec x req =
     x ''POST'' ItemPriceEndPnt (Some (JObj [(''skus'', json_slice JStr (ip_SKUs req))])) (Some (dec_price_response dec))"

definition Client_PurchaseItems :: "('s, purchase_items_response) exec \<Rightarrow> purchase_items_request \<Rightarrow> 's \<Rightarrow> (client_error + purchase_items_response option) \<times> 's" where
  "Client_PurchaseItems x req =
     x ''POST'' ItemPurchaseEndPnt (Some (JObj [(''skus'', json_slice JStr (pr_SKUs req))])) (Some dec_purchase_items_response)"

definition Client_GetOrders :: "'d decimal_ops \<Rightarrow> ('s, 'd order list option) exec \<Rightarrow> 's \<Rightarrow> (client_error + 'd order list option option) \<times> 's" where
  "Client_GetOrders dec x = x ''GET'' OrdersEndPnt None (Some (dec_orders dec))"

definition Client_ListNotifications :: "('s, notification) exec \<Rightarrow> 's \<Rightarrow> (client_error + notification option) \<times> 's" where
  "Client_ListNotifications x = x ''GET'' NotificationsEndPnt None (Some dec_notification)"

subsection \<open>The health command\<close>

text \<open>Succeeds when the service answers and reports no failure.\<close>

datatype health_outcome = Healthy string string | ProbeFailed client_error | Unhealthy "string list" | NoClient error

definition HealthCmd_RunE :: "(string \<Rightarrow> error + url) \<Rightarrow> 's transport \<Rightarrow> string \<Rightarrow> 's \<Rightarrow> health_outcome \<times> 's" where
  "HealthCmd_RunE parse http addr s =
     (case Client_New parse http addr [] of
        Inl e \<Rightarrow> (NoClient (Wrap ''failed to build client: '' e []), s)
      | Inr cl \<Rightarrow>
          (case Client_Health (executeJSONRequest parse cl []) s of
             (Inl e, s') \<Rightarrow> (ProbeFailed e, s')
           | (Inr None, s') \<Rightarrow> (Healthy [] [], s')
           | (Inr (Some resp), s') \<Rightarrow>
               if elems (hr_Failures resp) \<noteq> [] then (Unhealthy (elems (hr_Failures resp)), s')
               else (Healthy (hr_Service resp) (hr_Version resp), s')))"

section \<open>Talking to a service of this repository\<close>

text \<open>
  The transport to a handler: the request as the router hands it over, run on a fresh writer.
  A panic makes the server close the connection.
\<close>

definition served :: "'s handle \<Rightarrow> (client_request \<Rightarrow> request \<times> params) \<Rightarrow> 's transport" where
  "served h route cq s =
     (case h (fst (route cq)) (snd (route cq)) (new_writer, s) of
        (Panic, (w, s')) \<Rightarrow> (Inl (ErrExt ''EOF''), s')
      | (_, (w, s')) \<Rightarrow>
          (Inr \<lparr>cs_StatusCode = (case w_code w of None \<Rightarrow> 200 | Some c \<Rightarrow> c), cs_Body = Inr (w_body w)\<rparr>, s'))"

lemma new_writer_fresh [simp]: "fresh_writer new_writer"
  by (simp add: fresh_writer_def new_writer_def)

lemma served_Handle:
  assumes "h (fst (route cq)) (snd (route cq)) s = (r, s')" and "r \<noteq> Panic"
  shows "served (Handle dec h) route cq s =
    (Inr \<lparr>cs_StatusCode = fst (reply dec r), cs_Body = Inr (snd (reply dec r))\<rparr>, s')"
  using Handle_reply [where h = h and req = "fst (route cq)" and p = "snd (route cq)" and s = s, OF new_writer_fresh assms, of dec]
  by (simp add: served_def responded_def new_writer_def)

text \<open>What a client sees of a payload.\<close>

lemma exec_payload:
  assumes "cl_http c = served (Handle dec h) route" and "parse (u_Path (cl_base c)) = Inr b"
    and "\<And>cq. h (fst (route cq)) (snd (route cq)) s = (Ok payload, s')" and "payload \<noteq> NilPayload"
    and "payload_json dec payload = Some j" and "json_wf j"
  shows "executeJSONRequest parse c hdrs meth path inp (Some d) s =
    (case d j of None \<Rightarrow> (Inl (OtherErr (ErrExt ''json'')), s') | Some v \<Rightarrow> (Inr (Some v), s'))"
proof -
  have "marshal_payload dec payload = Ok (print_json j)"
    using assms(4,5) by (cases payload) (auto simp: marshal_payload_def simp del: payload_json.simps)
  then have "reply dec (Ok payload) = (200, print_json j)" by (simp add: reply_def)
  then have "cl_http c cq s = (Inr \<lparr>cs_StatusCode = 200, cs_Body = Inr (print_json j)\<rparr>, s')" for cq
    using served_Handle [of h route cq s "Ok payload" s' dec, OF assms(3)] assms(1) by simp
  moreover have "parse_first (print_json j) = Some j"
    using parse_first_print_json [OF assms(6), of "[]"] by (simp add: delim_def)
  ultimately show ?thesis using assms(2) by (simp add: executeJSONRequest_def Let_def split: option.split)
qed

lemma exec_failure:
  assumes "cl_http c = served (Handle dec h) route" and "parse (u_Path (cl_base c)) = Inr b"
    and "\<And>cq. h (fst (route cq)) (snd (route cq)) s = (Fail err, s')" and "utf8_valid (error_string err)" and "error_string err \<noteq> []"
  shows "executeJSONRequest parse c hdrs meth path inp outp s =
    (Inl (HTTPErr \<lparr>he_Status = statusFor err, he_Body = error_body err, he_JSON = Some (error_string err)\<rparr>), s')"
proof -
  have "cl_http c cq s = (Inr \<lparr>cs_StatusCode = statusFor err, cs_Body = Inr (error_body err)\<rparr>, s')" for cq
    using served_Handle [of h route cq s "Fail err" s' dec, OF assms(3)] assms(1) by (simp add: reply_def)
  moreover have "json_wf (JObj [(''error'', JStr (error_string err))])"
    using assms(4) by (simp add: utf8_valid_ascii ascii_def)
  from parse_print_json [OF this] have "parse_json (error_body err) = Some (JObj [(''error'', JStr (error_string err))])"
    using assms(5) by (simp only: error_body_def omit_string_def omitempty_def if_False)
  moreover have "statusFor err \<in> {400, 404, 500}" by (rule statusFor_cases)
  ultimately show ?thesis
    using assms(2,5) by (auto simp: executeJSONRequest_def Let_def http_error_of_def dec_json_error_def)
qed

section \<open>Theorems\<close>

text \<open>C26: The orders the client returns are the orders the handler returned: the same identifiers,
  references, customers and SKU lists in the same order, with prices of equal value.\<close>

theorem client_orders:
  assumes "decimal_lib dec val" and "cl_http c = served (Handle dec h) route" and "parse (u_Path (cl_base c)) = Inr b"
    and "\<And>cq. h (fst (route cq)) (snd (route cq)) s = (Ok (OrdersPayload os), s')"
    and "\<And>x. x \<in> set os \<Longrightarrow> int64 (o_ID x) \<and> utf8_valid (o_Reference x) \<and> utf8_valid (o_CustomerID x) \<and> utf8_valid (o_SKUList x)"
  shows "\<exists>os'. Client_GetOrders dec (executeJSONRequest parse c hdrs) s = (Inr (Some (Some os')), s') \<and>
    list_all2 (\<lambda>x y. y = x\<lparr>o_Price := o_Price y\<rparr> \<and> val (o_Price y) = val (o_Price x)) os os'"
proof -
  have wf: "json_wf (JArr (map (order_json dec) os))"
    using assms(5) decimal_lib.order_json_wf [OF assms(1)] by (auto simp: list_all_iff)
  have "\<forall>x \<in> set os. \<exists>p. val p = val (o_Price x) \<and> dec_order dec (order_json dec x) (zero_order dec) = Some (x\<lparr>o_Price := p\<rparr>)"
    using assms(5) decimal_lib.dec_order_json [OF assms(1)] by blast
  then obtain p where p: "\<And>x. x \<in> set os \<Longrightarrow> val (p x) = val (o_Price x) \<and>
      dec_order dec (order_json dec x) (zero_order dec) = Some (x\<lparr>o_Price := p x\<rparr>)" by metis
  then have "dec_elems (dec_order dec) (zero_order dec) [] (map (order_json dec) os) = Some (map (\<lambda>x. x\<lparr>o_Price := p x\<rparr>) os)"
    by (induction os) auto
  then have "dec_orders dec (JArr (map (order_json dec) os)) = Some (Some (map (\<lambda>x. x\<lparr>o_Price := p x\<rparr>) os))"
    by (simp add: dec_orders_def)
  moreover have "list_all2 (\<lambda>x y. y = x\<lparr>o_Price := o_Price y\<rparr> \<and> val (o_Price y) = val (o_Price x)) os (map (\<lambda>x. x\<lparr>o_Price := p x\<rparr>) os)"
    using p by (auto simp: list_all2_map2 list_all2_same)
  ultimately show ?thesis
    using exec_payload [where h = h and route = route and parse = parse and d = "dec_orders dec", OF assms(2,3,4) _ _ wf]
    by (simp add: Client_GetOrders_def)
qed

text \<open>A client on an in-memory orders service, whose router hands every request to one handler.\<close>

definition demo_parse :: "string \<Rightarrow> error + url" where
  "demo_parse t = Inr \<lparr>u_Origin = [], u_Path = []\<rparr>"

definition demo_client :: "'s transport \<Rightarrow> 's client" where
  "demo_client t = \<lparr>cl_base = \<lparr>u_Origin = ''http://localhost:8000'', u_Path = []\<rparr>, cl_http = t, cl_hdr = Map.empty\<rparr>"

definition demo_orders :: "dec10 order list" where
  "demo_orders = [(zero_order dec10)\<lparr>o_ID := 2, o_Reference := ''b''\<rparr>, (zero_order dec10)\<lparr>o_ID := 1, o_Reference := ''a''\<rparr>]"

definition to_handler :: "client_request \<Rightarrow> request \<times> params" where
  "to_handler cq = (\<lparr>r_Method = cq_Method cq, r_Path = cq_URL cq, r_Query = [], r_Header = Map.empty, r_Body = [],
     r_Context = \<lparr>c_userID = Some ''alice''\<rparr>\<rparr>, [])"

theorem client_orders_witness:
  "\<exists>os'. Client_GetOrders dec10 (executeJSONRequest demo_parse
       (demo_client (served (Handle dec10 (\<lambda>_ _. returnS (OrdersPayload demo_orders))) to_handler)) []) () = (Inr (Some (Some os')), ()) \<and>
     map o_Reference os' = [''b'', ''a'']"
proof -
  have ok: "int64 (o_ID x) \<and> utf8_valid (o_Reference x) \<and> utf8_valid (o_CustomerID x) \<and> utf8_valid (o_SKUList x)"
    if "x \<in> set demo_orders" for x
  proof -
    have "list_all (\<lambda>x. int64 (o_ID x) \<and> utf8_valid (o_Reference x) \<and> utf8_valid (o_CustomerID x) \<and> utf8_valid (o_SKUList x)) demo_orders"
      by code_simp
    with that show ?thesis by (simp only: list_all_iff)
  qed
  have refs: "map o_Reference os' = map o_Reference os"
    if "list_all2 (\<lambda>x y. y = x\<lparr>o_Price := o_Price y\<rparr> \<and> dec10_val (o_Price y) = dec10_val (o_Price x)) os os'" for os os'
    using that by (induction rule: list_all2_induct) (simp, metis (no_types, lifting) list.simps(9) order.select_convs(2) order.surjective order.update_convs(5))
  obtain os' where os': "Client_GetOrders dec10 (executeJSONRequest demo_parse
       (demo_client (served (Handle dec10 (\<lambda>_ _. returnS (OrdersPayload demo_orders))) to_handler)) []) () = (Inr (Some (Some os')), ())"
     "list_all2 (\<lambda>x y. y = x\<lparr>o_Price := o_Price y\<rparr> \<and> dec10_val (o_Price y) = dec10_val (o_Price x)) demo_orders os'"
    using client_orders [where h = "\<lambda>_ _. returnS (OrdersPayload demo_orders)" and route = to_handler and parse = demo_parse
        and os = demo_orders and hdrs = "[]" and s = "()" and s' = "()"
        and c = "demo_client (served (Handle dec10 (\<lambda>_ _. returnS (OrdersPayload demo_orders))) to_handler)",
        OF dec10.decimal_lib_axioms _ _ _ ok]
    unfolding demo_parse_def by (auto simp: demo_client_def)
  from refs [OF os'(2)] os'(1) show ?thesis by (auto simp: demo_orders_def)
qed

text \<open>C27: An error of a handler reaches the caller of the client with its category and text: the HTTP error
  carries the status the category maps to and the message of the error.\<close>

theorem client_error:
  assumes "cl_http c = served (Handle dec h) route" and "parse (u_Path (cl_base c)) = Inr b"
    and "\<And>cq. h (fst (route cq)) (snd (route cq)) s = (Fail err, s')"
    and "utf8_valid (error_string err)" and "error_string err \<noteq> []"
  shows "executeJSONRequest parse c hdrs meth path inp outp s =
    (Inl (HTTPErr \<lparr>he_Status = (if errors_is err ErrInvalidInput then 400 else if errors_is err ErrNotFound then 404 else 500),
       he_Body = error_body err, he_JSON = Some (error_string err)\<rparr>), s')"
  unfolding statusFor_def [symmetric] by (rule exec_failure [where h = h and route = route and parse = parse, OF assms])

theorem client_error_witness:
  "\<exists>body. Client_Status (executeJSONRequest demo_parse
       (demo_client (served (Handle dec10 (\<lambda>_ _. failS (item_empty ''43N23P''))) to_handler)) []) () =
     (Inl (HTTPErr \<lparr>he_Status = 404, he_Body = body, he_JSON = Some ''not found: item 43N23P empty''\<rparr>), ())"
proof -
  have e: "error_string (item_empty ''43N23P'') = ''not found: item 43N23P empty''" "utf8_valid (error_string (item_empty ''43N23P''))"
      "errors_is (item_empty ''43N23P'') ErrNotFound" "\<not> errors_is (item_empty ''43N23P'') ErrInvalidInput" by code_simp+
  show ?thesis
    using client_error [where h = "\<lambda>_ _. failS (item_empty ''43N23P'')" and dec = dec10 and route = to_handler and parse = demo_parse
        and c = "demo_client (served (Handle dec10 (\<lambda>_ _. failS (item_empty ''43N23P''))) to_handler)" and err = "item_empty ''43N23P''"
        and s = "()" and s' = "()" and hdrs = "[]" and meth = "''GET''" and path = StatusEndPnt and inp = None
        and outp = "Some dec_status_response", OF _ _ _ e(2)] e
    by (simp add: Client_Status_def demo_client_def demo_parse_def)
qed

text \<open>C28: Listing notifications through the client never works: the endpoint answers with an array, the
  client decodes a single notification, and every successful answer of the server becomes an error.\<close>

theorem client_notifications_fail:
  assumes "cl_http c = served (Handle dec h) route" and "parse (u_Path (cl_base c)) = Inr b"
    and "\<And>cq. h (fst (route cq)) (snd (route cq)) s = (Ok (NotificationsPayload ns), s')"
    and "payload_json dec (NotificationsPayload ns) = Some j" and "json_wf j"
  shows "Client_ListNotifications (executeJSONRequest parse c hdrs) s = (Inl (OtherErr (ErrExt ''json'')), s')"
proof -
  from assms(4) obtain js where "j = JArr js" by (auto split: option.splits)
  then have "dec_notification j = None" by (simp add: dec_notification_def)
  with exec_payload [where h = h and route = route and parse = parse and d = dec_notification, OF assms(1,2,3) _ assms(4,5)]
  show ?thesis by (simp add: Client_ListNotifications_def)
qed

theorem client_notifications_fail_witness:
  "Client_ListNotifications (executeJSONRequest demo_parse
      (demo_client (served (Handle dec10 (\<lambda>_ _. returnS (NotificationsPayload []))) to_handler)) []) ()
    = (Inl (OtherErr (ErrExt ''json'')), ())"
  using client_notifications_fail [where h = "\<lambda>_ _. returnS (NotificationsPayload [])" and dec = dec10 and route = to_handler and parse = demo_parse
        and c = "demo_client (served (Handle dec10 (\<lambda>_ _. returnS (NotificationsPayload []))) to_handler)"
        and s = "()" and s' = "()" and hdrs = "[]" and ns = "[]" and j = "JArr []"]
  by (simp add: demo_client_def demo_parse_def)

subsection \<open>Paths\<close>

lemma hex_val_hex_upper: "n < 16 \<Longrightarrow> hex_val (hex_upper n) = Some n"
proof -
  have "\<forall>n \<in> set [0..<16]. hex_val (hex_upper n) = Some n" by code_simp
  then show "n < 16 \<Longrightarrow> hex_val (hex_upper n) = Some n" by simp
qed

lemma escape_path_append [simp]: "escape_path (a @ b) = escape_path a @ escape_path b"
  by (simp add: escape_path_def)

lemma escape_path_id: "list_all (\<lambda>c. \<not> should_escape c) p \<Longrightarrow> escape_path p = p"
  by (induction p) (simp_all add: escape_path_def escape_char_def)

lemma unescape_escape: "unescape_path (escape_path p @ q) = map_option ((@) p) (unescape_path q)"
proof (induction p)
  case (Cons c p)
  have b: "(of_char c :: nat) < 256" using of_char_mod_256 [of c, where 'a = nat] by (metis mod_less_divisor zero_less_numeral)
  then have "(of_char c :: nat) div 16 < 16" by (simp add: less_mult_imp_div_less)
  moreover have "(of_char c :: nat) mod 16 < 16" by simp
  ultimately have h: "hex_val (hex_upper ((of_char c :: nat) div 16)) = Some (of_char c div 16)"
      "hex_val (hex_upper ((of_char c :: nat) mod 16)) = Some (of_char c mod 16)" by (simp_all add: hex_val_hex_upper)
  have pct: "should_escape CHR ''%''" by code_simp
  have char: "char_of (16 * ((of_char c :: nat) div 16) + of_char c mod 16) = c" by (metis char_of_char mult_div_mod_eq)
  show ?case
  proof (cases "should_escape c")
    case True
    with Cons h char show ?thesis by (simp add: escape_path_def escape_char_def option.map_comp comp_def)
  next
    case False
    with pct have "c \<noteq> CHR ''%''" by auto
    with Cons False show ?thesis by (simp add: escape_path_def escape_char_def option.map_comp comp_def)
  qed
qed (simp add: escape_path_def option.map_id0 [unfolded id_def] option.map_ident)

lemma unescape_plain: "CHR ''%'' \<notin> set p \<Longrightarrow> unescape_path p = Some p"
  by (induction p) auto

lemma split_slash_plain: "CHR ''/'' \<notin> set p \<Longrightarrow> split_slash acc p = [acc @ p]"
  by (induction p arbitrary: acc) auto

lemma url_join_rooted:
  assumes "join_rooted [''/'', seg] = CHR ''/'' # p" "CHR ''%'' \<notin> set p" "seg \<noteq> []" "last seg \<noteq> CHR ''/''"
  shows "url_join \<lparr>u_Origin = [], u_Path = []\<rparr> seg = (if valid_encoded p then p else escape_path p)"
  using assms by (auto simp: url_join_def escape_path_def [of "[]"] unescape_plain)

lemma url_join_item_price:
  assumes "key \<noteq> []" "CHR ''/'' \<notin> set key" "CHR ''%'' \<notin> set key" "key \<noteq> ''.''" "key \<noteq> ''..''"
  shows "url_join \<lparr>u_Origin = [], u_Path = []\<rparr> (ItemPriceEndPnt @ ''/'' @ key)
    = ''v1/inventory/item/price/'' @ (if valid_encoded key then key else escape_path key)"
proof -
  let ?pre = "''v1/inventory/item/price/''"
  have j: "join_rooted [''/'', ItemPriceEndPnt @ ''/'' @ key] = CHR ''/'' # (?pre @ key)"
    using assms by (simp add: join_rooted_def ItemPriceEndPnt_def split_slash_plain clean_segment_def)
  have pre: "list_all (\<lambda>c. \<not> should_escape c) ?pre" "valid_encoded ?pre" "CHR ''%'' \<notin> set ?pre" by code_simp+
  have v: "valid_encoded (?pre @ key) = valid_encoded key"
    using pre(2) unfolding valid_encoded_def list_all_append by blast
  have l: "last (ItemPriceEndPnt @ ''/'' @ key) \<noteq> CHR ''/''" using assms(1,2) by (metis last_appendR last_in_set append_is_Nil_conv)
  have s: "CHR ''%'' \<notin> set (?pre @ key)" using assms(3) pre(3) by (metis Un_iff set_append)
  show ?thesis
    using url_join_rooted [OF j s _ l] by (simp only: v escape_path_append escape_path_id [OF pre(1)]) simp
qed

text \<open>Which keys a price request reaches the server with. The client escapes the path twice: a key of
  characters that are legal in a path arrives as it is, any other key (a name with a space, say) arrives in its
  percent-encoded form, so the item is looked up under the wrong name.\<close>

theorem client_item_path:
  assumes "cl_base c = \<lparr>u_Origin = origin, u_Path = []\<rparr>" and "parse [] = Inr \<lparr>u_Origin = [], u_Path = []\<rparr>" and "origin \<noteq> []"
    and "cl_http c = (\<lambda>cq urls. (Inl e, urls @ [cq_URL cq]))"
    and "key \<noteq> []" and "CHR ''/'' \<notin> set key" and "CHR ''%'' \<notin> set key" and "key \<notin> {''.'', ''..''}"
  shows "\<exists>arg. snd (Client_GetItemPrice dec (executeJSONRequest parse c hdrs) key urls) = urls @ [origin @ ItemPriceEndPnt @ ''/'' @ arg] \<and>
    unescape_path arg = Some (if valid_encoded key then key else escape_path key)"
proof -
  let ?k = "if valid_encoded key then key else escape_path key" and ?pre = "''v1/inventory/item/price/''"
  have pre: "escape_path ?pre = ?pre" by code_simp
  have "url_string \<lparr>u_Origin = origin, u_Path = ?pre @ ?k\<rparr> = origin @ ''/'' @ ?pre @ escape_path ?k"
    using assms(3) by (simp only: url_string_def escape_path_append pre url.simps) simp
  moreover have "''/'' @ ?pre = ItemPriceEndPnt @ ''/''" by (simp add: ItemPriceEndPnt_def)
  ultimately have "url_string \<lparr>u_Origin = origin, u_Path = url_join \<lparr>u_Origin = [], u_Path = []\<rparr> (ItemPriceEndPnt @ ''/'' @ key)\<rparr>
      = origin @ ItemPriceEndPnt @ ''/'' @ escape_path ?k"
    using url_join_item_price [of key] assms(5-8) by simp
  then have "snd (Client_GetItemPrice dec (executeJSONRequest parse c hdrs) key urls)
      = urls @ [origin @ ItemPriceEndPnt @ ''/'' @ escape_path ?k]"
    using assms(1,2,4) by (simp add: Client_GetItemPrice_def executeJSONRequest_def Let_def)
  moreover have "unescape_path (escape_path ?k) = Some ?k" using unescape_escape [of ?k "[]"] by simp
  ultimately show ?thesis by blast
qed

theorem client_item_path_witness:
  "\<exists>arg. snd (Client_GetItemPrice dec10 (executeJSONRequest demo_parse (demo_client (\<lambda>cq urls. (Inl (ErrExt ''stub''), urls @ [cq_URL cq]))) [])
       ''Raspberry Pi B'' []) = [''http://localhost:8000'' @ ItemPriceEndPnt @ ''/'' @ arg] \<and>
     unescape_path arg = Some ''Raspberry%20Pi%20B''"
proof -
  have "\<not> valid_encoded ''Raspberry Pi B''" "escape_path ''Raspberry Pi B'' = ''Raspberry%20Pi%20B''" by code_simp+
  with client_item_path [where parse = demo_parse and key = "''Raspberry Pi B''" and urls = "[]" and hdrs = "[]" and dec = dec10
      and c = "demo_client (\<lambda>cq urls. (Inl (ErrExt ''stub''), urls @ [cq_URL cq]))" and e = "ErrExt ''stub''" and origin = "''http://localhost:8000''"]
  show ?thesis by (simp add: demo_client_def demo_parse_def)
qed

subsection \<open>The health command\<close>

definition health_body :: "string \<Rightarrow> string \<Rightarrow> string list \<Rightarrow> json" where
  "health_body service version failures =
     JObj (omit_string ''version'' version @ omit_string ''service'' service @ [(''failures'', JArr (map JStr failures))])"

lemma served_health:
  assumes "run_checks cs [] s = (Ok failures, s')"
  shows "served (HealthHandler dec service version cs) route cq s =
    (Inr \<lparr>cs_StatusCode = (if failures = [] then 200 else 503), cs_Body = Inr (print_json (health_body service version failures))\<rparr>, s')"
  using assms
  by (simp add: served_def HealthHandler_def on_state_def on_writer_def WriteJSON_fresh marshal_payload_def Let_def
      json_slice_def health_body_def responded_def new_writer_def fresh_writer_def)

lemma HealthCmd_answer:
  assumes "parse addr = Inr u" and "parse (u_Path u) = Inr b"
    and "\<And>cq. t cq s = (Inr \<lparr>cs_StatusCode = code, cs_Body = Inr body\<rparr>, s')" and "code \<noteq> 405"
  shows "fst (HealthCmd_RunE parse t addr s) =
    (if 400 \<le> code then ProbeFailed (HTTPErr (http_error_of code body))
     else case Option.bind (parse_first body) dec_health_response of
            None \<Rightarrow> ProbeFailed (OtherErr (ErrExt ''json''))
          | Some resp \<Rightarrow> if elems (hr_Failures resp) \<noteq> [] then Unhealthy (elems (hr_Failures resp))
                       else Healthy (hr_Service resp) (hr_Version resp))"
  using assms
  by (simp add: HealthCmd_RunE_def Client_New_def Client_Health_def executeJSONRequest_def Let_def split: option.split)

text \<open>C29: The health command against a node of this repository: it reports success, with the service and
  version of the node, when every probe passes; when one fails, the command fails with the status 503.\<close>

theorem health_command:
  assumes "\<And>c s. c \<in> set cs \<Longrightarrow> fst (ck_Probe c s) \<noteq> Panic"
    and "parse addr = Inr u" and "parse (u_Path u) = Inr b" and "utf8_valid service" and "utf8_valid version"
  shows "\<exists>body. fst (HealthCmd_RunE parse (served (HealthHandler dec service version cs) route) addr s) =
    (if probe_failures cs s = [] then Healthy service version else ProbeFailed (HTTPErr (http_error_of 503 body)))"
proof -
  obtain s' where run: "run_checks cs [] s = (Ok (probe_failures cs s), s')"
    using run_checks_failures [OF assms(1), of cs "[]" s] by (metis append_Nil prod.collapse)
  have "json_wf (health_body service version [])"
    using assms(4,5) by (simp add: health_body_def omit_string_def omitempty_def utf8_valid_ascii ascii_def)
  from parse_first_print_json [OF this, of "[]"]
  have "parse_first (print_json (health_body service version [])) = Some (health_body service version [])" by (simp add: delim_def)
  moreover have "dec_health_response (health_body service version []) = Some \<lparr>hr_Version = version, hr_Service = service, hr_Failures = Some []\<rparr>"
    by (simp add: dec_health_response_def health_body_def omit_string_def codec_simps)
  ultimately show ?thesis
    using HealthCmd_answer [where parse = parse and t = "served (HealthHandler dec service version cs) route" and s = s,
        OF assms(2,3) served_health [OF run]]
    by (cases "probe_failures cs s = []") (auto simp: elems_def)
qed

text \<open>A node with one failing probe.\<close>

definition failing_check :: "unit check" where
  "failing_check = \<lparr>ck_Name = ''database'', ck_Probe = failS (ErrExt ''down'')\<rparr>"

theorem health_command_witness:
  "\<exists>body. fst (HealthCmd_RunE demo_parse (served (HealthHandler dec10 ''orders'' ''v1'' [failing_check]) to_handler) ''http://localhost:8000'' ())
     = ProbeFailed (HTTPErr (http_error_of 503 body))"
proof -
  have u: "utf8_valid ''orders''" "utf8_valid ''v1''" by code_simp+
  from health_command [where cs = "[failing_check]" and parse = demo_parse and addr = "''http://localhost:8000''" and dec = dec10
      and route = to_handler and s = "()", OF _ _ _ u]
  show ?thesis by (simp add: failing_check_def demo_parse_def)
qed

end
