(* ===== verification/Commands.thy ===== *)
theory Commands
  imports Wiring Client
begin

text \<open>
  The command line (\<^verbatim>\<open>main.go\<close>, \<^verbatim>\<open>cmd/cmd.go\<close>, \<^verbatim>\<open>cmd/run.go\<close>, and the constructors of
  \<^verbatim>\<open>cmd/orders.go\<close>, \<^verbatim>\<open>cmd/notifier.go\<close>, \<^verbatim>\<open>cmd/health.go\<close>): the tree of commands, the flag set of
  each command, the binding of the flags to the process-wide configuration registry and to the
  environment, and the exit status. The registry (viper) is a parameter with its documented
  laws (locale \<open>viper_lib\<close>), and so is the selection of a command from the arguments (cobra).
  The theorems say which settings a service command really runs with.
\<close>

section \<open>The configuration registry\<close>

text \<open>A flag set is an object of its own: the one of a command is identified by the command's name.\<close>

record flag_set =
  fs_owner :: string
  fs_flags :: "(string \<times> flag_value) list"

text \<open>The value given on the command line to the flag of a flag set, if any.\<close>

type_synonym command_line = "string \<times> string \<Rightarrow> flag_value option"

type_synonym environ = "string \<Rightarrow> string"

text \<open>\<^verbatim>\<open>strings.NewReplacer\<close> on single bytes: the first matching pair replaces.\<close>

definition Replace :: "(char \<times> char) list \<Rightarrow> string \<Rightarrow> string" where
  "Replace rep = map (\<lambda>c. case map_of rep c of Some d \<Rightarrow> d | None \<Rightarrow> c)"

record 'v viper_ops =
  vo_BindPFlags :: "flag_set \<Rightarrow> ('v, unit) io"
  vo_SetEnvPrefix :: "string \<Rightarrow> 'v \<Rightarrow> 'v"
  vo_SetEnvKeyReplacer :: "(char \<times> char) list \<Rightarrow> 'v \<Rightarrow> 'v"
  vo_AutomaticEnv :: "'v \<Rightarrow> 'v"
  vo_getters :: "'v \<Rightarrow> command_line \<Rightarrow> environ \<Rightarrow> viper"

text \<open>The environment variable of a key: prefix and key in upper case, then the replacements.\<close>

definition env_key :: "string \<Rightarrow> (char \<times> char) list \<Rightarrow> string \<Rightarrow> string" where
  "env_key envprefix rep k = Replace rep (map upper_ascii (if envprefix = [] then k else envprefix @ ''_'' @ k))"

text \<open>
  The documented order of precedence: the bound flag when it was given, then the environment
  variable when it is not empty, then the default of the bound flag. A value of the environment
  is a text.
\<close>

definition resolve :: "(string \<times> flag_value) option \<Rightarrow> command_line \<Rightarrow> string \<Rightarrow> string \<Rightarrow> flag_value option" where
  "resolve bound cl k e =
     (case Option.bind bound (\<lambda>(owner, _). cl (owner, k)) of
        Some x \<Rightarrow> Some x
      | None \<Rightarrow> if e \<noteq> [] then Some (FString e) else map_option snd bound)"

definition lower_key :: "string \<Rightarrow> bool" where
  "lower_key k \<longleftrightarrow> map lower_ascii k = k"

text \<open>
  The laws of the registry. Keys are case-insensitive, so the laws are stated for lower case.
  Binding a flag set replaces the flag bound to each of its names. The typed getters convert the
  texts of the environment.
\<close>

locale viper_lib =
  fixes V :: "'v viper_ops" and binding :: "'v \<Rightarrow> string \<Rightarrow> (string \<times> flag_value) option"
    and envprefix :: "'v \<Rightarrow> string" and replacer :: "'v \<Rightarrow> (char \<times> char) list" and automatic :: "'v \<Rightarrow> bool"
    and cast_int :: "string \<Rightarrow> int" and cast_bool :: "string \<Rightarrow> bool"
  assumes bind_ok: "\<exists>v'. vo_BindPFlags V fs v = (Ok (), v')"
    and bind_flags: "vo_BindPFlags V fs v = (Ok (), v') \<Longrightarrow> list_all lower_key (map fst (fs_flags fs)) \<Longrightarrow> lower_key k \<Longrightarrow>
      binding v' k = (case map_of (fs_flags fs) k of Some d \<Rightarrow> Some (fs_owner fs, d) | None \<Rightarrow> binding v k)"
    and set_prefix: "envprefix (vo_SetEnvPrefix V p v) = p" "binding (vo_SetEnvPrefix V p v) = binding v"
    and set_replacer: "replacer (vo_SetEnvKeyReplacer V r v) = r" "envprefix (vo_SetEnvKeyReplacer V r v) = envprefix v"
      "binding (vo_SetEnvKeyReplacer V r v) = binding v"
    and set_automatic: "automatic (vo_AutomaticEnv V v)" "envprefix (vo_AutomaticEnv V v) = envprefix v"
      "replacer (vo_AutomaticEnv V v) = replacer v" "binding (vo_AutomaticEnv V v) = binding v"
    and get_int: "automatic v \<Longrightarrow> lower_key k \<Longrightarrow>
      resolve (binding v k) cl k (env (env_key (envprefix v) (replacer v) k)) = Some x \<Longrightarrow>
      vp_GetInt (vo_getters V v cl env) k = (case x of FInt n \<Rightarrow> n | FString t \<Rightarrow> cast_int t | FBool b \<Rightarrow> of_bool b)"
    and get_string: "automatic v \<Longrightarrow> lower_key k \<Longrightarrow>
      resolve (binding v k) cl k (env (env_key (envprefix v) (replacer v) k)) = Some (FString t) \<Longrightarrow>
      vp_GetString (vo_getters V v cl env) k = t"
    and get_bool: "automatic v \<Longrightarrow> lower_key k \<Longrightarrow>
      resolve (binding v k) cl k (env (env_key (envprefix v) (replacer v) k)) = Some x \<Longrightarrow>
      vp_GetBool (vo_getters V v cl env) k = (case x of FBool b \<Rightarrow> b | FString t \<Rightarrow> cast_bool t | FInt n \<Rightarrow> n \<noteq> 0)"
    and cast_numeral: "0 \<le> n \<Longrightarrow> n < 2 ^ 63 \<Longrightarrow> cast_int (print_int n) = n"

section \<open>Commands\<close>

definition EnvPrefix :: string where "EnvPrefix = ''CHECKOUT''"
definition DefaultHost :: string where "DefaultHost = ''localhost''"

definition env_replacements :: "(char \<times> char) list" where
  "env_replacements = [(CHR ''-'', CHR ''_''), (CHR ''.'', CHR ''_'')]"

text \<open>The second half of \<^verbatim>\<open>registerServiceFlags\<close>: the flags are bound, and the environment is consulted.\<close>

definition registerServiceFlags_bind :: "'v viper_ops \<Rightarrow> flag_set \<Rightarrow> ('v, unit) io" where
  "registerServiceFlags_bind V fs v =
     (case vo_BindPFlags V fs v of
        (Ok _, v') \<Rightarrow>
          (Ok (), vo_AutomaticEnv V (vo_SetEnvKeyReplacer V env_replacements (vo_SetEnvPrefix V EnvPrefix v')))
      | (_, v') \<Rightarrow> (Panic, v'))"

text \<open>What a command is run with: the values of its own flags and the registry.\<close>

record invocation =
  iv_flags :: "string \<Rightarrow> flag_value option"
  iv_viper :: viper

type_synonym 's runE = "invocation \<Rightarrow> 's \<Rightarrow> (unit res \<times> 's) option"

datatype 's command = Command
  (cc_Use: string) (cc_Short: string) (cc_SilenceUsage: bool)
  (cc_Flags: "(string \<times> flag_value) list") (cc_RunE: "'s runE") (cc_Commands: "'s command list")

text \<open>The program: its libraries, the environment of a node, printing, and the network of the probe by its time-out.\<close>

record ('d, 's) program =
  pg_dec :: "'d decimal_ops"
  pg_build :: build_info
  pg_slot :: "'s slot"
  pg_env :: "('d, 's) node_env"
  pg_Help :: "string \<Rightarrow> ('s, unit) io"
  pg_Println :: "string \<Rightarrow> 's \<Rightarrow> 's"
  pg_parse :: "string \<Rightarrow> error + url"
  pg_http :: "int \<Rightarrow> 's transport"

definition runHelp :: "('d, 's) program \<Rightarrow> string \<Rightarrow> 's runE" where
  "runHelp prog use iv s = Some (pg_Help prog use s)"

definition NewOrdersCmd :: "('d, 's) program \<Rightarrow> 'v viper_ops \<Rightarrow> ('v, 's command) io" where
  "NewOrdersCmd prog V =
     (let flags = registerServiceFlags in
      bindS (registerServiceFlags_bind V \<lparr>fs_owner = ''orders'', fs_flags = flags\<rparr>) (\<lambda>_.
      returnS (Command ''orders''
        (''Run the '' @ ServiceName @ ''. A microservice handling purchase orders and item inventory over a REST API.'')
        False flags
        (\<lambda>iv. NewOrdersCmd_RunE (pg_dec prog) (bi_Version (pg_build prog)) (pg_slot prog) (pg_env prog) (iv_viper iv))
        [])))"

definition notifierFlags :: "(string \<times> flag_value) list" where
  "notifierFlags = (FlagNotificationFile, FString []) # registerServiceFlags"

definition NewNotifierCmd :: "('d, 's) program \<Rightarrow> 'v viper_ops \<Rightarrow> ('v, 's command) io" where
  "NewNotifierCmd prog V =
     bindS (registerServiceFlags_bind V \<lparr>fs_owner = ''notifier'', fs_flags = notifierFlags\<rparr>) (\<lambda>_.
     returnS (Command ''notifier''
       (''Run the '' @ Notifier_ServiceName @ ''. A microservice consuming order events to deliver client notifications.'')
       False notifierFlags
       (\<lambda>iv. NewNotifierCmd_RunE (pg_dec prog) (bi_Version (pg_build prog)) (pg_slot prog) (pg_env prog) (iv_viper iv))
       []))"

definition NewRunCmd :: "('d, 's) program \<Rightarrow> 'v viper_ops \<Rightarrow> ('v, 's command) io" where
  "NewRunCmd prog V =
     bindS (NewOrdersCmd prog V) (\<lambda>orders.
     bindS (NewNotifierCmd prog V) (\<lambda>notifier.
     returnS (Command ''run'' ''run a checkout microservice'' False [] (runHelp prog ''run'') [orders, notifier])))"

definition NewVersionCmd :: "('d, 's) program \<Rightarrow> 's command" where
  "NewVersionCmd prog =
     Command ''version'' ''Print version details'' False []
       (\<lambda>iv s. Some (Ok (), foldl (\<lambda>s line. pg_Println prog line s) s (VersionCmd (pg_build prog)))) []"

text \<open>The verb \<^verbatim>\<open>%v\<close> on a slice of texts.\<close>

fun spaced :: "string list \<Rightarrow> string" where
  "spaced [] = []"
| "spaced [x] = x"
| "spaced (x # xs) = x @ '' '' @ spaced xs"

definition client_error_of :: "client_error \<Rightarrow> error" where
  "client_error_of e = (case e of HTTPErr h \<Rightarrow> ErrExt (HTTPError_Error h) | OtherErr e' \<Rightarrow> e')"

definition health_result :: "('d, 's) program \<Rightarrow> health_outcome \<times> 's \<Rightarrow> unit res \<times> 's" where
  "health_result prog r =
     (case r of
        (Healthy service version, s) \<Rightarrow> (Ok (), pg_Println prog (''ok: '' @ service @ '' '' @ version) s)
      | (ProbeFailed e, s) \<Rightarrow> (Fail (Wrap ''health probe failed: '' (client_error_of e) []), s)
      | (Unhealthy fs, s) \<Rightarrow> (Fail (ErrExt (''service unhealthy: ['' @ spaced fs @ '']'')), s)
      | (NoClient e, s) \<Rightarrow> (Fail e, s))"

definition FlagAddr :: string where "FlagAddr = ''addr''"
definition FlagTimeout :: string where "FlagTimeout = ''timeout''"

text \<open>A duration counts nanoseconds.\<close>

definition healthFlags :: "(string \<times> flag_value) list" where
  "healthFlags =
     [(FlagAddr, FString (''http://'' @ DefaultHost @ '':'' @ print_int DefaultServerPort)), (FlagTimeout, FInt (3 * 10 ^ 9))]"

definition HealthCmd :: "('d, 's) program \<Rightarrow> 's command" where
  "HealthCmd prog =
     Command ''health'' ''Probe a running checkout service and exit non-zero if unhealthy'' True healthFlags
       (\<lambda>iv s.
          let addr = (case iv_flags iv FlagAddr of Some (FString a) \<Rightarrow> a | _ \<Rightarrow> []);
              timeout = (case iv_flags iv FlagTimeout of Some (FInt t) \<Rightarrow> t | _ \<Rightarrow> 0)
          in Some (health_result prog (HealthCmd_RunE (pg_parse prog) (pg_http prog timeout) addr s))) []"

definition NewCheckoutCmd :: "('d, 's) program \<Rightarrow> 'v viper_ops \<Rightarrow> ('v, 's command) io" where
  "NewCheckoutCmd prog V =
     bindS (NewRunCmd prog V) (\<lambda>run.
     let b = pg_build prog; line = [CHR 0x0A] in
     returnS (Command ''checkout''
       (''checkout server command line interface.'' @ line @ line @ ''VERSION:'' @ line @
        ''  semver: '' @ bi_Version b @ line @ ''  commit: '' @ bi_GitCommit b @ line @
        ''  commit date: '' @ bi_CommitDate b @ line @ ''  compilation date: '' @ bi_BuildDate b)
       False [] (runHelp prog ''checkout'') [run, NewVersionCmd prog, HealthCmd prog]))"

section \<open>Execution\<close>

text \<open>
  What the command library makes of the arguments: a usage error, a request for help, or a
  command of the tree with the values given to its flags.
\<close>

datatype 's selection =
    UsageError error
  | ShowHelp "'s command"
  | Selected "'s command" "string \<Rightarrow> flag_value option"

definition given_to :: "string \<Rightarrow> (string \<Rightarrow> flag_value option) \<Rightarrow> command_line" where
  "given_to owner given = (\<lambda>(fs, k). if fs = owner then given k else None)"

definition flag_values :: "(string \<times> flag_value) list \<Rightarrow> (string \<Rightarrow> flag_value option) \<Rightarrow> string \<Rightarrow> flag_value option" where
  "flag_values flags given k = map_option (\<lambda>d. case given k of Some x \<Rightarrow> x | None \<Rightarrow> d) (map_of flags k)"

definition Execute ::
  "('d, 's) program \<Rightarrow> 'v viper_ops \<Rightarrow> 'v \<Rightarrow> ('s command \<Rightarrow> string list \<Rightarrow> 's selection) \<Rightarrow> 's command \<Rightarrow> string list \<Rightarrow>
   's \<Rightarrow> (unit res \<times> 's) option" where
  "Execute prog V v select rootc argv s =
     (case select rootc argv of
        UsageError e \<Rightarrow> Some (Fail e, s)
      | ShowHelp c \<Rightarrow> Some (pg_Help prog (cc_Use c) s)
      | Selected c given \<Rightarrow>
          cc_RunE c \<lparr>iv_flags = flag_values (cc_Flags c) given,
            iv_viper = vo_getters V v (given_to (cc_Use c) given) (ne_getenv (pg_env prog))\<rparr> s)"

text \<open>The exit status of the process: a Go program that panics exits with status 2.\<close>

definition main ::
  "('d, 's) program \<Rightarrow> 'v viper_ops \<Rightarrow> 'v \<Rightarrow> ('s command \<Rightarrow> string list \<Rightarrow> 's selection) \<Rightarrow> string list \<Rightarrow>
   's \<Rightarrow> (int \<times> 's) option" where
  "main prog V v0 select argv s =
     (case NewCheckoutCmd prog V v0 of
        (Ok rootc, v) \<Rightarrow>
          map_option (\<lambda>(r, s'). (case r of Ok _ \<Rightarrow> 0 | Fail _ \<Rightarrow> 1 | Panic \<Rightarrow> 2, s'))
            (Execute prog V v select rootc argv s)
      | _ \<Rightarrow> Some (2, s))"

fun subcommand :: "'s command \<Rightarrow> string list \<Rightarrow> 's command option" where
  "subcommand c [] = Some c"
| "subcommand c (n # ns) =
     Option.bind (List.find (\<lambda>d. cc_Use d = n) (cc_Commands c)) (\<lambda>d. subcommand d ns)"

section \<open>Settings\<close>

text \<open>
  What a user expects of a setting, from the default, the value given on the command line and the
  value of the environment variable.
\<close>

fun cast_to :: "(string \<Rightarrow> int) \<Rightarrow> (string \<Rightarrow> bool) \<Rightarrow> flag_value \<Rightarrow> string \<Rightarrow> flag_value" where
  "cast_to ci cb (FInt _) t = FInt (ci t)"
| "cast_to ci cb (FBool _) t = FBool (cb t)"
| "cast_to ci cb (FString _) t = FString t"

definition setting ::
  "(string \<Rightarrow> int) \<Rightarrow> (string \<Rightarrow> bool) \<Rightarrow> flag_value \<Rightarrow> flag_value option \<Rightarrow> string \<Rightarrow> flag_value" where
  "setting ci cb d g e = (case g of Some x \<Rightarrow> x | None \<Rightarrow> if e = [] then d else cast_to ci cb d e)"

definition settings ::
  "(string \<Rightarrow> int) \<Rightarrow> (string \<Rightarrow> bool) \<Rightarrow> (string \<times> flag_value) list \<Rightarrow> (string \<Rightarrow> flag_value option) \<Rightarrow> environ \<Rightarrow>
   string \<Rightarrow> flag_value option" where
  "settings ci cb flags given env k =
     map_option (\<lambda>d. setting ci cb d (given k) (env (env_key EnvPrefix env_replacements k))) (map_of flags k)"

text \<open>The flag parser only accepts values of the type of the flag.\<close>

fun same_type :: "flag_value \<Rightarrow> flag_value \<Rightarrow> bool" where
  "same_type (FInt _) (FInt _) = True"
| "same_type (FString _) (FString _) = True"
| "same_type (FBool _) (FBool _) = True"
| "same_type _ _ = False"

definition well_typed :: "(string \<times> flag_value) list \<Rightarrow> (string \<Rightarrow> flag_value option) \<Rightarrow> bool" where
  "well_typed flags given \<longleftrightarrow> list_all (\<lambda>(k, d). case given k of None \<Rightarrow> True | Some x \<Rightarrow> same_type d x) flags"

section \<open>Facts\<close>

lemma well_typedD: "well_typed flags given \<Longrightarrow> map_of flags k = Some d \<Longrightarrow> given k = Some x \<Longrightarrow> same_type d x"
  by (force simp: well_typed_def list_all_iff dest: map_of_SomeD)

lemma well_typed_empty [simp]: "well_typed flags (\<lambda>_. None)"
  by (simp add: well_typed_def list_all_iff)

lemma notifierFlags_lower: "list_all lower_key (map fst notifierFlags)"
  by code_simp

lemma service_key_lower: "map_of notifierFlags k = Some d \<Longrightarrow> lower_key k"
  using notifierFlags_lower by (force simp: list_all_iff dest: map_of_SomeD)

lemma service_flags:
  "map_of notifierFlags FlagPort = Some (FInt DefaultServerPort)" "map_of notifierFlags FlagSQLite = Some (FString ''data/db'')"
  "map_of notifierFlags FlagDBHost = Some (FString [])" "map_of notifierFlags FlagDBUser = Some (FString [])"
  "map_of notifierFlags FlagDBPassword = Some (FString [])" "map_of notifierFlags FlagDBPort = Some (FInt DefaultDBPort)"
  "map_of notifierFlags FlagMemoryDB = Some (FBool False)" "map_of notifierFlags FlagRecreateSchema = Some (FBool False)"
  "map_of notifierFlags FlagLogLevel = Some (FString ''info'')" "map_of notifierFlags FlagLogFormat = Some (FString ''text'')"
  "map_of notifierFlags FlagPassword = Some (FString [])" "map_of notifierFlags FlagEventBroker = Some (FString [])"
  "map_of notifierFlags FlagNotificationFile = Some (FString [])"
  by (simp_all add: notifierFlags_def registerServiceFlags_def flag_defs FlagNotificationFile_def)

text \<open>Reading the configuration does not look at the flag of the notifications file.\<close>

lemma readServiceConfig_registered:
  "readServiceConfig (viper_of (settings ci cb notifierFlags given env)) =
   readServiceConfig (viper_of (settings ci cb registerServiceFlags given env))"
  by (simp add: readServiceConfig_def viper_of_def settings_def notifierFlags_def flag_defs FlagNotificationFile_def)

context viper_lib
begin

lemma registered:
  assumes "registerServiceFlags_bind V fs v = (Ok u, v')" and "list_all lower_key (map fst (fs_flags fs))" and "lower_key k"
  shows "automatic v' \<and> envprefix v' = EnvPrefix \<and> replacer v' = env_replacements \<and>
    binding v' k = (case map_of (fs_flags fs) k of Some d \<Rightarrow> Some (fs_owner fs, d) | None \<Rightarrow> binding v k)"
proof -
  obtain w where w: "vo_BindPFlags V fs v = (Ok (), w)" using bind_ok by blast
  with assms(1) have "v' = vo_AutomaticEnv V (vo_SetEnvKeyReplacer V env_replacements (vo_SetEnvPrefix V EnvPrefix w))"
    by (simp add: registerServiceFlags_bind_def)
  with bind_flags [OF w assms(2,3)] show ?thesis by (simp add: set_prefix set_replacer set_automatic)
qed

lemma register_ok: "\<exists>v'. registerServiceFlags_bind V fs v = (Ok (), v')"
  using bind_ok [of fs v] by (auto simp: registerServiceFlags_bind_def)

text \<open>Building the tree succeeds, and leaves every service key bound to the flags of the notifier.\<close>

lemma tree_built: "\<exists>rootc v. NewCheckoutCmd prog V v0 = (Ok rootc, v)"
proof -
  obtain v1 where o: "registerServiceFlags_bind V \<lparr>fs_owner = ''orders'', fs_flags = registerServiceFlags\<rparr> v0 = (Ok (), v1)"
    using register_ok by blast
  obtain v2 where "registerServiceFlags_bind V \<lparr>fs_owner = ''notifier'', fs_flags = notifierFlags\<rparr> v1 = (Ok (), v2)"
    using register_ok by blast
  with o show ?thesis
    by (simp add: NewCheckoutCmd_def NewRunCmd_def NewOrdersCmd_def NewNotifierCmd_def bindS_def Let_def)
qed

lemma tree:
  assumes "NewCheckoutCmd prog V v0 = (Ok rootc, v)"
  shows "\<exists>w. registerServiceFlags_bind V \<lparr>fs_owner = ''notifier'', fs_flags = notifierFlags\<rparr> w = (Ok (), v)"
    and "subcommand rootc [''run'', ''orders''] = Some c \<Longrightarrow> cc_Use c = ''orders'' \<and> cc_RunE c = (\<lambda>iv.
      NewOrdersCmd_RunE (pg_dec prog) (bi_Version (pg_build prog)) (pg_slot prog) (pg_env prog) (iv_viper iv))"
    and "subcommand rootc [''run'', ''notifier''] = Some c \<Longrightarrow> cc_Use c = ''notifier'' \<and> cc_RunE c = (\<lambda>iv.
      NewNotifierCmd_RunE (pg_dec prog) (bi_Version (pg_build prog)) (pg_slot prog) (pg_env prog) (iv_viper iv))"
  using assms
  by (auto simp: NewCheckoutCmd_def NewRunCmd_def NewOrdersCmd_def NewNotifierCmd_def bindS_eq_Ok Let_def)

lemma bound:
  assumes "NewCheckoutCmd prog V v0 = (Ok rootc, v)" and "map_of notifierFlags k = Some d"
  shows "automatic v" "envprefix v = EnvPrefix" "replacer v = env_replacements" "binding v k = Some (''notifier'', d)" "lower_key k"
  using tree(1) [OF assms(1)] registered [of "\<lparr>fs_owner = ''notifier'', fs_flags = notifierFlags\<rparr>" _ _ v k]
    notifierFlags_lower service_key_lower [OF assms(2)] assms(2)
  by auto

lemma resolve_bound:
  "resolve (Some (owner, d)) cl k e =
   Some (case cl (owner, k) of Some x \<Rightarrow> x | None \<Rightarrow> if e \<noteq> [] then FString e else d)"
  by (simp add: resolve_def split: option.split)

text \<open>A key that is bound reads as the setting of the flag it is bound to.\<close>

lemma getters:
  assumes "NewCheckoutCmd prog V v0 = (Ok rootc, v)" and "map_of notifierFlags k = Some d"
    and "\<And>k. cl (''notifier'', k) = given k" and "well_typed notifierFlags given"
  shows "d = FInt n \<Longrightarrow> vp_GetInt (vo_getters V v cl env) k = vp_GetInt (viper_of (settings cast_int cast_bool notifierFlags given env)) k"
    and "d = FString t \<Longrightarrow> vp_GetString (vo_getters V v cl env) k = vp_GetString (viper_of (settings cast_int cast_bool notifierFlags given env)) k"
    and "d = FBool b \<Longrightarrow> vp_GetBool (vo_getters V v cl env) k = vp_GetBool (viper_of (settings cast_int cast_bool notifierFlags given env)) k"
proof -
  note b = bound [OF assms(1,2)]
  let ?e = "env (env_key EnvPrefix env_replacements k)"
  let ?x = "case given k of Some x \<Rightarrow> x | None \<Rightarrow> if ?e \<noteq> [] then FString ?e else d"
  have r: "resolve (binding v k) cl k (env (env_key (envprefix v) (replacer v) k)) = Some ?x"
    by (simp add: b resolve_bound assms(3))
  note typed = well_typedD [OF assms(4,2)]
  show "vp_GetInt (vo_getters V v cl env) k = vp_GetInt (viper_of (settings cast_int cast_bool notifierFlags given env)) k" if "d = FInt n"
    using get_int [where env = env, OF b(1,5) r] typed that
    by (auto simp: viper_of_def settings_def setting_def assms(2) split: option.splits flag_value.splits)
  show "vp_GetBool (vo_getters V v cl env) k = vp_GetBool (viper_of (settings cast_int cast_bool notifierFlags given env)) k" if "d = FBool b"
    using get_bool [where env = env, OF b(1,5) r] typed that
    by (auto simp: viper_of_def settings_def setting_def assms(2) split: option.splits flag_value.splits)
  show "vp_GetString (vo_getters V v cl env) k = vp_GetString (viper_of (settings cast_int cast_bool notifierFlags given env)) k" if d: "d = FString t"
  proof -
    have "\<exists>t'. ?x = FString t'" using typed d by (cases "given k"; cases "the (given k)") auto
    then obtain t' where "?x = FString t'" ..
    with get_string [where env = env and cl = cl, OF b(1,5)] r d show ?thesis
      by (auto simp: viper_of_def settings_def setting_def assms(2) split: option.splits if_splits)
  qed
qed

lemma configuration:
  assumes "NewCheckoutCmd prog V v0 = (Ok rootc, v)"
    and "\<And>k. cl (''notifier'', k) = given k" and "well_typed notifierFlags given"
  shows "readServiceConfig (vo_getters V v cl env) = readServiceConfig (viper_of (settings cast_int cast_bool registerServiceFlags given env))"
proof -
  note reads =
    getters(1) [OF assms(1) service_flags(1) assms(2,3) refl] getters(2) [OF assms(1) service_flags(2) assms(2,3) refl]
    getters(2) [OF assms(1) service_flags(3) assms(2,3) refl] getters(2) [OF assms(1) service_flags(4) assms(2,3) refl]
    getters(2) [OF assms(1) service_flags(5) assms(2,3) refl] getters(1) [OF assms(1) service_flags(6) assms(2,3) refl]
    getters(3) [OF assms(1) service_flags(7) assms(2,3) refl] getters(3) [OF assms(1) service_flags(8) assms(2,3) refl]
    getters(2) [OF assms(1) service_flags(9) assms(2,3) refl] getters(2) [OF assms(1) service_flags(10) assms(2,3) refl]
    getters(2) [OF assms(1) service_flags(11) assms(2,3) refl] getters(2) [OF assms(1) service_flags(12) assms(2,3) refl]
  show ?thesis
    unfolding readServiceConfig_registered [symmetric] unfolding readServiceConfig_def reads ..
qed

end

text \<open>The run functions read the registry through the configuration only.\<close>

lemma NewOrdersCmd_RunE_cong:
  "readServiceConfig v = readServiceConfig w \<Longrightarrow>
   NewOrdersCmd_RunE dec version slot env v = NewOrdersCmd_RunE dec version slot env w"
  by (simp add: NewOrdersCmd_RunE_def)

lemma NewNotifierCmd_RunE_cong:
  "readServiceConfig v = readServiceConfig w \<Longrightarrow> vp_GetString v FlagNotificationFile = vp_GetString w FlagNotificationFile \<Longrightarrow>
   NewNotifierCmd_RunE dec version slot env v = NewNotifierCmd_RunE dec version slot env w"
  by (simp add: NewNotifierCmd_RunE_def)

section \<open>An instance of the registry\<close>

record vstate =
  vs_bound :: "(string \<times> string \<times> flag_value) list"
  vs_prefix :: string
  vs_replacer :: "(char \<times> char) list"
  vs_automatic :: bool

definition cast_int10 :: "string \<Rightarrow> int" where
  "cast_int10 t = (case parse_int t of Some n \<Rightarrow> n | None \<Rightarrow> 0)"

definition cast_bool10 :: "string \<Rightarrow> bool" where
  "cast_bool10 t \<longleftrightarrow> t \<in> set [''1'', ''t'', ''T'', ''true'', ''TRUE'', ''True'']"

definition vstate_getters :: "vstate \<Rightarrow> command_line \<Rightarrow> environ \<Rightarrow> viper" where
  "vstate_getters v cl env =
     (let get = (\<lambda>k. resolve (map_of (vs_bound v) k) cl k
             (if vs_automatic v then env (env_key (vs_prefix v) (vs_replacer v) k) else []))
      in \<lparr>vp_GetInt = (\<lambda>k. case get k of Some (FInt n) \<Rightarrow> n | Some (FString t) \<Rightarrow> cast_int10 t | Some (FBool b) \<Rightarrow> of_bool b | None \<Rightarrow> 0),
          vp_GetString = (\<lambda>k. case get k of Some (FString t) \<Rightarrow> t | _ \<Rightarrow> []),
          vp_GetBool = (\<lambda>k. case get k of Some (FBool b) \<Rightarrow> b | Some (FString t) \<Rightarrow> cast_bool10 t | Some (FInt n) \<Rightarrow> n \<noteq> 0 | None \<Rightarrow> False)\<rparr>)"

definition vstate_ops :: "vstate viper_ops" where
  "vstate_ops =
     \<lparr>vo_BindPFlags = (\<lambda>fs v. (Ok (), v\<lparr>vs_bound := map (\<lambda>(k, d). (k, fs_owner fs, d)) (fs_flags fs) @ vs_bound v\<rparr>)),
      vo_SetEnvPrefix = (\<lambda>p v. v\<lparr>vs_prefix := p\<rparr>), vo_SetEnvKeyReplacer = (\<lambda>r v. v\<lparr>vs_replacer := r\<rparr>),
      vo_AutomaticEnv = (\<lambda>v. v\<lparr>vs_automatic := True\<rparr>), vo_getters = vstate_getters\<rparr>"

lemma map_of_bound:
  "map_of (map (\<lambda>(k, d). (k, owner, d)) fs @ old) k = (case map_of fs k of Some d \<Rightarrow> Some (owner, d) | None \<Rightarrow> map_of old k)"
  by (induction fs) auto

interpretation registry: viper_lib vstate_ops "\<lambda>v. map_of (vs_bound v)" vs_prefix vs_replacer vs_automatic cast_int10 cast_bool10
proof
  show "vo_BindPFlags vstate_ops fs v = (Ok (), v') \<Longrightarrow> list_all lower_key (map fst (fs_flags fs)) \<Longrightarrow> lower_key k \<Longrightarrow>
      map_of (vs_bound v') k = (case map_of (fs_flags fs) k of Some d \<Rightarrow> Some (fs_owner fs, d) | None \<Rightarrow> map_of (vs_bound v) k)" for fs v v' k
    by (auto simp: vstate_ops_def map_of_bound simp del: map_of_append)
  show "cast_int10 (print_int n) = n" if "0 \<le> n" "n < 2 ^ 63" for n
    using that by (simp add: cast_int10_def parse_print_int)
qed (auto simp: vstate_ops_def vstate_getters_def Let_def split: flag_value.split)

section \<open>Theorems\<close>

text \<open>C22: The flags given to \<^verbatim>\<open>run orders\<close> have no effect: whatever flags were given, the command runs with the
  settings of the environment and the defaults. Both service commands bind the same keys of the process-wide
  registry while the command tree is built, and the notifier's binding, made last, wins.\<close>

theorem orders_ignores_flags:
  assumes "viper_lib V binding envprefix replacer automatic ci cb" and "NewCheckoutCmd prog V v0 = (Ok rootc, v)"
    and "subcommand rootc [''run'', ''orders''] = Some c" and "select rootc argv = Selected c given"
  shows "Execute prog V v select rootc argv s =
    NewOrdersCmd_RunE (pg_dec prog) (bi_Version (pg_build prog)) (pg_slot prog) (pg_env prog)
      (viper_of (settings ci cb registerServiceFlags (\<lambda>_. None) (ne_getenv (pg_env prog)))) s"
proof -
  note c = viper_lib.tree(2) [OF assms(1,2,3)]
  have cfg: "readServiceConfig (vo_getters V v (given_to ''orders'' given) (ne_getenv (pg_env prog))) =
      readServiceConfig (viper_of (settings ci cb registerServiceFlags (\<lambda>_. None) (ne_getenv (pg_env prog))))"
    by (rule viper_lib.configuration [OF assms(1,2)]) (simp_all add: given_to_def)
  show ?thesis by (simp add: Execute_def assms(4) c NewOrdersCmd_RunE_cong [OF cfg])
qed

text \<open>
  The documented start \<^verbatim>\<open>run orders --memory-db --password 1234\<close> with an empty environment: it
  opens the SQLite file and accepts the empty password.
\<close>

definition demo_program :: "(dec10, mem) program" where
  "demo_program =
     \<lparr>pg_dec = dec10, pg_build = version_init ''0.0.0-dev'' ''unknown'' None, pg_slot = (\<lambda>_. new_runner, \<lambda>_ s. s),
      pg_env = demo_env, pg_Help = (\<lambda>_. returnS ()), pg_Println = (\<lambda>_ s. s), pg_parse = (\<lambda>_. Inl (ErrExt ''parse'')),
      pg_http = (\<lambda>_ _ s. (Inl (ErrExt ''timeout''), s))\<rparr>"

definition demo_select :: "string list \<Rightarrow> (string \<Rightarrow> flag_value option) \<Rightarrow> 's command \<Rightarrow> string list \<Rightarrow> 's selection" where
  "demo_select path given c argv =
     (case subcommand c path of Some d \<Rightarrow> Selected d given | None \<Rightarrow> UsageError (ErrExt ''unknown command''))"

definition demo_tree :: "mem command res \<times> vstate" where
  "demo_tree = NewCheckoutCmd demo_program vstate_ops \<lparr>vs_bound = [], vs_prefix = [], vs_replacer = [], vs_automatic = False\<rparr>"

lemma demo_program_simps:
  "pg_dec demo_program = dec10" "bi_Version (pg_build demo_program) = ''0.0.0-dev''" "pg_env demo_program = demo_env"
  "pg_slot demo_program = (\<lambda>_. new_runner, \<lambda>_ s. s)"
  by (simp_all add: demo_program_def version_init_def)

lemma demo_select_Selected: "subcommand c path = Some d \<Longrightarrow> demo_select path given c argv = Selected d given"
  by (simp add: demo_select_def)

lemma demo_tree_Ok:
  obtains rootc v where "demo_tree = (Ok rootc, v)" and "\<exists>c. subcommand rootc [''run'', ''orders''] = Some c"
    and "\<exists>c. subcommand rootc [''run'', ''notifier''] = Some c"
proof -
  obtain rootc v where "demo_tree = (Ok rootc, v)"
    unfolding demo_tree_def using registry.tree_built by metis
  moreover from this have "\<exists>c. subcommand rootc [''run'', ''orders''] = Some c" "\<exists>c. subcommand rootc [''run'', ''notifier''] = Some c"
    by (auto simp: demo_tree_def NewCheckoutCmd_def NewRunCmd_def NewOrdersCmd_def NewNotifierCmd_def bindS_eq_Ok Let_def)
  ultimately show thesis using that by blast
qed

abbreviation "demo_settings flags given \<equiv> viper_of (settings cast_int10 cast_bool10 flags given (ne_getenv demo_env))"

theorem orders_ignores_flags_witness:
  "(\<exists>rootc v. demo_tree = (Ok rootc, v) \<and>
      Execute demo_program vstate_ops v
        (demo_select [''run'', ''orders''] [FlagMemoryDB \<mapsto> FBool True, FlagPassword \<mapsto> FString ''1234''])
        rootc [''run'', ''orders'', ''--memory-db'', ''--password'', ''1234''] (mem_with demo_rows) =
      NewOrdersCmd_RunE dec10 ''0.0.0-dev'' (\<lambda>_. new_runner, \<lambda>_ s. s) demo_env
        (demo_settings registerServiceFlags (\<lambda>_. None)) (mem_with demo_rows)) \<and>
   sc_authPassword (readServiceConfig (demo_settings registerServiceFlags (\<lambda>_. None))) = [] \<and>
   \<not> sc_useMemoryDB (readServiceConfig (demo_settings registerServiceFlags (\<lambda>_. None)))"
proof -
  obtain rootc v c where tree: "demo_tree = (Ok rootc, v)" and c: "subcommand rootc [''run'', ''orders''] = Some c"
    using demo_tree_Ok by metis
  have "sc_authPassword (readServiceConfig (demo_settings registerServiceFlags (\<lambda>_. None))) = []"
      "\<not> sc_useMemoryDB (readServiceConfig (demo_settings registerServiceFlags (\<lambda>_. None)))"
    by code_simp+
  with tree orders_ignores_flags [where select = "demo_select [''run'', ''orders''] g" for g,
      OF registry.viper_lib_axioms tree [unfolded demo_tree_def] c demo_select_Selected [OF c]]
  show ?thesis unfolding demo_program_simps by blast
qed

text \<open>C23: The notifier command runs with the expected settings: for every flag the value given on the command
  line, else the value of its environment variable (the prefix \<^verbatim>\<open>CHECKOUT_\<close> and the flag's name in upper case with
  underscores) when it is not empty, else the default.\<close>

theorem notifier_settings:
  assumes "viper_lib V binding envprefix replacer automatic ci cb" and "NewCheckoutCmd prog V v0 = (Ok rootc, v)"
    and "subcommand rootc [''run'', ''notifier''] = Some c" and "select rootc argv = Selected c given"
    and "well_typed notifierFlags given"
  shows "Execute prog V v select rootc argv s =
    NewNotifierCmd_RunE (pg_dec prog) (bi_Version (pg_build prog)) (pg_slot prog) (pg_env prog)
      (viper_of (settings ci cb notifierFlags given (ne_getenv (pg_env prog)))) s"
proof -
  let ?cl = "given_to ''notifier'' given" and ?env = "ne_getenv (pg_env prog)"
  note c = viper_lib.tree(3) [OF assms(1,2,3)]
  have cl: "?cl (''notifier'', k) = given k" for k by (simp add: given_to_def)
  have cfg: "readServiceConfig (vo_getters V v ?cl ?env) = readServiceConfig (viper_of (settings ci cb notifierFlags given ?env))"
    using viper_lib.configuration [OF assms(1,2) cl assms(5)] by (simp add: readServiceConfig_registered)
  have sink: "vp_GetString (vo_getters V v ?cl ?env) FlagNotificationFile =
      vp_GetString (viper_of (settings ci cb notifierFlags given ?env)) FlagNotificationFile"
    by (rule viper_lib.getters(2) [OF assms(1,2) service_flags(13) cl assms(5) refl])
  show ?thesis by (simp add: Execute_def assms(4) c NewNotifierCmd_RunE_cong [OF cfg sink])
qed

theorem notifier_settings_witness:
  "(\<exists>rootc v. demo_tree = (Ok rootc, v) \<and>
      Execute demo_program vstate_ops v (demo_select [''run'', ''notifier''] [FlagPort \<mapsto> FInt 9000])
        rootc [''run'', ''notifier'', ''--port=9000''] (mem_with demo_rows) =
      NewNotifierCmd_RunE dec10 ''0.0.0-dev'' (\<lambda>_. new_runner, \<lambda>_ s. s) demo_env
        (demo_settings notifierFlags [FlagPort \<mapsto> FInt 9000]) (mem_with demo_rows)) \<and>
   sc_port (readServiceConfig (demo_settings notifierFlags [FlagPort \<mapsto> FInt 9000])) = 9000"
proof -
  obtain rootc v c where tree: "demo_tree = (Ok rootc, v)" and c: "subcommand rootc [''run'', ''notifier''] = Some c"
    using demo_tree_Ok by metis
  have "sc_port (readServiceConfig (demo_settings notifierFlags [FlagPort \<mapsto> FInt 9000])) = 9000"
      and w: "well_typed notifierFlags [FlagPort \<mapsto> FInt 9000]"
    by code_simp+
  with tree notifier_settings [where select = "demo_select [''run'', ''notifier''] g" for g,
      OF registry.viper_lib_axioms tree [unfolded demo_tree_def] c demo_select_Selected [OF c] w]
  show ?thesis unfolding demo_program_simps by blast
qed

end
