(* ===== verification/Stack.thy ===== *)
theory Stack
  imports Commands
begin

text \<open>
  The stack of containers the integration tests run against (\<^verbatim>\<open>integration/stack\<close>): the network,
  PostgreSQL, Kafka with its topics, and one container per service, with the configuration each
  service is started with; the clean-up the test registers; the test data. The container library,
  the broker's administration client and the random generator are parameters.
\<close>

section \<open>Constants\<close>

definition TestNetworkAlias :: string where "TestNetworkAlias = ''checkout-app''"
definition TestDbName :: string where "TestDbName = ''checkout''"
definition TestUsername :: string where "TestUsername = ''checkout''"
definition TestDBPassword :: string where "TestDBPassword = ''not-a-real-db-passwd''"
definition TestAuthPassword :: string where "TestAuthPassword = ''not-a-real-auth-passwd''"
definition TestHTTPPort :: string where "TestHTTPPort = ''8000/tcp''"
definition TestPostgresPort :: string where "TestPostgresPort = ''5432/tcp''"
definition TestKafkaAlias :: string where "TestKafkaAlias = ''kafka''"
definition TestKafkaInternalPort :: string where "TestKafkaInternalPort = ''9092''"
definition TestKafkaImage :: string where "TestKafkaImage = ''confluentinc/confluent-local:7.5.0''"

lemmas stack_constants = TestNetworkAlias_def TestDbName_def TestUsername_def TestDBPassword_def TestAuthPassword_def
  TestKafkaAlias_def TestKafkaInternalPort_def DBName_def

section \<open>The container library\<close>

text \<open>Start-up time-outs are in seconds.\<close>

datatype wait_for =
    ForHTTP string string nat
  | ForLog string nat
  | ForListeningPort string nat
  | ForAll "wait_for list"

datatype image = Image string | FromDockerfile string string string string "(string \<times> string) list" bool

record container_request =
  cr_Image :: image
  cr_ExposedPorts :: "string list"
  cr_Env :: "string \<Rightarrow> string option"
  cr_Cmd :: "string list"
  cr_Networks :: "string list"
  cr_NetworkAliases :: "string \<Rightarrow> string list option"
  cr_WaitingFor :: wait_for
  cr_LogConsumer :: "string option"

record kafka_options =
  ko_network :: string
  ko_aliases :: "string list"
  ko_hostname :: string
  ko_env :: "string \<Rightarrow> string option"
  ko_log_consumer :: "string option"

record topic_request =
  tr_Topic :: string
  tr_NumPartitions :: int
  tr_ReplicationFactor :: int

text \<open>The answers of the topic creation are given with the error of their code. Errors of a removal are ignored by the callers.\<close>

record ('s, 'c) docker_ops =
  dk_NewNetwork :: "('s, string) io"
  dk_RemoveNetwork :: "string \<Rightarrow> 's \<Rightarrow> 's"
  dk_Container :: "container_request \<Rightarrow> ('s, 'c) io"
  dk_Kafka :: "string \<Rightarrow> kafka_options \<Rightarrow> ('s, 'c) io"
  dk_Terminate :: "'c \<Rightarrow> 's \<Rightarrow> 's"
  dk_Host :: "'c \<Rightarrow> ('s, string) io"
  dk_MappedPort :: "'c \<Rightarrow> string \<Rightarrow> ('s, string) io"
  dk_Brokers :: "'c \<Rightarrow> ('s, string list) io"
  dk_NewDockerClient :: "('s, unit) io"
  dk_ImageInspect :: "string \<Rightarrow> ('s, string) io"
  dk_AdminClient :: "string list \<Rightarrow> ('s, unit) io"
  dk_AdminClose :: "'s \<Rightarrow> 's"
  dk_CreateTopics :: "topic_request list \<Rightarrow> ('s, (string \<times> error option) list) io"
  dk_Getenv :: "string \<Rightarrow> string"
  dk_Quote :: "string \<Rightarrow> string"

section \<open>The test\<close>

text \<open>
  A test: the world it runs in, and what its clean-up functions release, the last registered one
  first. \<^verbatim>\<open>t.Fatal\<close> ends the test and is a failed call; the clean-up functions run in either case.
\<close>

datatype 'c resource = Network string | Container 'c

record ('s, 'c) test =
  t_world :: 's
  t_cleanups :: "'c resource list"

definition in_world :: "('s, 'a) io \<Rightarrow> (('s, 'c) test, 'a) io" where
  "in_world m t = (case m (t_world t) of (r, w) \<Rightarrow> (r, t\<lparr>t_world := w\<rparr>))"

definition Cleanup :: "'c resource \<Rightarrow> (('s, 'c) test, unit) io" where
  "Cleanup r t = (Ok (), t\<lparr>t_cleanups := r # t_cleanups t\<rparr>)"

definition Fatalf :: "string \<Rightarrow> ('s, 'a) io \<Rightarrow> ('s, 'a) io" where
  "Fatalf msg m = wrapS (\<lambda>e. Wrap msg e []) m"

definition release :: "('s, 'c) docker_ops \<Rightarrow> 'c resource \<Rightarrow> 's \<Rightarrow> 's" where
  "release D r = (case r of Network n \<Rightarrow> dk_RemoveNetwork D n | Container c \<Rightarrow> dk_Terminate D c)"

definition run_cleanups :: "('s, 'c) docker_ops \<Rightarrow> ('s, 'c) test \<Rightarrow> 's" where
  "run_cleanups D t = foldl (\<lambda>s r. release D r s) (t_world t) (t_cleanups t)"

text \<open>\<^verbatim>\<open>testingLogConsumer\<close>: a line of a container's output, without its line end, with the stream and the service.\<close>

definition TrimRight :: "string \<Rightarrow> string" where
  "TrimRight s = rev (dropWhile (\<lambda>c. c \<in> set [CHR 0x0D, CHR 0x0A]) (rev s))"

definition testingLogConsumer_Accept :: "string \<Rightarrow> string \<Rightarrow> string \<Rightarrow> string" where
  "testingLogConsumer_Accept service logType content =
     ''['' @ logType @ ''] [APP '' @ service @ ''] '' @ TrimRight content"

section \<open>Containers\<close>

definition CreateNetwork :: "('s, 'c) docker_ops \<Rightarrow> (('s, 'c) test, string) io" where
  "CreateNetwork D =
     bindS (Fatalf ''failed to create network: '' (in_world (dk_NewNetwork D))) (\<lambda>net.
     bindS (Cleanup (Network net)) (\<lambda>_. returnS net))"

record 'c pg_container =
  pgc_ctr :: 'c
  pgc_network :: string
  pgc_alias :: string
  pgc_user :: string
  pgc_pass :: string
  pgc_db :: string

definition postgres_request :: "string \<Rightarrow> bool \<Rightarrow> container_request" where
  "postgres_request netName withLogger =
     \<lparr>cr_Image = Image ''postgres:17.3'', cr_ExposedPorts = [TestPostgresPort],
      cr_Env = [''POSTGRES_DB'' \<mapsto> TestDbName, ''POSTGRES_USER'' \<mapsto> TestUsername, ''POSTGRES_PASSWORD'' \<mapsto> TestDBPassword],
      cr_Cmd = [''postgres'', ''-c'', ''log_statement=all'', ''-c'', ''log_destination=stderr''],
      cr_Networks = [netName], cr_NetworkAliases = [netName \<mapsto> [TestNetworkAlias]],
      cr_WaitingFor = ForAll [ForLog ''database system is ready to accept connections'' 2, ForListeningPort TestPostgresPort 60],
      cr_LogConsumer = (if withLogger then Some ''postgres'' else None)\<rparr>"

definition StartPostgres :: "('s, 'c) docker_ops \<Rightarrow> string \<Rightarrow> bool \<Rightarrow> (('s, 'c) test, 'c pg_container) io" where
  "StartPostgres D netName withLogger =
     bindS (Fatalf ''start postgres: '' (in_world (dk_Container D (postgres_request netName withLogger)))) (\<lambda>ctr.
     bindS (Cleanup (Container ctr)) (\<lambda>_.
     returnS \<lparr>pgc_ctr = ctr, pgc_network = netName, pgc_alias = TestNetworkAlias, pgc_user = TestUsername,
       pgc_pass = TestDBPassword, pgc_db = TestDbName\<rparr>))"

record 'c kafka_container =
  kc_ctr :: 'c
  kc_network :: string
  kc_alias :: string
  kc_brokers :: "string list"

definition kafka_opts :: "string \<Rightarrow> bool \<Rightarrow> kafka_options" where
  "kafka_opts netName withLogger =
     \<lparr>ko_network = netName, ko_aliases = [TestKafkaAlias], ko_hostname = TestKafkaAlias,
      ko_env = [''KAFKA_AUTO_CREATE_TOPICS_ENABLE'' \<mapsto> ''true''],
      ko_log_consumer = (if withLogger then Some ''kafka'' else None)\<rparr>"

definition StartKafka :: "('s, 'c) docker_ops \<Rightarrow> string \<Rightarrow> bool \<Rightarrow> (('s, 'c) test, 'c kafka_container) io" where
  "StartKafka D netName withLogger =
     bindS (Fatalf ''start kafka: '' (in_world (dk_Kafka D TestKafkaImage (kafka_opts netName withLogger)))) (\<lambda>ctr.
     bindS (Cleanup (Container ctr)) (\<lambda>_.
     bindS (Fatalf ''resolve kafka brokers: '' (in_world (dk_Brokers D ctr))) (\<lambda>brokers.
     returnS \<lparr>kc_ctr = ctr, kc_network = netName, kc_alias = TestKafkaAlias, kc_brokers = brokers\<rparr>)))"

definition Brokers :: "'c kafka_container \<Rightarrow> string list" where
  "Brokers k = kc_brokers k"

text \<open>Indexing an empty slice panics.\<close>

definition Broker :: "'c kafka_container \<Rightarrow> string res" where
  "Broker k = (case kc_brokers k of [] \<Rightarrow> Panic | b # _ \<Rightarrow> Ok b)"

definition InternalBroker :: "'c kafka_container \<Rightarrow> string" where
  "InternalBroker k = kc_alias k @ '':'' @ TestKafkaInternalPort"

definition TopicAlreadyExists :: error where
  "TopicAlreadyExists = ErrExt ''TOPIC_ALREADY_EXISTS''"

fun check_topics :: "(string \<Rightarrow> string) \<Rightarrow> (string \<times> error option) list \<Rightarrow> unit res" where
  "check_topics q [] = Ok ()"
| "check_topics q ((_, None) # cts) = check_topics q cts"
| "check_topics q ((topic, Some e) # cts) =
     (if errors_is e TopicAlreadyExists then check_topics q cts
      else Fail (Wrap (''create topic '' @ q topic @ '': '') e []))"

definition topic_requests :: "int \<Rightarrow> string list \<Rightarrow> topic_request list" where
  "topic_requests partitions topics =
     map (\<lambda>name. \<lparr>tr_Topic = name, tr_NumPartitions = partitions, tr_ReplicationFactor = 1\<rparr>) topics"

text \<open>The client is closed on every way out once it was created.\<close>

definition CreateTopics ::
  "('s, 'c) docker_ops \<Rightarrow> 'c kafka_container \<Rightarrow> int \<Rightarrow> string list \<Rightarrow> (('s, 'c) test, unit) io" where
  "CreateTopics D k partitions topics =
     bindS (Fatalf ''create topics: new admin client: '' (in_world (dk_AdminClient D (Brokers k)))) (\<lambda>_.
     in_world (\<lambda>s. case bindS (Fatalf ''create topics: '' (dk_CreateTopics D (topic_requests partitions topics)))
                        (\<lambda>cts. liftS (check_topics (dk_Quote D) cts)) s
                   of (r, s') \<Rightarrow> (r, dk_AdminClose D s')))"

record 'c app_container =
  ac_ctr :: 'c
  ac_host :: string
  ac_mappedPort :: string
  ac_authPsswd :: string

definition app_url :: "'c app_container \<Rightarrow> string" where
  "app_url a = ''http://'' @ ac_host a @ '':'' @ ac_mappedPort a"

text \<open>The environment of a service container; the extra entries are written last.\<close>

definition service_env :: "'c pg_container \<Rightarrow> (string \<Rightarrow> string option) \<Rightarrow> bool \<Rightarrow> string \<Rightarrow> string option" where
  "service_env pg extraEnv debugLogs =
     [''CHECKOUT_DB_HOST'' \<mapsto> pgc_alias pg, ''CHECKOUT_DB_PORT'' \<mapsto> ''5432'', ''CHECKOUT_DB_USER'' \<mapsto> pgc_user pg,
      ''CHECKOUT_DB_PASSWORD'' \<mapsto> pgc_pass pg, ''CHECKOUT_LOG_LEVEL'' \<mapsto> (if debugLogs then ''debug'' else ''info''),
      ''CHECKOUT_LOG_FORMAT'' \<mapsto> ''text'', ''CHECKOUT_PASSWORD'' \<mapsto> TestAuthPassword] ++ extraEnv"

definition build_image :: "('s, 'c) docker_ops \<Rightarrow> image" where
  "build_image D =
     FromDockerfile ''..'' ''Dockerfile'' ''checkout'' ''latest'' [(''VERSION'', dk_Getenv D ''VERSION_TAG'' @ ''dev'')] True"

definition createServiceContainer ::
  "('s, 'c) docker_ops \<Rightarrow> string \<Rightarrow> 'c pg_container \<Rightarrow> string \<Rightarrow> string list \<Rightarrow> (string \<Rightarrow> string option) \<Rightarrow> bool \<Rightarrow> bool \<Rightarrow>
   (('s, 'c) test, 'c app_container) io" where
  "createServiceContainer D net pg service cmd extraEnv withLogger debugLogs =
     bindS (in_world (dk_NewDockerClient D)) (\<lambda>_.
     bindS (\<lambda>t. case in_world (dk_ImageInspect D ''checkout:latest'') t of
                  (Ok img, t') \<Rightarrow> (Ok (Image img), t') | (Fail _, t') \<Rightarrow> (Ok (build_image D), t') | (Panic, t') \<Rightarrow> (Panic, t'))
       (\<lambda>img.
     bindS (Fatalf (''start '' @ service @ '': '') (in_world (dk_Container D
        \<lparr>cr_Image = img, cr_ExposedPorts = [TestHTTPPort], cr_Env = service_env pg extraEnv debugLogs, cr_Cmd = cmd,
         cr_Networks = [net], cr_NetworkAliases = Map.empty, cr_WaitingFor = ForHTTP ''/health'' TestHTTPPort 60,
         cr_LogConsumer = (if withLogger then Some service else None)\<rparr>))) (\<lambda>ctr.
     bindS (Cleanup (Container ctr)) (\<lambda>_.
     bindS (Fatalf (''resolve '' @ service @ '' host: '') (in_world (dk_Host D ctr))) (\<lambda>host.
     bindS (Fatalf (''resolve '' @ service @ '' mapped port: '') (in_world (dk_MappedPort D ctr TestHTTPPort))) (\<lambda>mp.
     returnS \<lparr>ac_ctr = ctr, ac_host = host, ac_mappedPort = mp, ac_authPsswd = TestAuthPassword\<rparr>))))))"

section \<open>The stack\<close>

record 'c stack =
  st_network :: string
  st_database :: "'c pg_container"
  st_kafka :: "'c kafka_container option"
  st_app :: "'c app_container"
  st_notifier :: "'c app_container option"

record stack_opts =
  op_DbLogs :: bool
  op_AppLogs :: bool
  op_Debug :: bool
  op_EnableEvents :: bool

definition broker_env :: "'c kafka_container option \<Rightarrow> string \<Rightarrow> string option" where
  "broker_env k = (case k of None \<Rightarrow> Map.empty | Some kc \<Rightarrow> [''CHECKOUT_EVENT_BROKER'' \<mapsto> InternalBroker kc])"

definition start_stack :: "('s, 'c) docker_ops \<Rightarrow> stack_opts \<Rightarrow> string \<Rightarrow> (('s, 'c) test, 'c stack) io" where
  "start_stack D opts net =
     bindS (StartPostgres D net (op_DbLogs opts)) (\<lambda>pg.
     bindS (if op_EnableEvents opts
            then bindS (StartKafka D net (op_AppLogs opts)) (\<lambda>k.
                 bindS (CreateTopics D k 1 [Orders_TopicOrderCreated]) (\<lambda>_. returnS (Some k)))
            else returnS None) (\<lambda>kafka.
     bindS (createServiceContainer D net pg ''orders'' [''run'', ''orders''] (broker_env kafka) (op_AppLogs opts) (op_Debug opts)) (\<lambda>app.
     bindS (if op_EnableEvents opts
            then bindS (createServiceContainer D net pg ''notifier'' [''run'', ''notifier''] (broker_env kafka)
                   (op_AppLogs opts) (op_Debug opts)) (\<lambda>n. returnS (Some n))
            else returnS None) (\<lambda>notifier.
     returnS \<lparr>st_network = net, st_database = pg, st_kafka = kafka, st_app = app, st_notifier = notifier\<rparr>))))"

definition MakeStack :: "('s, 'c) docker_ops \<Rightarrow> stack_opts \<Rightarrow> (('s, 'c) test, 'c stack) io" where
  "MakeStack D opts = bindS (CreateNetwork D) (start_stack D opts)"

definition AppURL :: "'c stack \<Rightarrow> string" where
  "AppURL s = app_url (st_app s)"

text \<open>Without events the notifier is a nil pointer.\<close>

definition NotifierURL :: "'c stack \<Rightarrow> string res" where
  "NotifierURL s = (case st_notifier s of None \<Rightarrow> Panic | Some n \<Rightarrow> Ok (app_url n))"

definition AuthPsswd :: "'c stack \<Rightarrow> string" where
  "AuthPsswd s = ac_authPsswd (st_app s)"

definition MakeAuthClient :: "(string \<Rightarrow> error + url) \<Rightarrow> 's transport \<Rightarrow> string \<Rightarrow> string \<Rightarrow> error + 's client" where
  "MakeAuthClient parse http baseURL password =
     map_sum id (AddAuthorizationHeader password) (Client_New parse http baseURL [])"

section \<open>Test data\<close>

definition sku_charset :: string where
  "sku_charset = ''ABCDEFGHIJKLMNOPQRSTUVWXYZ0123456789''"

text \<open>The draws of the random generator are arguments: the \<open>i\<close>-th letter, the price in hundredths, the quantity.\<close>

definition randomSKU :: "(nat \<Rightarrow> nat) \<Rightarrow> string" where
  "randomSKU draw = map (\<lambda>i. sku_charset ! draw i) [0..<6]"

definition MakeRandomizedTestItem ::
  "'d decimal_ops \<Rightarrow> ('d \<Rightarrow> 'd \<Rightarrow> 'd) \<Rightarrow> (nat \<Rightarrow> nat) \<Rightarrow> int \<Rightarrow> int \<Rightarrow> int \<Rightarrow> 'd item" where
  "MakeRandomizedTestItem dec quot draw cents quantity ident =
     (let sku = randomSKU draw in
      \<lparr>i_ID = ident, i_SKU = sku, i_Name = ''item-'' @ map lower_ascii sku @ ''-'' @ print_int ident,
       i_Price = quot (d_of_int dec cents) (d_of_int dec 100), i_InventoryQuantity = max 1 quantity\<rparr>)"

section \<open>Clean-up\<close>

text \<open>
  The laws of the container library: what is running. A network or container whose creation
  succeeded is running; a failed start can leave the container behind; queries start nothing, and
  a release removes what it names.
\<close>

locale docker_lib =
  fixes D :: "('s, 'c) docker_ops" and running :: "'s \<Rightarrow> 'c resource set"
  assumes network_ok: "dk_NewNetwork D s = (Ok n, s') \<Longrightarrow> running s' = insert (Network n) (running s)"
    and network_failed: "dk_NewNetwork D s = (rn, s') \<Longrightarrow> \<not> is_ok rn \<Longrightarrow> running s' = running s"
    and container_ok: "dk_Container D q s = (Ok c, s') \<Longrightarrow> running s' = insert (Container c) (running s)"
    and container_failed: "dk_Container D q s = (rc, s') \<Longrightarrow> \<not> is_ok rc \<Longrightarrow> \<exists>c. running s' \<subseteq> insert (Container c) (running s)"
    and kafka_ok: "dk_Kafka D img ko s = (Ok c, s') \<Longrightarrow> running s' = insert (Container c) (running s)"
    and kafka_failed: "dk_Kafka D img ko s = (rc, s') \<Longrightarrow> \<not> is_ok rc \<Longrightarrow> \<exists>c. running s' \<subseteq> insert (Container c) (running s)"
    and queries: "running (snd (dk_Host D c s)) = running s" "running (snd (dk_MappedPort D c p s)) = running s"
      "running (snd (dk_Brokers D c s)) = running s" "running (snd (dk_NewDockerClient D s)) = running s"
      "running (snd (dk_ImageInspect D i s)) = running s" "running (snd (dk_AdminClient D bs s)) = running s"
      "running (snd (dk_CreateTopics D trs s)) = running s" "running (dk_AdminClose D s) = running s"
    and releases: "running (release D x s) = running s - {x}"

text \<open>
  Relative to what was running before the test: everything the test started is registered, and
  the network is released last. After a failure one container can be missing from the register.
\<close>

definition registered_up_to ::
  "('s \<Rightarrow> 'c resource set) \<Rightarrow> 'c resource set \<Rightarrow> 'c resource set \<Rightarrow> ('s, 'c) test \<Rightarrow> bool" where
  "registered_up_to running base missing t \<longleftrightarrow>
     running (t_world t) \<subseteq> base \<union> missing \<union> set (t_cleanups t) \<and>
     (\<exists>n cs. t_cleanups t = map Container cs @ [Network n])"

definition tidy_result :: "('s \<Rightarrow> 'c resource set) \<Rightarrow> 'c resource set \<Rightarrow> 'a res \<Rightarrow> ('s, 'c) test \<Rightarrow> bool" where
  "tidy_result running base r t \<longleftrightarrow>
     (if is_ok r then registered_up_to running base {} t else \<exists>c. registered_up_to running base {Container c} t)"

definition tidy :: "('s \<Rightarrow> 'c resource set) \<Rightarrow> 'c resource set \<Rightarrow> (('s, 'c) test, 'a) io \<Rightarrow> bool" where
  "tidy running base m \<longleftrightarrow>
     (\<forall>t. registered_up_to running base {} t \<longrightarrow> tidy_result running base (fst (m t)) (snd (m t)))"

named_theorems tidy_intros \<open>composition rules for the clean-up invariant\<close>

lemma registered_result: "registered_up_to running base {} t \<Longrightarrow> tidy_result running base r t"
  by (auto simp: registered_up_to_def tidy_result_def)

lemma tidy_returnS [tidy_intros]: "tidy running base (returnS a)"
  by (simp add: tidy_def registered_result)

lemma tidy_bindS [tidy_intros]:
  assumes "tidy running base m" and "\<And>a. tidy running base (f a)"
  shows "tidy running base (bindS m f)"
  unfolding tidy_def
proof (intro allI impI)
  fix t assume "registered_up_to running base {} t"
  moreover obtain r t' where m: "m t = (r, t')" by fastforce
  ultimately have "tidy_result running base r t'" using assms(1) unfolding tidy_def by (metis fst_conv snd_conv)
  with m assms(2) show "tidy_result running base (fst (bindS m f t)) (snd (bindS m f t))"
    by (cases r) (simp_all add: bindS_def tidy_def tidy_result_def)
qed

lemma is_ok_wrapR [simp]: "is_ok (wrapR w r) = is_ok r"
  by (cases r) simp_all

lemma tidy_Fatalf [tidy_intros]: "tidy running base m \<Longrightarrow> tidy running base (Fatalf msg m)"
  by (simp add: tidy_def tidy_result_def Fatalf_def wrapS_def case_prod_beta)

lemma tidy_if [tidy_intros]: "tidy running base m \<Longrightarrow> tidy running base k \<Longrightarrow> tidy running base (if b then m else k)"
  by simp

lemma tidy_query [tidy_intros]:
  assumes "\<And>s. running (snd (m s)) = running s"
  shows "tidy running base (in_world m)"
  unfolding tidy_def
proof (intro allI impI registered_result)
  fix t assume "registered_up_to running base {} t"
  with assms [of "t_world t"] show "registered_up_to running base {} (snd (in_world m t))"
    by (simp add: registered_up_to_def in_world_def case_prod_beta)
qed

text \<open>A start followed at once by the registration of its clean-up.\<close>

lemma tidy_start:
  assumes ok: "\<And>s c s'. m s = (Ok c, s') \<Longrightarrow> running s' = insert (Container c) (running s)"
    and failed: "\<And>s r s'. m s = (r, s') \<Longrightarrow> \<not> is_ok r \<Longrightarrow> \<exists>c. running s' \<subseteq> insert (Container c) (running s)"
    and rest: "\<And>c. tidy running base (f c)"
  shows "tidy running base (bindS (Fatalf msg (in_world m)) (\<lambda>c. bindS (Cleanup (Container c)) (\<lambda>_. f c)))"
  unfolding tidy_def
proof (intro allI impI)
  fix t assume t: "registered_up_to running base {} t"
  obtain r w where m: "m (t_world t) = (r, w)" by fastforce
  show "tidy_result running base (fst (bindS (Fatalf msg (in_world m)) (\<lambda>c. bindS (Cleanup (Container c)) (\<lambda>_. f c)) t))
      (snd (bindS (Fatalf msg (in_world m)) (\<lambda>c. bindS (Cleanup (Container c)) (\<lambda>_. f c)) t))"
  proof (cases r)
    case (Ok c)
    let ?t = "t\<lparr>t_world := w, t_cleanups := Container c # t_cleanups t\<rparr>"
    from t obtain n cs where "t_cleanups ?t = map Container (c # cs) @ [Network n]" by (auto simp: registered_up_to_def)
    moreover have "running (t_world ?t) \<subseteq> base \<union> {} \<union> set (t_cleanups ?t)"
      using t ok [OF m [unfolded Ok]] by (auto simp: registered_up_to_def)
    ultimately have "registered_up_to running base {} ?t" unfolding registered_up_to_def by blast
    with rest [of c] show ?thesis by (simp add: tidy_def bindS_def Fatalf_def wrapS_def in_world_def Cleanup_def m Ok)
  qed (use t failed [OF m] in \<open>fastforce simp: tidy_result_def registered_up_to_def bindS_def Fatalf_def wrapS_def in_world_def m\<close>)+
qed

context docker_lib
begin

lemma tidy_container:
  "(\<And>c. tidy running base (f c)) \<Longrightarrow>
   tidy running base (bindS (Fatalf msg (in_world (dk_Container D q))) (\<lambda>c. bindS (Cleanup (Container c)) (\<lambda>_. f c)))"
  by (rule tidy_start) (blast dest: container_ok container_failed)+

lemma tidy_kafka:
  "(\<And>c. tidy running base (f c)) \<Longrightarrow>
   tidy running base (bindS (Fatalf msg (in_world (dk_Kafka D img q))) (\<lambda>c. bindS (Cleanup (Container c)) (\<lambda>_. f c)))"
  by (rule tidy_start) (blast dest: kafka_ok kafka_failed)+

lemma tidy_StartPostgres [tidy_intros]: "tidy running base (StartPostgres D net logs)"
  unfolding StartPostgres_def by (rule tidy_container) (rule tidy_intros)+

lemma tidy_StartKafka [tidy_intros]: "tidy running base (StartKafka D net logs)"
  unfolding StartKafka_def by (rule tidy_kafka) (rule tidy_intros queries)+

lemma tidy_CreateTopics [tidy_intros]: "tidy running base (CreateTopics D k n topics)"
proof -
  let ?run = "bindS (Fatalf ''create topics: '' (dk_CreateTopics D (topic_requests n topics))) (\<lambda>cts. liftS (check_topics (dk_Quote D) cts))"
  have "running (snd (?run s)) = running s" for s
  proof -
    obtain r s' where "dk_CreateTopics D (topic_requests n topics) s = (r, s')" by fastforce
    with queries(7) [of "topic_requests n topics" s] show ?thesis by (cases r) (simp_all add: bindS_def Fatalf_def wrapS_def)
  qed
  then have "running (snd (case ?run s of (r, s') \<Rightarrow> (r, dk_AdminClose D s'))) = running s" for s
    by (simp add: case_prod_beta queries(8))
  then have "tidy running base (in_world (\<lambda>s. case ?run s of (r, s') \<Rightarrow> (r, dk_AdminClose D s')))"
    by (rule tidy_query)
  moreover have "tidy running base (in_world (dk_AdminClient D (Brokers k)))" by (rule tidy_query) (rule queries)
  ultimately show ?thesis unfolding CreateTopics_def by (intro tidy_bindS tidy_Fatalf)
qed

lemma tidy_inspect: "tidy running base (\<lambda>t. case in_world (dk_ImageInspect D i) t of
    (Ok img, t') \<Rightarrow> (Ok (Image img), t') | (Fail _, t') \<Rightarrow> (Ok b, t') | (Panic, t') \<Rightarrow> (Panic, t'))"
  unfolding tidy_def
proof (intro allI impI registered_result)
  fix t assume "registered_up_to running base {} t"
  with queries(5) [of i "t_world t"]
  show "registered_up_to running base {} (snd (case in_world (dk_ImageInspect D i) t of
    (Ok img, t') \<Rightarrow> (Ok (Image img), t') | (Fail _, t') \<Rightarrow> (Ok b, t') | (Panic, t') \<Rightarrow> (Panic, t')))"
    by (auto simp: registered_up_to_def in_world_def split: prod.splits res.splits)
qed

lemma tidy_createServiceContainer [tidy_intros]: "tidy running base (createServiceContainer D net pg service cmd extra logs debug)"
  unfolding createServiceContainer_def
  by (rule tidy_container tidy_inspect queries tidy_intros)+

lemma tidy_start_stack: "tidy running base (start_stack D opts net)"
  unfolding start_stack_def by (rule tidy_intros)+

text \<open>What is left after the clean-up.\<close>

lemma running_released: "running (foldl (\<lambda>s r. release D r s) s rs) = running s - set rs"
  by (induction rs arbitrary: s) (auto simp: releases)

lemma MakeStack_tidy:
  assumes "MakeStack D opts \<lparr>t_world = s, t_cleanups = []\<rparr> = (r, t)"
  shows "tidy_result running (running s) r t \<or> \<not> is_ok r \<and> running (t_world t) = running s \<and> t_cleanups t = []"
proof -
  obtain rn w where n: "dk_NewNetwork D s = (rn, w)" by fastforce
  show ?thesis
  proof (cases rn)
    case (Ok net)
    let ?t = "\<lparr>t_world = w, t_cleanups = [Network net]\<rparr>"
    have "registered_up_to running (running s) {} ?t"
      using network_ok [OF n [unfolded Ok]] by (auto simp: registered_up_to_def intro: exI [of _ "[]"])
    with tidy_start_stack have "tidy_result running (running s) (fst (start_stack D opts net ?t)) (snd (start_stack D opts net ?t))"
      unfolding tidy_def by blast
    moreover have "MakeStack D opts \<lparr>t_world = s, t_cleanups = []\<rparr> = start_stack D opts net ?t"
      by (simp add: MakeStack_def CreateNetwork_def bindS_def Fatalf_def wrapS_def in_world_def Cleanup_def n Ok)
    ultimately show ?thesis using assms by (metis fst_conv snd_conv)
  next
    case (Fail e)
    with n assms have "\<not> is_ok r" "t = \<lparr>t_world = w, t_cleanups = []\<rparr>"
      by (auto simp: MakeStack_def CreateNetwork_def bindS_def Fatalf_def wrapS_def in_world_def)
    with network_failed [OF n] Fail show ?thesis by simp
  next
    case Panic
    with n assms have "\<not> is_ok r" "t = \<lparr>t_world = w, t_cleanups = []\<rparr>"
      by (auto simp: MakeStack_def CreateNetwork_def bindS_def Fatalf_def wrapS_def in_world_def)
    with network_failed [OF n] Panic show ?thesis by simp
  qed
qed

end

section \<open>An instance of the container library\<close>

text \<open>Containers are numbered; a chosen one fails to start and stays behind.\<close>

record fleet =
  fl_running :: "nat resource list"
  fl_next :: nat

definition fleet_start :: "nat option \<Rightarrow> (fleet, nat) io" where
  "fleet_start bad f =
     (let n = fl_next f
      in (if bad = Some n then Fail (ErrExt ''not healthy'') else Ok n, \<lparr>fl_running = Container n # fl_running f, fl_next = Suc n\<rparr>))"

definition fleet_release :: "nat resource \<Rightarrow> fleet \<Rightarrow> fleet" where
  "fleet_release r f = f\<lparr>fl_running := filter (\<lambda>x. x \<noteq> r) (fl_running f)\<rparr>"

definition fleet_ops :: "nat option \<Rightarrow> (fleet, nat) docker_ops" where
  "fleet_ops bad =
     \<lparr>dk_NewNetwork = (\<lambda>f. (Ok ''net'', f\<lparr>fl_running := Network ''net'' # fl_running f\<rparr>)), dk_RemoveNetwork = (\<lambda>n. fleet_release (Network n)),
      dk_Container = (\<lambda>_. fleet_start bad), dk_Kafka = (\<lambda>_ _. fleet_start bad), dk_Terminate = (\<lambda>c. fleet_release (Container c)),
      dk_Host = (\<lambda>_. returnS ''localhost''), dk_MappedPort = (\<lambda>_ _. returnS ''49153''), dk_Brokers = (\<lambda>_. returnS [''localhost:9093'']),
      dk_NewDockerClient = returnS (), dk_ImageInspect = (\<lambda>_. failS (ErrExt ''no such image'')), dk_AdminClient = (\<lambda>_. returnS ()),
      dk_AdminClose = id, dk_CreateTopics = (\<lambda>trs. returnS (map (\<lambda>tr. (tr_Topic tr, Some TopicAlreadyExists)) trs)),
      dk_Getenv = (\<lambda>_. []), dk_Quote = id\<rparr>"

interpretation fleet: docker_lib "fleet_ops bad" "\<lambda>f. set (fl_running f)" for bad
  by unfold_locales
    (auto simp: fleet_ops_def fleet_start_def fleet_release_def release_def Let_def split: if_splits resource.splits)

definition demo_opts :: stack_opts where
  "demo_opts = \<lparr>op_DbLogs = False, op_AppLogs = True, op_Debug = False, op_EnableEvents = True\<rparr>"

definition demo_stack :: "nat option \<Rightarrow> nat stack res \<times> (fleet, nat) test" where
  "demo_stack bad = MakeStack (fleet_ops bad) demo_opts \<lparr>t_world = \<lparr>fl_running = [], fl_next = 0\<rparr>, t_cleanups = []\<rparr>"

lemmas stack_steps = MakeStack_def CreateNetwork_def start_stack_def StartPostgres_def StartKafka_def CreateTopics_def
  createServiceContainer_def bindS_def Fatalf_def wrapS_def in_world_def Cleanup_def

lemma fleet_ops_simps [simp]:
  "dk_NewNetwork (fleet_ops bad) f = (Ok ''net'', f\<lparr>fl_running := Network ''net'' # fl_running f\<rparr>)"
  "dk_Container (fleet_ops bad) q = fleet_start bad" "dk_Kafka (fleet_ops bad) img ko = fleet_start bad"
  "dk_Host (fleet_ops bad) c = returnS ''localhost''" "dk_MappedPort (fleet_ops bad) c p = returnS ''49153''"
  "dk_Brokers (fleet_ops bad) c = returnS [''localhost:9093'']" "dk_NewDockerClient (fleet_ops bad) = returnS ()"
  "dk_ImageInspect (fleet_ops bad) i = failS (ErrExt ''no such image'')" "dk_AdminClient (fleet_ops bad) bs = returnS ()"
  "dk_AdminClose (fleet_ops bad) f = f" "dk_Quote (fleet_ops bad) = id"
  "dk_CreateTopics (fleet_ops bad) trs = returnS (map (\<lambda>tr. (tr_Topic tr, Some TopicAlreadyExists)) trs)"
  by (simp_all add: fleet_ops_def)

lemma demo_stack_runs:
  "is_ok (fst (demo_stack None))" "fl_next (t_world (snd (demo_stack None))) = 4" "\<not> is_ok (fst (demo_stack (Some 2)))"
  by (simp_all add: demo_stack_def demo_opts_def stack_steps fleet_start_def Let_def topic_requests_def numeral_eq_Suc)

lemma demo_stack_Ok: obtains st t where "demo_stack None = (Ok st, t)"
  using demo_stack_runs(1) by (metis is_ok_iff prod.collapse)

section \<open>Theorems\<close>



text \<open>The environment of a process started with the given variables.\<close>

definition environ_of :: "(string \<Rightarrow> string option) \<Rightarrow> environ" where
  "environ_of m x = (case m x of Some v \<Rightarrow> v | None \<Rightarrow> [])"

lemma env_keys:
  "env_key EnvPrefix env_replacements FlagPort = ''CHECKOUT_PORT''" "env_key EnvPrefix env_replacements FlagSQLite = ''CHECKOUT_SQLITE''"
  "env_key EnvPrefix env_replacements FlagDBHost = ''CHECKOUT_DB_HOST''" "env_key EnvPrefix env_replacements FlagDBUser = ''CHECKOUT_DB_USER''"
  "env_key EnvPrefix env_replacements FlagDBPassword = ''CHECKOUT_DB_PASSWORD''"
  "env_key EnvPrefix env_replacements FlagDBPort = ''CHECKOUT_DB_PORT''" "env_key EnvPrefix env_replacements FlagMemoryDB = ''CHECKOUT_MEMORY_DB''"
  "env_key EnvPrefix env_replacements FlagRecreateSchema = ''CHECKOUT_RECREATE_SCHEMA''"
  "env_key EnvPrefix env_replacements FlagLogLevel = ''CHECKOUT_LOG_LEVEL''" "env_key EnvPrefix env_replacements FlagLogFormat = ''CHECKOUT_LOG_FORMAT''"
  "env_key EnvPrefix env_replacements FlagPassword = ''CHECKOUT_PASSWORD''" "env_key EnvPrefix env_replacements FlagEventBroker = ''CHECKOUT_EVENT_BROKER''"
  by code_simp+

text \<open>The parts of a stack that was built.\<close>

lemma start_stack_parts:
  assumes "start_stack D opts net t = (Ok st, t')"
  shows "st_network st = net" "pgc_alias (st_database st) = TestNetworkAlias" "pgc_user (st_database st) = TestUsername"
    "pgc_pass (st_database st) = TestDBPassword" "AuthPsswd st = TestAuthPassword"
    "broker_env (st_kafka st) = (if op_EnableEvents opts then [''CHECKOUT_EVENT_BROKER'' \<mapsto> ''kafka:9092''] else Map.empty)"
  using assms
  by (auto simp: start_stack_def StartPostgres_def StartKafka_def createServiceContainer_def bindS_eq_Ok AuthPsswd_def broker_env_def
      InternalBroker_def TestKafkaAlias_def TestKafkaInternalPort_def split: if_splits)

lemma service_env_values:
  assumes "pgc_alias pg = TestNetworkAlias" "pgc_user pg = TestUsername" "pgc_pass pg = TestDBPassword"
  defines "E \<equiv> \<lambda>events debug. environ_of (service_env pg
      (if events then [''CHECKOUT_EVENT_BROKER'' \<mapsto> ''kafka:9092''] else Map.empty) debug)"
  shows "E events debug ''CHECKOUT_PORT'' = []" "E events debug ''CHECKOUT_SQLITE'' = []"
    "E events debug ''CHECKOUT_MEMORY_DB'' = []" "E events debug ''CHECKOUT_RECREATE_SCHEMA'' = []"
    "E events debug ''CHECKOUT_DB_HOST'' = ''checkout-app''" "E events debug ''CHECKOUT_DB_USER'' = ''checkout''"
    "E events debug ''CHECKOUT_DB_PASSWORD'' = ''not-a-real-db-passwd''" "E events debug ''CHECKOUT_DB_PORT'' = ''5432''"
    "E events debug ''CHECKOUT_LOG_LEVEL'' = (if debug then ''debug'' else ''info'')" "E events debug ''CHECKOUT_LOG_FORMAT'' = ''text''"
    "E events debug ''CHECKOUT_PASSWORD'' = ''not-a-real-auth-passwd''"
    "E events debug ''CHECKOUT_EVENT_BROKER'' = (if events then ''kafka:9092'' else [])"
  by (simp_all add: E_def environ_of_def service_env_def assms(1-3) stack_constants map_add_def)

lemma service_env_settings:
  assumes "pgc_alias pg = TestNetworkAlias" "pgc_user pg = TestUsername" "pgc_pass pg = TestDBPassword"
    and "ci ''5432'' = 5432"
  shows "readServiceConfig (viper_of (settings ci cb registerServiceFlags (\<lambda>_. None)
      (environ_of (service_env pg (if events then [''CHECKOUT_EVENT_BROKER'' \<mapsto> ''kafka:9092''] else Map.empty) debug)))) =
    \<lparr>sc_port = 8000, sc_sqliteDBPath = ''data/db'', sc_dbHost = ''checkout-app'', sc_dbUser = ''checkout'',
     sc_dbPassword = ''not-a-real-db-passwd'', sc_dbPort = 5432, sc_useMemoryDB = False, sc_recreateSchema = False,
     sc_logLevel = (if debug then ''debug'' else ''info''), sc_logFormat = ''text'', sc_authPassword = ''not-a-real-auth-passwd'',
     sc_eventBroker = (if events then ''kafka:9092'' else [])\<rparr>"
proof -
  define E where "E = environ_of (service_env pg (if events then [''CHECKOUT_EVENT_BROKER'' \<mapsto> ''kafka:9092''] else Map.empty) debug)"
  note vals = service_env_values [OF assms(1-3), of events debug, folded E_def]
  show ?thesis
    unfolding E_def [symmetric] readServiceConfig_registered [symmetric]
    by (simp add: readServiceConfig_def viper_of_def settings_def service_flags env_keys setting_def vals assms(4)
      DefaultServerPort_def DefaultDBPort_def)
qed



section \<open>Validity of the test data\<close>

text \<open>Every item the generator can draw is accepted by the service's validation.\<close>

lemma sku_charset_chars: "list_all sku_char sku_charset"
  by code_simp

lemma randomSKU_IsSKU:
  assumes "\<And>i. draw i < length sku_charset"
  shows "IsSKU (randomSKU draw)"
  using assms sku_charset_chars by (simp add: IsSKU_def randomSKU_def list_all_iff)

context decimal_lib
begin

lemma random_item_valid:
  assumes "\<And>i. draw i < length sku_charset" and "0 \<le> cents" and "val (quot (d_of_int dec cents) (d_of_int dec 100)) = of_int cents / 100"
  shows "Item_Validate dec (MakeRandomizedTestItem dec quot draw cents quantity ident) = Ok ()"
  using assms(2) by (simp add: MakeRandomizedTestItem_def Item_Validate_def Let_def randomSKU_IsSKU [OF assms(1)] assms(3))

end

end
