(* ===== verification/Catalog.thy ===== *)
theory Catalog
  imports Purchase
begin

text \<open>
  The handlers of the orders service that serve the catalogue and the order history:
  adding items, pricing one item or a list, listing orders. Their lemmas hold in the
  locale \<open>orders_env\<close>; the theorems state them for \<^verbatim>\<open>GormDB\<close>.
\<close>

section \<open>Facts\<close>

text \<open>An error of the engine is an internal error, however it is wrapped.\<close>

lemma statusFor_engine [simp]: "engine_error e \<Longrightarrow> statusFor e = 500"
  by (auto simp: engine_error_def)

lemma statusFor_invalid_input [simp]: "statusFor (invalid_input m) = 400"
  by (simp add: invalid_input_def)

lemma statusFor_item_empty [simp]: "statusFor (item_empty sku) = 404"
  by (simp add: item_empty_def)

lemma decode_body_cases:
  obtains v where "decode_body d req = Ok v" | "decode_body d req = Fail (invalid_input ''json'')"
  by (cases "Option.bind (parse_first (r_Body req)) d") (auto simp: decode_body_def)

lemma check_skus_Fail: "check_skus skus = Fail e \<Longrightarrow> statusFor e = 400"
  by (induction skus) (auto split: if_splits)

lemma check_skus_no_panic: "check_skus skus \<noteq> Panic"
  by (induction skus) auto

subsection \<open>Pricing a list\<close>

lemma price_loop_cases:
  "price_loop dec items (shown, tot) =
     (case filter (\<lambda>i. i_InventoryQuantity i < 1) items of
        [] \<Rightarrow> Ok (shown @ items, foldl (d_add dec) tot (map i_Price items))
      | i # _ \<Rightarrow> Fail (item_empty (i_SKU i)))"
  by (induction items arbitrary: shown tot) (auto split: list.split)

lemma ItemsPrice_run:
  assumes "decode_body dec_items_price_request req = Ok pReq" and "check_skus (elems (ip_SKUs pReq)) = Ok ()"
    and "db_GetItemsBySKU (sv_store h) (elems (ip_SKUs pReq)) s = (Ok items, s1)"
    and "price_loop dec items ([], d_zero dec) = Ok (shown, tot)"
    and "ApplyPromotions (sv_promotionsEngine h) shown s1 = (Ok promos, s2)"
  shows "\<exists>payload. ItemsPrice_handler dec h req p s = (Ok payload, s2)"
  using assms by (simp add: ItemsPrice_handler_def Let_def go_simps)

text \<open>The reply to a price request for \<open>items\<close>, on an inventory \<open>rows\<close>.\<close>

definition priced_reply :: "('d \<Rightarrow> rat) \<Rightarrow> 'd item list \<Rightarrow> 'd item list \<Rightarrow> 'd payload" where
  "priced_reply val rows items =
     PricePayload \<lparr>rs_Items = items,
       rs_Promotions = Some \<lparr>pm_Deduction = Fin 0, pm_AddedItems = free_raspberry rows items\<rparr>,
       rs_TotalGross = round64 (sum_list (map (val \<circ> i_Price) items)),
       rs_TotalWithDiscount = round64 (sum_list (map (val \<circ> i_Price) items))\<rparr>"

subsection \<open>Adding items\<close>

text \<open>A request whose items can be stored: some items, none of them null, all valid.\<close>

definition acceptable :: "'d decimal_ops \<Rightarrow> request \<Rightarrow> 'd item list \<Rightarrow> bool" where
  "acceptable dec req its \<longleftrightarrow> (\<exists>iReq. decode_body (dec_add_items_request dec) req = Ok iReq \<and>
     elems (ar_Items iReq) = map Some its \<and> its \<noteq> [] \<and> list_all (\<lambda>i. Item_Validate dec i = Ok ()) its)"

lemma validate_items_Ok_iff:
  "validate_items dec n items = Ok () \<longleftrightarrow> (\<exists>its. items = map Some its \<and> list_all (\<lambda>i. Item_Validate dec i = Ok ()) its)"
proof (induction items arbitrary: n)
  case (Cons p items)
  show ?case
  proof (cases p)
    case (Some i)
    with Cons show ?thesis
      by (cases "Item_Validate dec i") (auto simp: Item_Validate_ptr_def map_eq_Cons_conv Cons_eq_map_conv)
  qed (auto simp: Item_Validate_ptr_def)
qed simp

lemma validate_items_Fail: "validate_items dec n items = Fail e \<Longrightarrow> statusFor e = 400"
  by (induction items arbitrary: n) (auto split: res.splits)

lemma validate_items_Panic: "validate_items dec n items = Panic \<Longrightarrow> None \<in> set items"
  by (induction items arbitrary: n)
    (auto simp: Item_Validate_ptr_def Item_Validate_no_panic split: res.splits option.splits)

lemma fills_Nil [simp]: "fills used [] xs \<longleftrightarrow> xs = []"
  by (cases xs) simp_all

lemma fills_last: "fills used its xs \<Longrightarrow> its \<noteq> [] \<Longrightarrow> xs \<noteq> [] \<and> last xs = (last its)\<lparr>i_ID := i_ID (last xs)\<rparr>"
  by (induction used its xs rule: fills.induct) (auto split: if_splits)

lemma foldl_upsert_last: "xs \<noteq> [] \<Longrightarrow> last xs \<in> set (foldl upsert_row rows xs)"
  by (induction xs rule: rev_induct) (auto simp: upsert_row_def image_iff)

text \<open>The row a key of a price request refers to.\<close>

definition has_key :: "string \<Rightarrow> 'd item \<Rightarrow> bool" where
  "has_key key i \<longleftrightarrow> (if IsSKU key then i_SKU i else i_Name i) = key"

text \<open>The reply to a price request for one item.\<close>

definition single_reply :: "'d decimal_ops \<Rightarrow> ('d \<Rightarrow> rat) \<Rightarrow> 'd item \<Rightarrow> 'd payload" where
  "single_reply dec val it =
     PricePayload \<lparr>rs_Items = [(zero_item dec)\<lparr>i_Name := i_Name it, i_SKU := i_SKU it, i_Price := i_Price it\<rparr>],
       rs_Promotions = None, rs_TotalGross = round64 (val (i_Price it)), rs_TotalWithDiscount = round64 (val (i_Price it))\<rparr>"

context orders_env
begin

lemma val_prices: "val (foldl (d_add dec) (d_zero dec) (map i_Price items)) = sum_list (map (val \<circ> i_Price) items)"
  by (simp add: val_fold_add)

lemma ItemsPrice_reads:
  assumes "sv_store h = db" and "sv_promotionsEngine h = promotions_of dec db"
    and "ItemsPrice_handler dec h req p s = (r, s')"
  shows "tables s' = tables s"
proof -
  have "keeps (\<lambda>t. tables t = T0) (ItemsPrice_handler dec h req p)" for T0
    unfolding ItemsPrice_handler_def assms(1,2) by (auto simp: Let_def split_beta intro!: keeps_intros)
  from keepsD [OF this assms(3) refl] show ?thesis .
qed

lemma ItemsPrice_Ok:
  assumes ok: "db_ok (tables s)" and h: "sv_store h = db" "sv_promotionsEngine h = promotions_of dec db"
    and run: "ItemsPrice_handler dec h req p s = (Ok payload, s')"
  obtains pReq items where "decode_body dec_items_price_request req = Ok pReq" "list_all IsSKU (elems (ip_SKUs pReq))"
    "mset items = mset (selected (elems (ip_SKUs pReq)) (tb_inventory (tables s)))"
    "list_all (\<lambda>i. 1 \<le> i_InventoryQuantity i) items"
    "payload = priced_reply val (tb_inventory (tables s)) items"
proof -
  from run obtain pReq items s1 shown tot s2 promos where
      b: "decode_body dec_items_price_request req = Ok pReq" and c: "check_skus (elems (ip_SKUs pReq)) = Ok ()"
      and g: "db_GetItemsBySKU db (elems (ip_SKUs pReq)) s = (Ok items, s1)"
      and l: "price_loop dec items ([], d_zero dec) = Ok (shown, tot)"
      and a: "ApplyPromotions (promotions_of dec db) shown s1 = (Ok promos, s2)"
      and pay: "payload = PricePayload \<lparr>rs_Items = shown, rs_Promotions = Some promos, rs_TotalGross = d_to_float dec tot,
          rs_TotalWithDiscount = fsub (d_to_float dec tot) (pm_Deduction promos)\<rparr>"
    unfolding ItemsPrice_handler_def h by (auto simp: bindS_eq_Ok wrapS_eq_Ok Let_def)
  from stmt_Ok [OF GetItemsBySKU g] have sel: "tables s1 = tables s"
    "mset items = mset (selected (elems (ip_SKUs pReq)) (tb_inventory (tables s)))" by simp_all
  from l have l': "shown = items" "tot = foldl (d_add dec) (d_zero dec) (map i_Price items)"
    "list_all (\<lambda>i. 1 \<le> i_InventoryQuantity i) items"
    by (auto simp: price_loop_cases filter_empty_conv list_all_iff split: list.splits)
  have "distinct (map i_Name items)"
    using distinct_map_selection [OF sel(2), of i_Name] ok by (simp add: db_ok_def inventory_ok_def)
  from ApplyPromotions_unique [OF this _ a [unfolded l']] ok sel(1)
  have "promos = \<lparr>pm_Deduction = Fin 0, pm_AddedItems = free_raspberry (tb_inventory (tables s)) items\<rparr>"
    by (simp add: no_promotions_def)
  with pay l' have "payload = priced_reply val (tb_inventory (tables s)) items"
    by (simp add: priced_reply_def to_float val_prices)
  with that b c sel(2) l'(3) show thesis by (simp add: check_skus_Ok_iff)
qed

subsection \<open>Pricing one item\<close>

lemma find_by_key:
  "stmt tables (if IsSKU key then db_GetItemBySKU db key else db_GetItemByName db key)
     (\<lambda>T x T'. T' = T \<and> found_item dec (filter (has_key key) (tb_inventory T)) x)"
  using GetItemBySKU [of key] GetItemByName [of key] by (simp add: has_key_def [abs_def])

lemma has_key_unique:
  assumes "db_ok (T :: 'd tables)" "i \<in> set (tb_inventory T)" "j \<in> set (tb_inventory T)" "has_key key i" "has_key key j"
  shows "i = j"
proof -
  have "distinct (map i_SKU (tb_inventory T))" "distinct (map i_Name (tb_inventory T))"
    using assms(1) by (simp_all add: db_ok_def inventory_ok_def)
  with assms(2-) show ?thesis by (auto simp: has_key_def split: if_splits dest: distinct_map_inj_on)
qed

lemma ItemPrice_cases:
  assumes ok: "db_ok (tables s)" and h: "sv_store h = db" and run: "ItemPrice_handler dec h req p s = (r, s')"
  shows "tables s' = tables s \<and> (case r of
      Ok payload \<Rightarrow> \<exists>it \<in> set (tb_inventory (tables s)). has_key (ByName p ''key'') it \<and> 1 \<le> i_InventoryQuantity it \<and>
        payload = single_reply dec val it
    | Fail e \<Rightarrow> statusFor e = 500 \<or> statusFor e = 404 \<and>
        (\<forall>it \<in> set (tb_inventory (tables s)). has_key (ByName p ''key'') it \<longrightarrow> i_InventoryQuantity it < 1)
    | Panic \<Rightarrow> False)"
proof -
  let ?key = "ByName p ''key''" and ?inv = "tb_inventory (tables s)"
  let ?find = "if IsSKU ?key then db_GetItemBySKU db ?key else db_GetItemByName db ?key"
  obtain x s1 where f: "?find s = (x, s1)" by fastforce
  show ?thesis
  proof (cases x)
    case (Ok ptr)
    with stmt_Ok [OF find_by_key] f have t: "tables s1 = tables s" and F: "found_item dec (filter (has_key ?key) ?inv) ptr" by blast+
    then obtain it where it: "ptr = Some it" "it \<in> set ?inv \<and> has_key ?key it \<or> it = zero_item dec \<and> (\<forall>i \<in> set ?inv. \<not> has_key ?key i)"
      by (auto simp: found_item_def filter_empty_conv split: if_splits)
    have run': "(r, s') = (if i_InventoryQuantity it < 1 then Fail (item_empty (i_SKU it)) else Ok (single_reply dec val it), s1)"
      using run it(1) unfolding ItemPrice_handler_def Let_def h by (auto simp: f Ok go_simps single_reply_def to_float)
    show ?thesis
    proof (cases "i_InventoryQuantity it < 1")
      case True
      have "i_InventoryQuantity i < 1" if "i \<in> set ?inv" "has_key ?key i" for i
        using it(2) has_key_unique [OF ok that(1) _ that(2), of it] that True by blast
      with True run' t show ?thesis by simp
    next
      case False
      with it(2) have "it \<in> set ?inv" "has_key ?key it" by (auto simp: zero_item_def)
      with False run' t show ?thesis by (auto intro!: bexI [of _ it])
    qed
  next
    case (Fail e)
    with stmt_Fail [OF find_by_key] f have "engine_error e" "tables s1 = tables s" by blast+
    with run f Fail h show ?thesis by (auto simp: ItemPrice_handler_def Let_def go_simps)
  qed (use f stmt_no_panic [OF find_by_key] in blast)
qed

subsection \<open>Adding items\<close>

lemma AddItems_cases:
  assumes ok: "db_ok (tables s)" and h: "sv_store h = db" and run: "AddItems_handler dec h req p s = (r, s')"
  shows "db_ok (tables s') \<and> (case r of
      Ok payload \<Rightarrow> \<exists>its xs. acceptable dec req its \<and> payload = ItemsPayload xs \<and> fills (i_ID ` set (tb_inventory (tables s))) its xs \<and>
        tables s' = (tables s)\<lparr>tb_inventory := foldl upsert_row (tb_inventory (tables s)) (map (store_item numcol) xs)\<rparr>
    | Fail e \<Rightarrow> tables s' = tables s \<and> statusFor e = (if \<exists>its. acceptable dec req its then 500 else 400)
    | Panic \<Rightarrow> tables s' = tables s \<and>
        (\<exists>iReq. decode_body (dec_add_items_request dec) req = Ok iReq \<and> None \<in> set (elems (ar_Items iReq))))"
proof (cases rule: decode_body_cases [of "dec_add_items_request dec" req])
  case (1 iReq)
  let ?items = "elems (ar_Items iReq)"
  have acc: "acceptable dec req its \<longleftrightarrow> ?items = map Some its \<and> its \<noteq> [] \<and> list_all (\<lambda>i. Item_Validate dec i = Ok ()) its" for its
    using 1 by (simp add: acceptable_def)
  show ?thesis
  proof (cases "validate_items dec 0 ?items")
    case (Ok u)
    then obtain its where its: "?items = map Some its" "list_all (\<lambda>i. Item_Validate dec i = Ok ()) its"
      using validate_items_Ok_iff by (metis (full_types) old.unit.exhaust)
    obtain x s1 where u: "db_UpsertItems db its s = (x, s1)" by fastforce
    have the_its: "map the (map Some its) = its" by (simp add: map_idI)
    show ?thesis
    proof (cases "its = []")
      case True
      then have "\<nexists>its. acceptable dec req its" using its(1) acc by auto
      moreover from True its(1) have "r = Fail (invalid_input ''no items provided'')" "s' = s"
        using run 1 by (auto simp: AddItems_handler_def go_simps)
      ultimately show ?thesis using ok by simp
    next
      case False
      with its acc have a: "acceptable dec req its" by blast
      have run': "(r, s') = (case x of Ok xs \<Rightarrow> Ok (ItemsPayload xs) | Fail e \<Rightarrow> Fail e | Panic \<Rightarrow> Panic, s1)"
        using run False unfolding AddItems_handler_def h
        by (cases x) (simp_all add: 1 its(1) Ok [unfolded its(1)] u go_simps the_its del: map_map)
      show ?thesis
      proof (cases x)
        case (Ok xs)
        have "db_ok (tables s1)" by (rule stmt_keeps_ok [OF UpsertItems ok u])
        with stmt_Ok [OF UpsertItems u [unfolded Ok]] Ok run' a show ?thesis by auto
      next
        case (Fail e)
        with stmt_Fail [OF UpsertItems] u run' a ok show ?thesis by fastforce
      qed (use u stmt_no_panic [OF UpsertItems] in blast)
    qed
  next
    case (Fail e)
    then have "\<nexists>its. acceptable dec req its" using acc validate_items_Ok_iff [of dec 0 ?items] by auto
    with run 1 Fail ok validate_items_Fail [OF Fail] show ?thesis by (cases "?items") (auto simp: AddItems_handler_def go_simps)
  next
    case Panic
    then have "?items \<noteq> []" by auto
    with run 1 ok Panic validate_items_Panic [OF Panic] show ?thesis by (auto simp: AddItems_handler_def Let_def go_simps)
  qed
next
  case 2
  with run ok show ?thesis by (auto simp: AddItems_handler_def go_simps acceptable_def)
qed

text \<open>What was stored last can be priced by its SKU.\<close>

lemma stored_last:
  assumes "acceptable dec req its" and "fills used its xs"
  shows "\<exists>y \<in> set (foldl upsert_row rows (map (store_item numcol) xs)). y = (store_item numcol (last its))\<lparr>i_ID := i_ID y\<rparr>"
proof -
  from fills_last [OF assms(2)] assms(1) have xs: "xs \<noteq> []" "last xs = (last its)\<lparr>i_ID := i_ID (last xs)\<rparr>" by (auto simp: acceptable_def)
  then have "store_item numcol (last xs) \<in> set (foldl upsert_row rows (map (store_item numcol) xs))"
    using foldl_upsert_last [of "map (store_item numcol) xs" rows] by (simp add: last_map)
  moreover have "store_item numcol (last xs) = (store_item numcol (last its))\<lparr>i_ID := i_ID (store_item numcol (last xs))\<rparr>"
    by (subst xs(2)) (simp add: store_item_def)
  ultimately show ?thesis by blast
qed

lemma ItemPrice_stored:
  assumes ok: "db_ok (tables s)" and h: "sv_store h = db"
    and y: "y \<in> set (tb_inventory (tables s))" "IsSKU (i_SKU y)" "1 \<le> i_InventoryQuantity y" "ByName p ''key'' = i_SKU y"
    and run: "ItemPrice_handler dec h req p s = (r, s')"
  shows "case r of Ok payload \<Rightarrow> payload = single_reply dec val y | Fail e \<Rightarrow> statusFor e = 500 | Panic \<Rightarrow> False"
proof -
  have k: "has_key (ByName p ''key'') y" using y(2,4) by (simp add: has_key_def)
  note c = ItemPrice_cases [OF ok h run]
  show ?thesis
  proof (cases r)
    case (Ok payload)
    with c obtain it where "it \<in> set (tb_inventory (tables s))" "has_key (ByName p ''key'') it" "payload = single_reply dec val it" by auto
    with has_key_unique [OF ok _ y(1) _ k] Ok show ?thesis by auto
  next
    case (Fail e)
    with c y(1,3) k show ?thesis by fastforce
  qed (use c in simp)
qed

subsection \<open>Orders\<close>

lemma Orders_cases:
  assumes "sv_store h = db" and "UserID (r_Context req) = Some customer" and "Orders_handler h req p s = (r, s')"
  shows "tables s' = tables s \<and> (case r of
      Ok payload \<Rightarrow> payload = OrdersPayload (rev (sort_key o_ID (filter (\<lambda>x. o_CustomerID x = customer) (tb_orders (tables s)))))
    | Fail e \<Rightarrow> statusFor e = 500 | Panic \<Rightarrow> False)"
proof -
  obtain x s1 where g: "db_GetOrders db customer s = (x, s1)" by fastforce
  show ?thesis
  proof (cases x)
    case (Ok xs)
    with stmt_Ok [OF GetOrders] g assms show ?thesis by (auto simp: Orders_handler_def go_simps)
  next
    case (Fail e)
    with stmt_Fail [OF GetOrders] g assms show ?thesis by (fastforce simp: Orders_handler_def go_simps)
  qed (use g stmt_no_panic [OF GetOrders] in blast)
qed

end

section \<open>Routes\<close>

text \<open>A route keeps a property of the state when the handler behind it does.\<close>

lemma keeps_on_writer [keeps_intros]: "keeps (\<lambda>ws. I (snd ws)) (on_writer m)"
  by (auto simp: keeps_def on_writer_def split: prod.splits)

lemma keeps_Handle [keeps_intros]: "keeps I (h req p) \<Longrightarrow> keeps (\<lambda>ws. I (snd ws)) (Handle dec h req p)"
  by (auto simp: keeps_def Handle_def on_state_def on_writer_def split: prod.splits res.splits)

lemma keeps_run_checks: "list_all (\<lambda>c. keeps I (ck_Probe c)) cs \<Longrightarrow> keeps I (run_checks cs acc)"
proof (induction cs arbitrary: acc)
  case (Cons c cs)
  then show ?case by (auto simp: keeps_def split: prod.splits res.splits)
qed simp

lemma keeps_Health [keeps_intros]:
  assumes "list_all (\<lambda>c. keeps I (ck_Probe c)) cs"
  shows "keeps (\<lambda>ws. I (snd ws)) (HealthHandler dec service version cs req p)"
  using keeps_run_checks [OF assms, of "[]"]
  by (auto simp: keeps_def HealthHandler_def on_state_def on_writer_def Let_def split: prod.splits res.splits)

lemma keeps_Auth [keeps_intros]:
  assumes "\<And>u. authn (Header_Get req XAuthHeaderKey) = Ok u \<Longrightarrow>
    keeps (\<lambda>ws. I (snd ws)) (h (req\<lparr>r_Context := WithUserID (r_Context req) u\<rparr>) p)"
  shows "keeps (\<lambda>ws. I (snd ws)) (Auth authn h req p)"
  using assms by (auto simp: Auth_def intro!: keeps_intros split: res.split)

lemma routes_keep:
  assumes "ep \<in> set (RegisterHandlers dec version promhttp fresh h)"
    and "keeps I (db_Ping (sv_store h))" and "keeps I (rl_Ping (sv_relay h))" and "keeps (\<lambda>ws. I (snd ws)) (promhttp req p)"
    and "keeps I (ListItems_handler h req p)" and "keeps I (ItemPrice_handler dec h req p)" and "keeps I (ItemsPrice_handler dec h req p)"
    and "\<And>u. sv_authn h (Header_Get req XAuthHeaderKey) = Ok u \<Longrightarrow> keeps I (Orders_handler h (req\<lparr>r_Context := WithUserID (r_Context req) u\<rparr>) p)"
    and "\<And>u. sv_authn h (Header_Get req XAuthHeaderKey) = Ok u \<Longrightarrow> keeps I (AddItems_handler dec h (req\<lparr>r_Context := WithUserID (r_Context req) u\<rparr>) p)"
    and "\<And>u ref uid now. sv_authn h (Header_Get req XAuthHeaderKey) = Ok u \<Longrightarrow> fresh (req\<lparr>r_Context := WithUserID (r_Context req) u\<rparr>) = (ref, uid, now) \<Longrightarrow>
      keeps I (PurchaseItems_handler dec h ref uid now (req\<lparr>r_Context := WithUserID (r_Context req) u\<rparr>) p)"
  shows "keeps (\<lambda>ws. I (snd ws)) (ep_Handler ep req p)"
  using assms unfolding RegisterHandlers_def Routes_def AddEndpoints_def
  by (auto simp: StatusHandler_def intro!: keeps_intros split: prod.split)

context orders_env
begin

lemma keeps_Ping: "keeps (\<lambda>t. tables t = T0) (db_Ping db)"
  using Ping by (fastforce intro: keeps_unchanged)

lemma reads_keep_ok: "(\<And>T0. keeps (\<lambda>t. tables t = T0) m) \<Longrightarrow> keeps (\<lambda>t. db_ok (tables t)) m"
  by (metis (mono_tags, lifting) keeps_def)

lemma keeps_catalogue [keeps_intros]:
  assumes "sv_store h = db" "sv_promotionsEngine h = promotions_of dec db"
  shows "keeps (\<lambda>t. tables t = T0) (ListItems_handler h req p)" "keeps (\<lambda>t. tables t = T0) (ItemPrice_handler dec h req p)"
    "keeps (\<lambda>t. tables t = T0) (ItemsPrice_handler dec h req p)" "keeps (\<lambda>t. tables t = T0) (Orders_handler h req p)"
  unfolding ListItems_handler_def ItemPrice_handler_def ItemsPrice_handler_def Orders_handler_def assms
  by (auto simp: Let_def split_beta intro!: keeps_intros split: option.split)

lemma keeps_ok_writers:
  assumes "sv_store h = db" "sv_promotionsEngine h = promotions_of dec db"
  shows "keeps (\<lambda>t. db_ok (tables t)) (AddItems_handler dec h req p)"
    and "keeps (\<lambda>t. db_ok (tables t)) (PurchaseItems_handler dec h ref uid now req p)"
proof -
  show "keeps (\<lambda>t. db_ok (tables t)) (AddItems_handler dec h req p)"
    using AddItems_cases [OF _ assms(1)] by (metis (mono_tags, lifting) keeps_def prod.collapse)
  have "db_ok (tables s')" if "db_ok (tables s)" "PurchaseItems_handler dec h ref uid now req p s = (r, s')" for s r s'
  proof (cases r)
    case (Ok payload)
    with PurchaseItems_commit [OF that(1) assms that(2) [unfolded Ok]] show ?thesis by metis
  qed (use PurchaseItems_no_effect [OF assms that(2)] that(1) in simp_all)
  then show "keeps (\<lambda>t. db_ok (tables t)) (PurchaseItems_handler dec h ref uid now req p)"
    by (metis (mono_tags, lifting) keeps_def prod.collapse)
qed

text \<open>A request without an accepted credential changes no table; no request breaks the schema.\<close>

lemma routes_frames:
  assumes h: "sv_store h = db" "sv_promotionsEngine h = promotions_of dec db"
    and ep: "ep \<in> set (RegisterHandlers dec version promhttp fresh h)"
    and ping: "\<And>T0. keeps (\<lambda>t. tables t = T0) (rl_Ping (sv_relay h))"
    and prom: "\<And>T0. keeps (\<lambda>ws. tables (snd ws) = T0) (promhttp req p)"
  shows "keeps (\<lambda>ws. db_ok (tables (snd ws))) (ep_Handler ep req p)"
    and "(\<And>u. sv_authn h (Header_Get req XAuthHeaderKey) \<noteq> Ok u) \<Longrightarrow> keeps (\<lambda>ws. tables (snd ws) = T0) (ep_Handler ep req p)"
proof -
  have prom': "keeps (\<lambda>ws. db_ok (tables (snd ws))) (promhttp req p)"
    using prom by (metis (mono_tags, lifting) keeps_def)
  show "keeps (\<lambda>ws. db_ok (tables (snd ws))) (ep_Handler ep req p)"
    by (rule routes_keep [OF ep, where I = "\<lambda>t. db_ok (tables t)"])
      (intro reads_keep_ok keeps_catalogue [OF h] keeps_ok_writers [OF h] ping prom' | simp add: h keeps_Ping reads_keep_ok)+
  show "keeps (\<lambda>ws. tables (snd ws) = T0) (ep_Handler ep req p)" if "\<And>u. sv_authn h (Header_Get req XAuthHeaderKey) \<noteq> Ok u"
    by (rule routes_keep [OF ep, where I = "\<lambda>t. tables t = T0"])
      (intro keeps_catalogue [OF h] ping prom | simp add: h keeps_Ping that)+
qed

end

section \<open>Theorems\<close>

subsection \<open>Requests to run\<close>

definition demo_item :: "dec10 item" where
  "demo_item = \<lparr>i_ID = 0, i_SKU = ''120P90'', i_Name = ''Google TV'', i_Price = (4999, -2), i_InventoryQuantity = 10\<rparr>"

definition demo_add_request :: request where
  "demo_add_request = (demo_request [])\<lparr>r_Path := ItemsEndPnt, r_Body := print_json (JObj [(''items'', JArr [item_json dec10 demo_item])])\<rparr>"

definition demo_add :: "dec10 payload res \<times> mem" where
  "demo_add = AddItems_handler dec10 demo_service demo_add_request [] (mem_with demo_rows)"

lemma demo_add_ok: "is_ok (fst demo_add)"
  by code_simp

lemma demo_add_acceptable: "acceptable dec10 demo_add_request [demo_item]"
  unfolding acceptable_def by (rule exI [of _ "\<lparr>ar_Items = Some [Some demo_item]\<rparr>"]) code_simp



text \<open>C36: An item that was added can be priced. After a successful addition, a price request for the SKU of
  the last item answers with the stored name and price of that item, unless the database fails.\<close>

theorem add_then_price:
  assumes "gorm dec g tables numcol timecol" and "decimal_lib dec val" and "db_ok (tables s)"
    and "h = NewService dec (GormDB g) relayer authn"
    and "acceptable dec req its" and "AddItems_handler dec h req p s = (Ok payload, s1)"
    and "ByName p' ''key'' = i_SKU (last its)" and "ItemPrice_handler dec h req' p' s1 = (r, s2)"
  shows "case r of
      Ok payload' \<Rightarrow> payload' = single_reply dec val (store_item numcol (last its))
    | Fail e \<Rightarrow> statusFor e = 500
    | Panic \<Rightarrow> False"
proof -
  note env = orders_env_GormDB [OF assms(1,2)]
  from assms(4) have h: "sv_store h = GormDB g" by simp
  from orders_env.AddItems_cases [OF env assms(3) h assms(6)] obtain its' xs where
    "acceptable dec req its'" "fills (i_ID ` set (tb_inventory (tables s))) its' xs" and ok: "db_ok (tables s1)"
    and t: "tables s1 = (tables s)\<lparr>tb_inventory := foldl upsert_row (tb_inventory (tables s)) (map (store_item numcol) xs)\<rparr>"
    by auto
  moreover from this assms(5) have "its' = its" by (auto simp: acceptable_def dest: map_injective)
  ultimately obtain y where y: "y \<in> set (tb_inventory (tables s1))" "y = (store_item numcol (last its))\<lparr>i_ID := i_ID y\<rparr>"
    using orders_env.stored_last [OF env assms(5)] by fastforce
  have "Item_Validate dec (last its) = Ok ()" using assms(5) by (auto simp: acceptable_def list_all_iff)
  then have v: "IsSKU (i_SKU y)" "1 \<le> i_InventoryQuantity y" "i_SKU y = i_SKU (last its)"
    by (subst y(2), simp add: store_item_def Item_Validate_Ok_iff)+
  have "single_reply dec val y = single_reply dec val (store_item numcol (last its))"
    by (subst y(2)) (simp add: single_reply_def)
  with orders_env.ItemPrice_stored [OF env ok h y(1) v(1,2) _ assms(8)] assms(7) v(3) show ?thesis by (cases r) simp_all
qed

theorem add_then_price_witness:
  "fst (ItemPrice_handler dec10 demo_service demo_add_request [(''key'', ''120P90'')] (snd demo_add))
     \<in> {Ok (single_reply dec10 dec10_val (store_item (mem_numcol False) demo_item))} \<union> {Fail e |e. statusFor e = 500}"
proof -
  obtain payload where "demo_add = (Ok payload, snd demo_add)" using demo_add_ok by (metis is_ok_iff prod.collapse)
  then have add: "AddItems_handler dec10 demo_service demo_add_request [] (mem_with demo_rows) = (Ok payload, snd demo_add)"
    by (simp only: demo_add_def)
  obtain r s2 where run: "ItemPrice_handler dec10 demo_service demo_add_request [(''key'', ''120P90'')] (snd demo_add) = (r, s2)" by fastforce
  have key: "ByName [(''key'', ''120P90'')] ''key'' = i_SKU (last [demo_item])" by (simp add: demo_item_def ByName_def)
  from add_then_price [OF mem.gorm_axioms dec10.decimal_lib_axioms demo_ok demo_service_def demo_add_acceptable add key run]
  show ?thesis unfolding run by (cases r) simp_all
qed

text \<open>C37: Pricing a list. The answer covers the inventory rows whose SKU occurs in the request, each once: neither
  the number of times a SKU is requested nor an unknown SKU makes a difference, and an empty request prices the
  whole inventory. The total is the exact sum of the prices, rounded to a double; the discount is always zero,
  and the only deal that can apply is the free Raspberry Pi. No table changes.\<close>

theorem items_price:
  assumes "gorm dec g tables numcol timecol" and "decimal_lib dec val" and "db_ok (tables s)"
    and "ItemsPrice_handler dec (NewService dec (GormDB g) relayer authn) req p s = (Ok payload, s')"
  shows "tables s' = tables s \<and> (\<exists>pReq items. decode_body dec_items_price_request req = Ok pReq \<and>
    mset items = mset (selected (elems (ip_SKUs pReq)) (tb_inventory (tables s))) \<and>
    list_all (\<lambda>i. 1 \<le> i_InventoryQuantity i) items \<and> payload = priced_reply val (tb_inventory (tables s)) items)"
proof -
  note env = orders_env_GormDB [OF assms(1,2)]
  from orders_env.ItemsPrice_Ok [OF env assms(3) NewService_fields(1,2) assms(4)]
    orders_env.ItemsPrice_reads [OF env NewService_fields(1,2) assms(4)] show ?thesis by blast
qed

theorem items_price_witness:
  "\<exists>payload s' items. ItemsPrice_handler dec10 demo_service (demo_request [''43N23P'', ''43N23P'']) [] (mem_with demo_rows) = (Ok payload, s') \<and>
     mset items = mset (selected [''43N23P'', ''43N23P''] demo_rows) \<and> payload = priced_reply dec10_val demo_rows items"
proof -
  let ?run = "ItemsPrice_handler dec10 demo_service (demo_request [''43N23P'', ''43N23P'']) [] (mem_with demo_rows)"
  let ?skus = "[''43N23P'', ''43N23P'']" and ?row = "hd demo_rows"
  let ?g = "db_GetItemsBySKU (sv_store demo_service) ?skus (mem_with demo_rows)"
  have body: "decode_body dec_items_price_request (demo_request ?skus) = Ok \<lparr>ip_SKUs = Some ?skus\<rparr>" by code_simp
  have c: "check_skus ?skus = Ok ()" by code_simp
  have "fst ?g = Ok [?row]" by code_simp
  then obtain s1 where g: "?g = (Ok [?row], s1)" by (metis prod.collapse)
  have l: "price_loop dec10 [?row] ([], d_zero dec10) = Ok ([?row], d_add dec10 (d_zero dec10) (i_Price ?row))"
    by (simp add: demo_rows_def)
  have "is_ok (fst (ApplyPromotions (sv_promotionsEngine demo_service) [?row] (snd ?g)))" by code_simp
  then obtain promos s2 where a: "ApplyPromotions (sv_promotionsEngine demo_service) [?row] s1 = (Ok promos, s2)"
    unfolding g snd_conv by (metis is_ok_iff prod.collapse)
  from ItemsPrice_run [OF body, of demo_service, unfolded items_price_request.simps elems_def option.case, OF c g l a]
  obtain payload where run: "?run = (Ok payload, s2)" by blast
  have rows: "tb_inventory (m_tables (mem_with demo_rows)) = demo_rows" by (simp add: mem_with_def)
  from items_price [OF mem.gorm_axioms dec10.decimal_lib_axioms demo_ok run [unfolded demo_service_def]] body rows run
  show ?thesis by (auto simp: elems_def)
qed

text \<open>C34: The order history is private. The route that lists orders answers 401 without an accepted password;
  otherwise it lists exactly the orders of the customer the password belongs to, the most recent first, or
  answers 500 when the database fails. It changes nothing.\<close>

theorem orders_private:
  assumes "gorm dec g tables numcol timecol" and "decimal_lib dec val" and "fresh_writer w"
    and "ep \<in> set (RegisterHandlers dec version promhttp fresh (NewService dec (GormDB g) relayer (Authenticate users)))"
    and "ep_Path ep = OrdersEndPnt" and "ep_Handler ep req p (w, s) = (r, (w', s'))"
  shows "r = Ok () \<and> tables s' = tables s \<and> (case users (Header_Get req XAuthHeaderKey) of
      None \<Rightarrow> w_code w' = Some 401
    | Some customer \<Rightarrow> w_code w' = Some 500 \<or> w_code w' = Some 200 \<and> w_body w' = w_body w @ print_json (JArr (map (order_json dec)
        (rev (sort_key o_ID (filter (\<lambda>x. o_CustomerID x = customer) (tb_orders (tables s))))))))"
proof -
  note env = orders_env_GormDB [OF assms(1,2)]
  let ?h = "NewService dec (GormDB g) relayer (Authenticate users)"
  have ep: "ep_Handler ep = Auth (Authenticate users) (Handle dec (Orders_handler ?h))"
    using assms(4,5)
    by (auto simp: RegisterHandlers_def Routes_def AddEndpoints_def OrdersEndPnt_def StatusEndPnt_def HealthEndPnt_def
        ItemsEndPnt_def ItemPriceEndPnt_def ItemPurchaseEndPnt_def KeyParam_def)
  show ?thesis
  proof (cases "users (Header_Get req XAuthHeaderKey)")
    case None
    then have "Authenticate users (Header_Get req XAuthHeaderKey) = Fail ErrUnauthenticated" by (simp add: Authenticate_def)
    from Auth_reject [where authn = "Authenticate users" and s = s and h = "Handle dec (Orders_handler ?h)" and p = p,
        OF this assms(3)] ep assms(6) None
    show ?thesis by auto
  next
    case (Some customer)
    let ?req = "req\<lparr>r_Context := WithUserID (r_Context req) customer\<rparr>"
    obtain x s1 where o: "Orders_handler ?h ?req p s = (x, s1)" by fastforce
    note c = orders_env.Orders_cases [OF env NewService_fields(1) _ o, of customer]
    have "x \<noteq> Panic" using c by (cases x) simp_all
    have "ep_Handler ep req p = Handle dec (Orders_handler ?h) ?req p"
      using Some ep by (simp add: Authenticate_def Auth_def)
    with assms(6) have run: "Handle dec (Orders_handler ?h) ?req p (w, s) = (r, (w', s'))" by simp
    from Handle_reply [where h = "Orders_handler ?h" and req = ?req and p = p and s = s, OF assms(3) o \<open>x \<noteq> Panic\<close>, of dec] run
    have "r = Ok ()" "s' = s1" "w' = responded (fst (reply dec x)) (snd (reply dec x)) w" by simp_all
    with c Some show ?thesis by (cases x) (auto simp: reply_def responded_def marshal_payload_def)
  qed
qed

text \<open>The shop after a purchase by alice, and a request for her orders.\<close>

definition demo_endpoint :: "mem endpoint" where
  "demo_endpoint = \<lparr>ep_Path = OrdersEndPnt, ep_MethodType = ''GET'',
     ep_Handler = Auth (sv_authn demo_service) (Handle dec10 (Orders_handler demo_service))\<rparr>"

definition demo_get :: "string \<Rightarrow> request" where
  "demo_get password = (demo_request [])\<lparr>r_Method := ''GET'', r_Path := OrdersEndPnt, r_Header := [XAuthHeaderKey \<mapsto> password], r_Body := []\<rparr>"

lemma demo_endpoint_registered:
  "demo_endpoint \<in> set (RegisterHandlers dec10 ''v1'' (\<lambda>_ _. returnS ()) (\<lambda>_. (''r'', ''u'', demo_now)) demo_service)"
  by (simp add: RegisterHandlers_def Routes_def AddEndpoints_def demo_endpoint_def)

theorem orders_private_witness:
  "w_code (fst (snd (ep_Handler demo_endpoint (demo_get ''wrong'') [] (new_writer, snd (demo_run [''43N23P'']))))) = Some 401"
proof -
  let ?s = "snd (demo_run [''43N23P''])"
  obtain r w' s' where run: "ep_Handler demo_endpoint (demo_get ''wrong'') [] (new_writer, ?s) = (r, (w', s'))" by (metis surj_pair)
  have "fresh_writer new_writer" by (simp add: fresh_writer_def new_writer_def)
  moreover have "Header_Get (demo_get ''wrong'') XAuthHeaderKey = ''wrong''" by (simp add: Header_Get_def demo_get_def)
  ultimately show ?thesis
    using orders_private [OF mem.gorm_axioms dec10.decimal_lib_axioms _ demo_endpoint_registered [unfolded demo_service_def] _ run] run
    by (simp add: demo_endpoint_def)
qed

text \<open>C33: Writing needs a password. On every route of the orders service, a request whose credential the
  authenticator does not accept changes no table, and no request of any kind breaks the schema.\<close>

theorem routes_guarded:
  assumes "gorm dec g tables numcol timecol" and "decimal_lib dec val" and "db_ok (tables s)"
    and "ep \<in> set (RegisterHandlers dec version promhttp fresh (NewService dec (GormDB g) relayer authn))"
    and "\<And>t. tables (snd (rl_Ping relayer t)) = tables t" and "\<And>ws. tables (snd (snd (promhttp req p ws))) = tables (snd ws)"
    and "ep_Handler ep req p (w, s) = (r, (w', s'))"
  shows "db_ok (tables s') \<and> ((\<forall>u. authn (Header_Get req XAuthHeaderKey) \<noteq> Ok u) \<longrightarrow> tables s' = tables s)"
proof -
  let ?h = "NewService dec (GormDB g) relayer authn"
  have k: "keeps (\<lambda>t. tables t = T0) (rl_Ping (sv_relay ?h))" "keeps (\<lambda>ws. tables (snd ws) = T0) (promhttp req p)" for T0
    using assms(5,6) by (simp_all add: keeps_def)
  note g = orders_env.routes_frames [OF orders_env_GormDB [OF assms(1,2)] NewService_fields(1,2) assms(4) k]
  from keepsD [OF g(1) assms(7)] keepsD [OF g(2) assms(7)] assms(3) show ?thesis by simp
qed

theorem routes_guarded_witness:
  "m_tables (snd (snd (ep_Handler demo_endpoint (demo_get ''wrong'') [] (new_writer, mem_with demo_rows)))) = m_tables (mem_with demo_rows)"
proof -
  obtain r w' s' where run: "ep_Handler demo_endpoint (demo_get ''wrong'') [] (new_writer, mem_with demo_rows) = (r, (w', s'))" by (metis surj_pair)
  have "Header_Get (demo_get ''wrong'') XAuthHeaderKey = ''wrong''" by (simp add: Header_Get_def demo_get_def)
  then have "Authenticate [''secret'' \<mapsto> ''alice''] (Header_Get (demo_get ''wrong'') XAuthHeaderKey) \<noteq> Ok u" for u
    by (simp add: Authenticate_def)
  then show ?thesis
    using routes_guarded [OF mem.gorm_axioms dec10.decimal_lib_axioms demo_ok demo_endpoint_registered [unfolded demo_service_def] _ _ run] run
    by simp
qed

end
