(* ===== verification/System.thy ===== *)
theory System
  imports Notifier Catalog
begin

text \<open>
  The nodes of the system together: the routes of the orders service, the outbox relay and
  the notifier work on one database, one broker and one sink, and take turns between their
  calls. The locale \<open>side_db\<close> says what a database does not touch, \<open>checkout\<close> collects what
  the nodes rely on, and \<open>system_step\<close> is one step of any of them.
\<close>

section \<open>What the handlers leave alone\<close>

text \<open>A property of the state that no operation of the database affects.\<close>

locale side_db =
  fixes db :: "('d, 's) db_ops" and I :: "'s \<Rightarrow> bool"
  assumes side_Ping: "keeps I (db_Ping db)"
    and side_UpsertItems: "keeps I (db_UpsertItems db items)"
    and side_ListItems: "keeps I (db_ListItems db)"
    and side_GetItemByName: "keeps I (db_GetItemByName db name)"
    and side_GetItemBySKU: "keeps I (db_GetItemBySKU db sku)"
    and side_GetItemsBySKU: "keeps I (db_GetItemsBySKU db skus)"
    and side_AddOrder: "keeps I (db_AddOrder db ord)"
    and side_GetOrders: "keeps I (db_GetOrders db customer)"
    and side_AddOutboxItems: "keeps I (db_AddOutboxItems db obs)"
    and side_Transaction: "keeps I body \<Longrightarrow> keeps I (db_Transaction db body)"
begin

lemmas sides = side_UpsertItems side_ListItems side_GetItemByName side_GetItemBySKU side_GetItemsBySKU
  side_AddOrder side_GetOrders side_AddOutboxItems side_Transaction

lemma side_ApplyPromotions: "keeps I (ApplyPromotions (promotions_of dec db) items)"
  unfolding ApplyPromotions_def promotions_of_def apply_loop.simps MacBookProPromotion_Apply_def
    GoogleTVPromotion_Apply_def AlexaSpeakerPromotion_Apply_def
  by (auto intro!: keeps_intros sides split: option.split)

lemma side_added_loop: "keeps I (added_loop db reqSKUs added items counts skus)"
proof (induction added arbitrary: items counts skus)
  case (Cons it added)
  then show ?case by (auto simp: Let_def intro!: keeps_intros sides split: option.split)
qed simp

lemma side_handlers:
  assumes "sv_store h = db" "sv_promotionsEngine h = promotions_of dec db"
  shows "keeps I (ListItems_handler h req p)" "keeps I (ItemPrice_handler dec h req p)"
    "keeps I (ItemsPrice_handler dec h req p)" "keeps I (Orders_handler h req p)"
    "keeps I (AddItems_handler dec h req p)" "keeps I (PurchaseItems_handler dec h ref uid now req p)"
  unfolding ListItems_handler_def ItemPrice_handler_def ItemsPrice_handler_def Orders_handler_def AddItems_handler_def
    PurchaseItems_handler_def purchase_plan_def purchase_tx_def assms
  by (auto simp: Let_def split_beta intro!: keeps_intros sides side_ApplyPromotions side_added_loop split: option.split)

lemma side_routes:
  assumes "sv_store h = db" "sv_promotionsEngine h = promotions_of dec db"
    and "ep \<in> set (RegisterHandlers dec version promhttp fresh h)"
    and "keeps I (rl_Ping (sv_relay h))" and "keeps (\<lambda>ws. I (snd ws)) (promhttp req p)"
  shows "keeps (\<lambda>ws. I (snd ws)) (ep_Handler ep req p)"
  by (rule routes_keep [OF assms(3)]) (simp_all add: assms side_Ping side_handlers [OF assms(1,2)])

end

text \<open>The statements of the engine leave it alone, and a transaction does when its body does.\<close>

locale side_gorm =
  fixes g :: "('d, 's) gorm_ops" and I :: "'s \<Rightarrow> bool"
  assumes side_db: "keeps I (g_db g)" and side_ping: "keeps I (g_ping g)"
    and side_find_item: "keeps I (g_find_item g q)" and side_find_items: "keeps I (g_find_items g q)"
    and side_upsert: "keeps I (g_upsert_items g items)" and side_create_order: "keeps I (g_create_order g ord)"
    and side_find_orders: "keeps I (g_find_orders g oq)" and side_create_outbox: "keeps I (g_create_outbox g obs)"
    and side_tx: "keeps I body \<Longrightarrow> keeps I (g_tx g body)"

sublocale side_gorm \<subseteq> side_db "GormDB g" I
  by unfold_locales
    (auto simp: GormDB_def Ping_def UpsertItems_def ListItems_def getItems_def GetItemByName_def GetItemBySKU_def
      getItemByKey_def GetItemsBySKU_def AddOrder_def GetOrders_def AddOutboxItems_def Transaction_def
      intro!: keeps_intros side_db side_ping side_find_item side_find_items side_upsert side_create_order
        side_find_orders side_create_outbox side_tx split: option.split)

context side_gorm
begin

lemmas gorm_routes = side_routes

end

section \<open>What a purchase announces\<close>

lemma esc_sku:
  assumes "sku_char c"
  shows "esc_ascii c = [c]"
proof -
  have "list_all (\<lambda>d. \<not> sku_char d) [quote_char, backslash, CHR 0x08, CHR 0x0C, CHR 0x0A, CHR 0x0D, CHR 0x09, CHR ''<'', CHR ''>'', CHR ''&'']"
    by code_simp
  with assms have "c \<notin> {quote_char, backslash, CHR 0x08, CHR 0x0C, CHR 0x0A, CHR 0x0D, CHR 0x09, CHR ''<'', CHR ''>'', CHR ''&''}"
    by (metis insertE list.pred_inject(2) singletonD)
  moreover have "\<not> (of_char c :: nat) < 0x20" using assms by (auto simp: sku_char_def byte_in_def)
  ultimately show ?thesis by (simp add: esc_ascii_def)
qed

lemma quote_sku:
  assumes "list_all sku_char s"
  shows "quote_body s = s"
  using assms
proof (induction s)
  case (Cons c s)
  then show ?case by (simp add: quote_body.simps sku_char_ascii esc_sku)
qed (simp add: quote_body.simps)

lemma comma_sep_ascii: "list_all (list_all ascii) xs \<Longrightarrow> list_all ascii (comma_sep xs)"
  by (induction xs rule: comma_sep.induct) (simp_all add: ascii_def)

lemma sku_list_utf8:
  assumes "list_all IsSKU (elems skus)"
  shows "utf8_valid (print_json (json_slice JStr skus))"
proof (rule utf8_valid_ascii)
  have "list_all ascii (quote s)" if "IsSKU s" for s
    using that sku_char_ascii by (auto simp: IsSKU_def quote_def quote_sku list_all_iff ascii_def)
  with assms have "list_all ascii (comma_sep (map (print_json \<circ> JStr) (elems skus)))"
    by (intro comma_sep_ascii) (auto simp: list_all_iff)
  then show "list_all ascii (print_json (json_slice JStr skus))"
    by (cases skus) (simp_all add: json_slice_def elems_def ascii_def)
qed

text \<open>The reference, event identifier and time a purchase draws.\<close>

definition valid_stamp :: "string \<times> string \<times> time \<Rightarrow> bool" where
  "valid_stamp = (\<lambda>(ref, uid, now). ref \<noteq> [] \<and> utf8_valid ref \<and> uid \<noteq> [] \<and> utf8_valid uid \<and> time_ok now)"

lemma event_row_announces:
  assumes "event_row dec timecol uid now ord row" and "valid_stamp (o_Reference ord, uid, now)"
    and "utf8_valid (o_CustomerID ord)" and "utf8_valid (o_SKUList ord)" and "int64 (o_ID ord)"
  shows "announces dec (Event_New uid now TopicOrderCreated (o_Reference ord) (OrderData ord)) ord row"
  using assms by (simp add: announces_def event_row_def order_event_ok_def valid_stamp_def Event_New_def TopicOrderCreated_def)

section \<open>The invariant of the system\<close>

text \<open>A stored order and the outbox row of its event.\<close>

definition announced :: "'d decimal_ops \<Rightarrow> ('d \<Rightarrow> 'd) \<Rightarrow> 'd order \<Rightarrow> outbox_item \<Rightarrow> bool" where
  "announced dec numcol x r \<longleftrightarrow> (\<exists>e ord. announces dec e ord r \<and> x = store_order numcol ord)"

text \<open>The SKU list of a stored order decodes to well-formed SKUs.\<close>

definition order_typed :: "'d order \<Rightarrow> bool" where
  "order_typed x = (case GetSKUList x of Ok skus \<Rightarrow> list_all IsSKU (elems skus) | _ \<Rightarrow> False)"

text \<open>
  Orders and outbox rows correspond one to one, SKUs are well-formed, a published row is in
  the log, a delivered row is in the sink, and the batch the relay works on is known.
\<close>

definition system_inv ::
  "'d decimal_ops \<Rightarrow> ('d \<Rightarrow> 'd) \<Rightarrow> 'd tables \<Rightarrow> wire list \<Rightarrow> notification list \<Rightarrow> outbox_item list \<Rightarrow> bool" where
  "system_inv dec numcol T L N batch \<longleftrightarrow> relay_inv dec T L \<and> notify_inv T N \<and> snapshot dec T batch \<and>
     ob_ID ` set batch \<subseteq> ob_ID ` set (tb_outbox T) \<and>
     list_all (\<lambda>i. IsSKU (i_SKU i)) (tb_inventory T) \<and> list_all order_typed (tb_orders T) \<and>
     list_all2 (announced dec numcol) (tb_orders T) (tb_outbox T)"

lemma system_inv_ok: "system_inv dec numcol T L N batch \<Longrightarrow> db_ok T"
  by (simp add: system_inv_def relay_inv_def)

lemma list_all2_target: "list_all2 P xs ys \<Longrightarrow> x \<in> set xs \<Longrightarrow> \<exists>y \<in> set ys. P x y"
  by (induction rule: list_all2_induct) auto

lemma list_all2_function:
  assumes "list_all2 P xs ys" and "distinct ys"
  obtains f where "xs = map f ys" "\<And>y. y \<in> set ys \<Longrightarrow> P (f y) y"
proof -
  from assms have "\<exists>f. xs = map f ys \<and> (\<forall>y \<in> set ys. P (f y) y)"
  proof (induction rule: list_all2_induct)
    case (Cons x xs y ys)
    then obtain f where "xs = map f ys" "\<forall>y \<in> set ys. P (f y) y" by auto
    with Cons show ?case by (intro exI [of _ "f(y := x)"]) auto
  qed simp
  with that show thesis by blast
qed

lemma announced_pairs:
  assumes "list_all2 (announced dec numcol) xs rows" and "distinct rows"
  obtains x_of ev_of ord_of where "xs = map x_of rows" "\<And>r. r \<in> set rows \<Longrightarrow> announces dec (ev_of r) (ord_of r) r"
    "\<And>r. r \<in> set rows \<Longrightarrow> x_of r = store_order numcol (ord_of r)"
proof -
  from list_all2_function [OF assms] obtain x_of where "xs = map x_of rows" "\<And>r. r \<in> set rows \<Longrightarrow> announced dec numcol (x_of r) r" by blast
  with that show thesis unfolding announced_def by metis
qed

lemma undelivered_marked:
  assumes "filter undelivered rows = filter (\<lambda>r. ob_EventID r \<notin> ids) rows'" and "r \<in> set rows" and "ob_EventID r \<in> ids"
  shows "ob_DeliveredAt r \<noteq> None"
proof
  assume "ob_DeliveredAt r = None"
  with assms(2) have "r \<in> set (filter undelivered rows)" by (simp add: undelivered_def)
  with assms(3) show False unfolding assms(1) by simp
qed

lemma forwarded_events:
  assumes "forwarded rows rows'"
  shows "ob_EventID ` set rows = ob_EventID ` set rows'"
proof -
  from assms have "map ob_EventID rows = map ob_EventID rows'"
    unfolding forwarded_def by (induction rule: list_all2_induct) auto
  then show ?thesis by (metis image_set)
qed

lemma list_all2_source: "list_all2 P xs ys \<Longrightarrow> y \<in> set ys \<Longrightarrow> \<exists>x \<in> set xs. P x y"
  by (induction rule: list_all2_induct) auto

text \<open>Stamping rows keeps their identifiers and messages, and with them the correspondence.\<close>

definition restamped :: "outbox_item list \<Rightarrow> outbox_item list \<Rightarrow> bool" where
  "restamped = list_all2 (\<lambda>r r'. ob_ID r' = ob_ID r \<and> ob_EventID r' = ob_EventID r \<and> row_wire r' = row_wire r)"

lemma forwarded_restamped: "forwarded rows rows' \<Longrightarrow> restamped rows rows'"
  unfolding forwarded_def restamped_def by (erule list_all2_mono) auto

lemma delivered_restamped: "delivered_to rows rows' \<Longrightarrow> restamped rows rows'"
  unfolding delivered_to_def restamped_def by (erule list_all2_mono) auto

lemma restamped_columns:
  "restamped rows rows' \<Longrightarrow> map ob_ID rows' = map ob_ID rows \<and> map row_wire rows' = map row_wire rows"
  unfolding restamped_def by (induction rule: list_all2_induct) auto

lemma announced_cong:
  "ob_EventID r' = ob_EventID r \<Longrightarrow> row_wire r' = row_wire r \<Longrightarrow> announced dec numcol x r \<Longrightarrow> announced dec numcol x r'"
  by (auto simp: announced_def announces_def row_wire_def)

lemma restamped_announced:
  assumes "list_all2 (announced dec numcol) xs rows" and "restamped rows rows'"
  shows "list_all2 (announced dec numcol) xs rows'"
  using assms(1) assms(2) [unfolded restamped_def] by (rule list_all2_trans [rotated]) (auto intro: announced_cong)

lemma snapshot_restamped: "snapshot dec T batch \<Longrightarrow> restamped (tb_outbox T) rows \<Longrightarrow> snapshot dec (T\<lparr>tb_outbox := rows\<rparr>) batch"
  unfolding snapshot_def restamped_def by (fastforce dest: list_all2_source)

lemma system_inv_relayed:
  assumes "system_inv dec numcol T L N batch" and "relayed dec (T, L) (T', L')"
  shows "system_inv dec numcol T' L' N batch"
proof -
  from assms(2) obtain rows where T': "T' = T\<lparr>tb_outbox := rows\<rparr>" unfolding relayed_def by blast
  from assms(2) have fw: "forwarded (tb_outbox T) (tb_outbox T')" and inv: "relay_inv dec T' L'" by (simp_all only: relayed_def prod.case)
  note rs = forwarded_restamped [OF fw]
  have ids: "ob_ID ` set (tb_outbox T') = ob_ID ` set (tb_outbox T)"
    using restamped_columns [OF rs] by (metis list.set_map)
  have "\<exists>q \<in> set (tb_outbox T). ob_DeliveredAt r = ob_DeliveredAt q \<and> ob_EventID r = ob_EventID q" if "r \<in> set (tb_outbox T')" for r
    using list_all2_source [OF fw [unfolded forwarded_def] that] by auto
  then have "notify_inv T' N"
    using assms(1) inv unfolding system_inv_def notify_inv_def relay_inv_def by metis
  moreover have "list_all2 (announced dec numcol) (tb_orders T') (tb_outbox T')" "snapshot dec T' batch"
    using assms(1) restamped_announced [OF _ rs] snapshot_restamped [OF _ rs] T' by (auto simp: system_inv_def)
  moreover have "tb_inventory T' = tb_inventory T" "tb_orders T' = tb_orders T" using T' by simp_all
  ultimately show ?thesis using assms(1) inv ids by (simp add: system_inv_def)
qed

lemma system_inv_notified:
  assumes "system_inv dec numcol T L N batch" and "notified (T, N) (T', N')"
  shows "system_inv dec numcol T' L N' batch"
proof -
  from assms(2) obtain rows where T': "T' = T\<lparr>tb_outbox := rows\<rparr>" unfolding notified_def by blast
  from assms(2) have dl: "delivered_to (tb_outbox T) (tb_outbox T')" and inv: "notify_inv T' N'" by (simp_all only: notified_def prod.case)
  note rs = delivered_restamped [OF dl]
  have ids: "ob_ID ` set (tb_outbox T') = ob_ID ` set (tb_outbox T)"
    using restamped_columns [OF rs] by (metis list.set_map)
  have "\<exists>q \<in> set (tb_outbox T). ob_PublishedAt r = ob_PublishedAt q \<and> row_wire r = row_wire q \<and> shippable dec r = shippable dec q"
    if "r \<in> set (tb_outbox T')" for r
    using list_all2_source [OF dl [unfolded delivered_to_def] that] by auto
  then have "relay_inv dec T' L"
    using assms(1) inv unfolding system_inv_def notify_inv_def relay_inv_def by metis
  moreover have "list_all2 (announced dec numcol) (tb_orders T') (tb_outbox T')" "snapshot dec T' batch"
    using assms(1) restamped_announced [OF _ rs] snapshot_restamped [OF _ rs] T' by (auto simp: system_inv_def)
  moreover have "tb_inventory T' = tb_inventory T" "tb_orders T' = tb_orders T" using T' by simp_all
  ultimately show ?thesis using assms(1) inv ids by (simp add: system_inv_def)
qed

lemma system_inv_batch:
  assumes "system_inv dec numcol T L N batch"
  shows "set items \<subseteq> set (tb_outbox T) \<Longrightarrow> system_inv dec numcol T L N items"
    and "batch = item # items \<Longrightarrow> system_inv dec numcol T L N items \<and> snapshot dec T [item]"
  using assms snapshot_rows [of dec T L items] by (auto simp: system_inv_def snapshot_def)

lemma system_inv_inventory:
  assumes "system_inv dec numcol T L N batch" and "db_ok (T\<lparr>tb_inventory := rows\<rparr>)" and "list_all (\<lambda>i. IsSKU (i_SKU i)) rows"
  shows "system_inv dec numcol (T\<lparr>tb_inventory := rows\<rparr>) L N batch"
  using assms by (simp add: system_inv_def relay_inv_def notify_inv_def snapshot_def)

text \<open>A new order with the row of its event.\<close>

lemma system_inv_order:
  assumes "decimal_lib dec val" and inv: "system_inv dec numcol T L N batch" and ann: "announces dec e ord row"
    and "order_typed (store_order numcol ord)" and "ob_PublishedAt row = None" "ob_DeliveredAt row = None" "\<forall>q \<in> set (tb_outbox T). ob_ID q < ob_ID row"
    and ok: "db_ok (T\<lparr>tb_orders := tb_orders T @ [store_order numcol ord], tb_outbox := tb_outbox T @ [row]\<rparr>)"
  shows "system_inv dec numcol (T\<lparr>tb_orders := tb_orders T @ [store_order numcol ord], tb_outbox := tb_outbox T @ [row]\<rparr>) L N batch"
proof -
  have "shippable dec row" by (rule decimal_lib.announced_shippable [OF assms(1) ann])
  moreover have "announced dec numcol (store_order numcol ord) row" using ann by (auto simp: announced_def)
  moreover have "ob_ID row \<noteq> ob_ID it" if "it \<in> set batch" for it using inv that assms(7) by (fastforce simp: system_inv_def)
  ultimately show ?thesis
    using inv ok assms(4-6)
    by (auto simp: system_inv_def relay_inv_def notify_inv_def snapshot_def list_all2_appendI)
qed

section \<open>Requests keep the invariant\<close>

lemma fills_skus: "fills used its xs \<Longrightarrow> map i_SKU xs = map i_SKU its"
proof (induction used its xs rule: fills.induct)
  case (2 used i xs i' ys)
  then have "i_SKU i' = i_SKU i" by (metis fills.simps(2) item.select_convs(2) item.surjective item.update_convs(1))
  with 2 show ?case by simp
qed simp_all

lemma foldl_upsert_set: "set (foldl upsert_row rows xs) \<subseteq> set rows \<union> set xs"
  by (induction xs arbitrary: rows) (fastforce simp: upsert_row_def split: if_splits)+

lemma fold_overwrite_sku: "i_SKU (fold overwrite xs r) \<in> insert (i_SKU r) (i_SKU ` set xs)"
  by (induction xs arbitrary: r) (fastforce simp: overwrite_def split: if_splits)+

text \<open>The SKUs of a plan are SKUs of the inventory, and so are those that its order lists.\<close>

lemma plan_skus:
  assumes "plan_for T ref customer reqSKUs dbItems pl" and "list_all (\<lambda>i. IsSKU (i_SKU i)) (tb_inventory T)"
    and "list_all IsSKU (elems reqSKUs)"
  shows "list_all (\<lambda>i. IsSKU (i_SKU i)) (pl_items pl)" and "utf8_valid (o_SKUList (pl_order pl))" and "order_typed (pl_order pl)"
proof -
  let ?free = "granted (tb_inventory T) dbItems (elems reqSKUs)"
  have "set dbItems \<subseteq> set (tb_inventory T)" using assms(1) set_selection unfolding plan_for_def Let_def by fastforce
  moreover have free: "set ?free \<subseteq> set (tb_inventory T)" by (auto simp: granted_def free_raspberry_def)
  ultimately show "list_all (\<lambda>i. IsSKU (i_SKU i)) (pl_items pl)"
    using assms(1,2) by (auto simp: plan_for_def Let_def list_all_iff deducted_def take_one_def)
  let ?skus = "if ?free = [] then reqSKUs else Some (elems reqSKUs @ map i_SKU ?free)"
  have skus: "list_all IsSKU (elems ?skus)" using free assms(2,3) by (auto simp: list_all_iff elems_def)
  have list: "o_SKUList (pl_order pl) = print_json (json_slice JStr ?skus)" using assms(1) by (simp add: plan_for_def Let_def)
  from sku_list_utf8 [OF skus] show "utf8_valid (o_SKUList (pl_order pl))" by (simp only: list)
  have "GetSKUList (SetSKUList (pl_order pl) ?skus) = Ok ?skus"
    using skus IsSKU_utf8 by (intro GetSKUList_SetSKUList) (auto simp: elems_def list_all_iff split: if_splits)
  with skus list show "order_typed (pl_order pl)" by (simp add: order_typed_def GetSKUList_def SetSKUList_def)
qed

context orders_env
begin

lemma reads_keep:
  assumes "\<And>T0. keeps (\<lambda>t. tables t = T0) m"
  shows "keeps (\<lambda>t. P (tables t)) m"
proof
  fix s assume "P (tables s)"
  moreover have "tables (snd (m s)) = tables s" using assms [of "tables s"] by (simp add: keeps_def)
  ultimately show "P (tables (snd (m s)))" by simp
qed

lemma AddItems_keeps_inv:
  assumes "sv_store h = db"
  shows "keeps (\<lambda>t. system_inv dec numcol (tables t) L N batch) (AddItems_handler dec h req p)"
proof
  fix s assume inv: "system_inv dec numcol (tables s) L N batch"
  obtain r s' where run: "AddItems_handler dec h req p s = (r, s')" by fastforce
  note c = AddItems_cases [OF system_inv_ok [OF inv] assms run]
  show "system_inv dec numcol (tables (snd (AddItems_handler dec h req p s))) L N batch"
  proof (cases r)
    case (Ok payload)
    with c obtain its xs where ok: "db_ok (tables s')" and acc: "acceptable dec req its" and f: "fills (i_ID ` set (tb_inventory (tables s))) its xs"
      and t: "tables s' = (tables s)\<lparr>tb_inventory := foldl upsert_row (tb_inventory (tables s)) (map (store_item numcol) xs)\<rparr>" by auto
    have "IsSKU sku" if "sku \<in> i_SKU ` set its" for sku
      using acc that by (auto simp: acceptable_def list_all_iff Item_Validate_Ok_iff)
    then have "list_all (\<lambda>i. IsSKU (i_SKU i)) (map (store_item numcol) xs)"
      using fills_skus [OF f] by (auto simp: list_all_iff store_item_def) (metis image_eqI list.set_map)
    moreover have "list_all (\<lambda>i. IsSKU (i_SKU i)) (tb_inventory (tables s))" using inv by (simp add: system_inv_def)
    ultimately have "list_all (\<lambda>i. IsSKU (i_SKU i)) (foldl upsert_row (tb_inventory (tables s)) (map (store_item numcol) xs))"
      using foldl_upsert_set [of "tb_inventory (tables s)" "map (store_item numcol) xs"] unfolding list_all_iff by blast
    with system_inv_inventory [OF inv] ok t run show ?thesis by simp
  qed (use c run inv in auto)
qed

lemma Purchase_keeps_inv:
  assumes h: "sv_store h = db" "sv_promotionsEngine h = promotions_of dec db" and "valid_stamp (ref, uid, now)"
    and user: "\<And>u. UserID (r_Context req) = Some u \<Longrightarrow> utf8_valid u"
  shows "keeps (\<lambda>t. system_inv dec numcol (tables t) L N batch) (PurchaseItems_handler dec h ref uid now req p)"
proof
  fix s assume inv: "system_inv dec numcol (tables s) L N batch"
  obtain r s' where run: "PurchaseItems_handler dec h ref uid now req p s = (r, s')" by fastforce
  show "system_inv dec numcol (tables (snd (PurchaseItems_handler dec h ref uid now req p s))) L N batch"
  proof (cases r)
    case (Ok payload)
    let ?T = "tables s"
    show ?thesis
    proof (rule PurchaseItems_commit [OF system_inv_ok [OF inv] h run [unfolded Ok]])
      fix customer pReq dbItems pl ord row
      assume P: "UserID (r_Context req) = Some customer" "list_all IsSKU (elems (pr_SKUs pReq))"
        "plan_for ?T ref customer (pr_SKUs pReq) dbItems pl"
        "ord = (pl_order pl)\<lparr>o_ID := o_ID ord\<rparr>" "int64 (o_ID ord)" "event_row dec timecol uid now ord row"
        "\<forall>q \<in> set (tb_outbox ?T). ob_ID q < ob_ID row" "tables s' = after_purchase numcol ?T pl ord row" "db_ok (tables s')"
      have skus: "list_all (\<lambda>i. IsSKU (i_SKU i)) (tb_inventory ?T)" using inv by (simp add: system_inv_def)
      note ps = plan_skus [OF P(3) skus P(2)]
      have o: "o_Reference ord = ref" "o_CustomerID ord = customer" "o_SKUList ord = o_SKUList (pl_order pl)"
        using P(3) by (subst P(4), simp add: plan_for_def Let_def)+
      have ann: "announces dec (Event_New uid now TopicOrderCreated (o_Reference ord) (OrderData ord)) ord row"
        by (rule event_row_announces [OF P(6)]) (use o ps(2) user [OF P(1)] assms(3) P(5) in simp_all)
      let ?rows = "map (fold overwrite (map (store_item numcol) (pl_items pl))) (tb_inventory ?T)"
      have "IsSKU (i_SKU (fold overwrite (map (store_item numcol) (pl_items pl)) r))" if "r \<in> set (tb_inventory ?T)" for r
        using fold_overwrite_sku [of "map (store_item numcol) (pl_items pl)" r] ps(1) skus that
        by (auto simp: list_all_iff store_item_def)
      then have rows: "list_all (\<lambda>i. IsSKU (i_SKU i)) ?rows" by (simp add: list_all_iff)
      have t: "tables s' = (?T\<lparr>tb_orders := tb_orders ?T @ [store_order numcol ord], tb_outbox := tb_outbox ?T @ [row]\<rparr>)\<lparr>tb_inventory := ?rows\<rparr>"
        using P(8) by (simp add: after_purchase_def)
      have "db_ok (?T\<lparr>tb_orders := tb_orders ?T @ [store_order numcol ord], tb_outbox := tb_outbox ?T @ [row]\<rparr>)"
        using P(9) system_inv_ok [OF inv] unfolding t by (simp add: db_ok_def)
      have ty: "order_typed (store_order numcol ord)"
        using ps(3) o(3) by (simp add: order_typed_def GetSKUList_def store_order_def)
      from \<open>db_ok (?T\<lparr>tb_orders := tb_orders ?T @ [store_order numcol ord], tb_outbox := tb_outbox ?T @ [row]\<rparr>)\<close>
        system_inv_order [OF decimal_lib_axioms inv ann ty _ _ P(7)] P(6)
      have "system_inv dec numcol (?T\<lparr>tb_orders := tb_orders ?T @ [store_order numcol ord], tb_outbox := tb_outbox ?T @ [row]\<rparr>) L N batch"
        by (simp add: event_row_def)
      from system_inv_inventory [OF this _ rows] P(9) show ?thesis unfolding run snd_conv t by simp
    qed
  qed (use PurchaseItems_no_effect [OF h run] run inv in auto)
qed

end

section \<open>The steps of the nodes\<close>

text \<open>
  The state of the system: the shared state, the rows the relay has claimed and not yet
  handled, and the events the notifier has polled and not yet dispatched. A request runs to
  its end; the loops are interleaved between their calls.
\<close>

inductive system_step ::
  "'d decimal_ops \<Rightarrow> 's endpoint list \<Rightarrow> ('d, 's) outbox_relayer \<Rightarrow> ('d, 's) notifier_service \<Rightarrow> ('s \<Rightarrow> time) \<Rightarrow>
   's \<times> outbox_item list \<times> 'd event list \<Rightarrow> 's \<times> outbox_item list \<times> 'd event list \<Rightarrow> bool"
  for dec :: "'d decimal_ops" and routes :: "'s endpoint list" and rl :: "('d, 's) outbox_relayer"
    and n :: "('d, 's) notifier_service" and clock :: "'s \<Rightarrow> time"
where
  Request: "ep \<in> set routes \<Longrightarrow> ep_Handler ep req p (w, s) = (r, (w', s')) \<Longrightarrow>
    system_step dec routes rl n clock (s, batch, polled) (s', batch, polled)"
| Claim: "claim rl s = (Ok items, s') \<Longrightarrow> system_step dec routes rl n clock (s, [], polled) (s', items, polled)"
| Claim_fails: "claim rl s = (Fail e, s') \<Longrightarrow> system_step dec routes rl n clock (s, [], polled) (s', [], polled)"
| Publish: "publish rl clock item s = (r, s') \<Longrightarrow>
    system_step dec routes rl n clock (s, item # items, polled) (s', items, polled)"
| Poll: "con_Poll (ns_consumer n) s = (Ok evs, s') \<Longrightarrow> system_step dec routes rl n clock (s, batch, []) (s', batch, evs)"
| Poll_fails: "con_Poll (ns_consumer n) s = (Fail e, s') \<Longrightarrow> system_step dec routes rl n clock (s, batch, []) (s', batch, [])"
| Dispatch: "dispatch dec n clock ev s = (r, s') \<Longrightarrow>
    system_step dec routes rl n clock (s, batch, ev # evs) (s', batch, evs)"
| Commit: "con_Commit (ns_consumer n) s = (r, s') \<Longrightarrow> system_step dec routes rl n clock (s, batch, []) (s', batch, [])"

inductive_cases system_stepE: "system_step dec routes rl n clock x y"

text \<open>What the nodes rely on: database, broker and sink do not affect each other.\<close>

locale checkout = broker_db dec g k tables numcol timecol blog + notifier_node dec g tables numcol timecol o_sink sunk k
    + decimal_lib dec val
  for dec :: "'d decimal_ops" and g :: "('d, 's) gorm_ops" and k :: "'s kgo_ops" and tables :: "'s \<Rightarrow> 'd tables"
    and numcol :: "'d \<Rightarrow> 'd" and timecol :: "time \<Rightarrow> time" and blog :: "'s \<Rightarrow> wire list"
    and o_sink :: "'s sink_ops" and sunk :: "'s \<Rightarrow> notification list" and val :: "'d \<Rightarrow> rat" +
  assumes engine_side: "side_gorm g (\<lambda>t. blog t = L \<and> sunk t = N)"
    and find_outbox_sunk: "g_find_outbox g bq s = (rs, s') \<Longrightarrow> sunk s' = sunk s"
    and produce_sunk: "k_ProduceSync k rec s = (r, s') \<Longrightarrow> sunk s' = sunk s"
    and poll_blog: "k_PollFetches k s = (fs, s') \<Longrightarrow> blog s' = blog s"
    and commit_blog: "k_CommitUncommittedOffsets k s = (r, s') \<Longrightarrow> blog s' = blog s"
    and info_blog: "blog (sk_info o_sink note s) = blog s"
    and println_blog: "sk_println o_sink line s = (r, s') \<Longrightarrow> blog s' = blog s"
    and broker_ping: "k_Ping k s = (r, s') \<Longrightarrow> tables s' = tables s \<and> blog s' = blog s \<and> sunk s' = sunk s"

text \<open>The nodes as the commands build them, on one database, one broker and one sink.\<close>

definition deployed ::
  "'d decimal_ops \<Rightarrow> ('d, 's) gorm_ops \<Rightarrow> 's kgo_ops \<Rightarrow> 's sink_ops \<Rightarrow> 's endpoint list \<Rightarrow> ('d, 's) outbox_relayer \<Rightarrow>
   ('d, 's) notifier_service \<Rightarrow> bool" where
  "deployed dec g k o_sink routes rl n \<longleftrightarrow>
     or_outboxStore rl = GormDB g \<and> or_publisher rl = kafka_publisher dec k \<and>
     ns_store n = GormDB g \<and> (\<exists>c. ns_consumer n = kafka_consumer k c) \<and> (\<exists>path s0 s1. NewSink o_sink path s0 = (Ok (ns_sink n), s1)) \<and>
     (\<exists>version promhttp fresh users. (\<forall>req p ws. snd (snd (promhttp req p ws)) = snd ws) \<and> (\<forall>req. valid_stamp (fresh req)) \<and>
        (\<forall>u \<in> ran users. utf8_valid u) \<and>
        routes = RegisterHandlers dec version promhttp fresh (NewService dec (GormDB g) (relayer_of rl) (Authenticate users)))"

context checkout
begin

lemma orders_env: "orders_env dec (GormDB g) tables numcol timecol val"
  by (rule orders_env_GormDB [OF gorm_axioms decimal_lib_axioms])

lemma publish_sunk:
  assumes "or_outboxStore rl = GormDB g" "or_publisher rl = kafka_publisher dec k" "publish rl clock item s = (r, s')"
  shows "sunk s' = sunk s"
proof -
  have pub: "sunk s2 = sunk s1" if "kafka_Publish dec k ev s1 = (r1, s2)" for ev s1 r1 s2
    using that produce_sunk by (cases "Encode dec (Some ev)") (auto simp: kafka_Publish_def go_simps)
  have mark: "sunk s2 = sunk s1" if "db_SetPublishedAt (GormDB g) uid t s1 = (r1, s2)" for uid t s1 r1 s2
    using strict_update_state [of _ "g_update_outbox g [OutboxIdEq uid] PublishedAtCol t" s1] that
    by (auto simp: GormDB_def SetPublishedAt_def setOutboxTimestamp_def prod_eq_iff intro: update_outbox_sunk)
  from assms show ?thesis
    by (auto simp: publish_def kafka_publisher_def split: res.splits prod.splits dest!: pub mark)
qed

lemma sink_blog:
  assumes "NewSink o_sink path s0 = (Ok sink, s1)" and "sink note s = (r, s')"
  shows "blog s' = blog s"
proof -
  have fs: "blog s2 = blog t" if "fileSink o_sink note t = (r2, s2)" for t r2 s2
    using that by (auto simp: fileSink_def println_blog split: option.splits)
  from assms show ?thesis
    by (auto simp: NewSink_def bindS_def terminalSink_def info_blog split: if_splits prod.splits res.splits dest!: fs)
qed

lemma dispatch_blog:
  assumes "ns_store n = GormDB g" "NewSink o_sink path s0 = (Ok (ns_sink n), s1)" "dispatch dec n clock ev s = (r, s')"
  shows "blog s' = blog s"
proof -
  have mark: "blog s3 = blog s2" if "db_SetDeliveredByEventID (GormDB g) eid t s2 = (r1, s3)" for eid t s2 r1 s3
    using strict_update_state [of _ "g_update_outbox g [EventIdEq eid] DeliveredAtCol t" s2] that
    by (auto simp: GormDB_def SetDeliveredByEventID_def prod_eq_iff intro: update_outbox_blog)
  from assms show ?thesis
    by (auto simp: dispatch_def split: res.splits prod.splits dest!: mark sink_blog [OF assms(2)])
qed

lemma consumer_blog:
  "kafka_Poll k c s = (evs, s') \<Longrightarrow> blog s' = blog s" "kafka_Commit k c s = (r, s') \<Longrightarrow> blog s' = blog s"
proof -
  assume p: "kafka_Poll k c s = (evs, s')"
  show "blog s' = blog s"
  proof (cases "kc_group c = []")
    case False
    obtain fs s1 where f: "k_PollFetches k s = (fs, s1)" by fastforce
    from poll_blog [OF f] False p f show ?thesis
      by (cases fs) (auto simp: kafka_Poll_def bindS_def Let_def split: option.splits prod.splits if_splits)
  qed (use p in \<open>auto simp: kafka_Poll_def\<close>)
qed (auto simp: kafka_Commit_def commit_blog split: if_splits)

lemma consumer_frames:
  "kafka_Poll k c s = (evs, s') \<Longrightarrow> tables s' = tables s \<and> sunk s' = sunk s \<and> blog s' = blog s"
  "kafka_Commit k c s = (r, s') \<Longrightarrow> tables s' = tables s \<and> sunk s' = sunk s \<and> blog s' = blog s"
  using kafka_Poll_frame kafka_Commit_frame consumer_blog by blast+

text \<open>The invariant on the shared state and the claimed rows.\<close>

definition system_ok :: "'s \<times> outbox_item list \<times> 'd event list \<Rightarrow> bool" where
  "system_ok = (\<lambda>(s, batch, polled). system_inv dec numcol (tables s) (blog s) (sunk s) batch)"

lemma request_inv:
  assumes d: "deployed dec g k o_sink routes rl n" and ep: "ep \<in> set routes"
    and run: "ep_Handler ep req p (w, s) = (r, (w', s'))" and i: "system_inv dec numcol (tables s) (blog s) (sunk s) batch"
  shows "system_inv dec numcol (tables s') (blog s') (sunk s') batch"
proof -
  from d obtain version promhttp fresh users where prom: "\<And>req p ws. snd (snd (promhttp req p ws)) = snd ws"
    and stamp: "\<And>req. valid_stamp (fresh req)" and users: "\<forall>u \<in> ran users. utf8_valid u"
    and routes: "routes = RegisterHandlers dec version promhttp fresh (NewService dec (GormDB g) (relayer_of rl) (Authenticate users))"
    unfolding deployed_def by blast
  let ?h = "NewService dec (GormDB g) (relayer_of rl) (Authenticate users)"
  have ping: "rl_Ping (relayer_of rl) = k_Ping k"
    using d by (simp add: deployed_def relayer_of_def Relayer_Ping_def kafka_publisher_def kafka_Ping_def)
  have k_ping: "keeps (\<lambda>t. P (tables t) \<and> blog t = L \<and> sunk t = N) (k_Ping k)" for P L N
    unfolding keeps_def using broker_ping by (metis prod.collapse)
  note cat = orders_env.keeps_catalogue [OF orders_env NewService_fields(1,2)]
    and add = orders_env.AddItems_keeps_inv [OF orders_env NewService_fields(1)]
  note reads = orders_env.reads_keep [OF orders_env, where P = "\<lambda>T. system_inv dec numcol T (blog s) (sunk s) batch"]
  have k_prom: "keeps (\<lambda>ws. I (snd ws)) (promhttp req p)" for I :: "'s \<Rightarrow> bool" using prom by (simp add: keeps_def)
  have frame: "blog s' = blog s \<and> sunk s' = sunk s"
    using keepsD [OF side_gorm.gorm_routes [OF engine_side [of "blog s" "sunk s"] NewService_fields(1,2) ep [unfolded routes] _ k_prom] run]
      k_ping [of "\<lambda>_. True"] by (simp add: ping)
  have user: "UserID (r_Context (req\<lparr>r_Context := WithUserID (r_Context req) u\<rparr>)) = Some v \<Longrightarrow>
      Authenticate users (Header_Get req XAuthHeaderKey) = Ok u \<Longrightarrow> utf8_valid v" for u v
    using users by (auto simp: Authenticate_def ran_def split: option.splits)
  have "keeps (\<lambda>ws. system_inv dec numcol (tables (snd ws)) (blog s) (sunk s) batch) (ep_Handler ep req p)"
  proof (rule routes_keep [OF ep [unfolded routes], where I = "\<lambda>t. system_inv dec numcol (tables t) (blog s) (sunk s) batch"])
    show "keeps (\<lambda>t. system_inv dec numcol (tables t) (blog s) (sunk s) batch) (rl_Ping (sv_relay ?h))"
      unfolding NewService_fields(3) ping keeps_def using broker_ping by (metis prod.collapse)
    show "keeps (\<lambda>t. system_inv dec numcol (tables t) (blog s) (sunk s) batch)
        (PurchaseItems_handler dec ?h ref uid now (req\<lparr>r_Context := WithUserID (r_Context req) u\<rparr>) p)"
      if "sv_authn ?h (Header_Get req XAuthHeaderKey) = Ok u" "fresh (req\<lparr>r_Context := WithUserID (r_Context req) u\<rparr>) = (ref, uid, now)" for u ref uid now
      using orders_env.Purchase_keeps_inv [OF orders_env NewService_fields(1,2)] that user [of u] stamp by (metis NewService_fields(4))
    show "keeps (\<lambda>t. system_inv dec numcol (tables t) (blog s) (sunk s) batch) (db_Ping (sv_store ?h))"
      unfolding NewService_fields by (intro reads orders_env.keeps_Ping [OF orders_env])
    show "keeps (\<lambda>ws. system_inv dec numcol (tables (snd ws)) (blog s) (sunk s) batch) (promhttp req p)" by (rule k_prom)
  qed (intro reads cat add)+
  from keepsD [OF this run] i frame show ?thesis by simp
qed

lemma step_ok:
  assumes d: "deployed dec g k o_sink routes rl n" and "system_step dec routes rl n clock x y" and "system_ok x"
  shows "system_ok y"
proof -
  from d obtain c where con: "ns_consumer n = kafka_consumer k c" unfolding deployed_def by blast
  show ?thesis using assms(2,3)
  proof (induction rule: system_step.induct)
    case (Request ep req p w s r w' s' batch polled)
    with request_inv [OF d Request(1,2)] show ?case by (simp add: system_ok_def)
  next
    case (Claim s items s' polled)
    from d have rl: "or_outboxStore rl = GormDB g" by (simp add: deployed_def)
    have "sunk s' = sunk s"
      using Claim(1) unfolding claim_def rl GormDB_def GetOutboxItems_def db_ops.simps by (rule find_outbox_sunk)
    with relay.claim_cases [OF rl Claim(1)] Claim(2) system_inv_batch(1) outbox_view_subset show ?case
      by (fastforce simp: system_ok_def)
  next
    case (Claim_fails s e s' polled)
    from d have rl: "or_outboxStore rl = GormDB g" by (simp add: deployed_def)
    have "sunk s' = sunk s"
      using Claim_fails(1) unfolding claim_def rl GormDB_def GetOutboxItems_def db_ops.simps by (rule find_outbox_sunk)
    with relay.claim_cases [OF rl Claim_fails(1)] Claim_fails(2) show ?case by (simp add: system_ok_def)
  next
    case (Publish item s r s' items polled)
    from d have rl: "or_outboxStore rl = GormDB g" "or_publisher rl = kafka_publisher dec k" by (simp_all add: deployed_def)
    from Publish(2) have i: "system_inv dec numcol (tables s) (blog s) (sunk s) (item # items)" by (simp add: system_ok_def)
    note b = system_inv_batch(2) [OF i refl]
    from i have "relay_inv dec (tables s) (blog s)" by (simp add: system_inv_def)
    from relay.publish_relayed [OF rl this _ Publish(1)] b publish_sunk [OF rl Publish(1)] show ?case
      by (auto simp: system_ok_def intro: system_inv_relayed)
  next
    case (Dispatch ev s r s' batch evs)
    from d obtain c path s0 s1 where n: "ns_store n = GormDB g" "ns_consumer n = kafka_consumer k c"
        "NewSink o_sink path s0 = (Ok (ns_sink n), s1)" unfolding deployed_def by blast
    from Dispatch(2) have i: "system_inv dec numcol (tables s) (blog s) (sunk s) batch" by (simp add: system_ok_def)
    then have "notify_inv (tables s) (sunk s)" by (simp add: system_inv_def)
    from notifier_env.dispatch_notified [OF node_env [OF n(3), of c] n(1) refl this Dispatch(1)] dispatch_blog [OF n(1,3) Dispatch(1)] i
    show ?case by (auto simp: system_ok_def intro: system_inv_notified)
  qed (auto simp: system_ok_def con kafka_consumer_def dest!: consumer_frames)
qed

lemma reachable_ok:
  assumes "deployed dec g k o_sink routes rl n" and "(system_step dec routes rl n clock)\<^sup>*\<^sup>* x y" and "system_ok x"
  shows "system_ok y"
  using assms(2,3) by (induction rule: rtranclp_induct) (auto intro: step_ok [OF assms(1)])

lemma reachable_inv:
  assumes "deployed dec g k o_sink routes rl n"
    and "db_ok (tables s0)" "tb_orders (tables s0) = []" "tb_outbox (tables s0) = []"
    and "list_all (\<lambda>i. IsSKU (i_SKU i)) (tb_inventory (tables s0))"
    and "(system_step dec routes rl n clock)\<^sup>*\<^sup>* (s0, [], []) (s, batch, polled)"
  shows "system_inv dec numcol (tables s) (blog s) (sunk s) batch"
proof -
  have "system_inv dec numcol (tables s0) (blog s0) (sunk s0) []"
    using assms(2-5) by (simp add: system_inv_def relay_inv_def notify_inv_def snapshot_def)
  then show ?thesis using reachable_ok [OF assms(1,6)] by (simp add: system_ok_def)
qed

end

section \<open>The reference world\<close>

text \<open>The engine only touches its tables and the schedule of its failures.\<close>

lemma mem_side:
  fixes I :: "'z mem_scheme \<Rightarrow> bool"
  assumes "\<And>s. I s \<Longrightarrow> I (s\<lparr>m_faults := tl (m_faults s)\<rparr>)" and "\<And>s T. I s \<Longrightarrow> I (s\<lparr>m_tables := T\<rparr>)"
  shows "side_gorm (mem_engine pg) I"
proof -
  have stmt: "keeps I (mem_stmt f)" for f :: "dec10 tables \<Rightarrow> ('a \<times> dec10 tables) option"
  proof
    fix s assume "I s"
    define s1 where "s1 = s\<lparr>m_faults := tl (m_faults s)\<rparr>"
    have "I s1" unfolding s1_def by (rule assms(1) [OF \<open>I s\<close>])
    with assms(2) show "I (snd (mem_stmt f s))"
      unfolding mem_stmt_def s1_def [symmetric] Let_def by (auto split: option.split)
  qed
  have read: "keeps I (mem_read f)" for f :: "dec10 tables \<Rightarrow> 'a" unfolding mem_read_def by (rule stmt)
  have now: "keeps I (\<lambda>s. mem_stmt (f (m_clock s)) s)" for f :: "time \<Rightarrow> dec10 tables \<Rightarrow> ('a \<times> dec10 tables) option"
    using stmt by (auto simp: keeps_def)
  have tx: "keeps I (mem_tx body)" if "keeps I body" for body
  proof
    fix s assume "I s"
    moreover obtain r s1 where b: "body s = (r, s1)" by fastforce
    ultimately have "I s1" using that keepsD by metis
    with assms show "I (snd (mem_tx body s))" by (cases r) (simp_all add: mem_tx_def b)
  qed
  show ?thesis unfolding side_gorm_def mem_engine_def gorm_ops.simps by (intro conjI allI impI stmt read now tx)
qed

interpretation world: checkout dec10 "mem_engine pg" world_kgo m_tables "mem_numcol pg" "mem_timecol pg" w_log world_sink w_sunk dec10_val
  for pg
proof (intro checkout.intro checkout_axioms.intro world.broker_db_axioms world.notifier_node_axioms dec10.decimal_lib_axioms)
  show "side_gorm (mem_engine pg) (\<lambda>t. w_log t = L \<and> w_sunk t = N)" for L N by (rule mem_side) simp_all
qed (auto simp: world_kgo_def world_produce_def world_poll_def world_sink_def mem_engine_def mem_read_def mem_stmt_def Let_def split: if_splits)

section \<open>Theorems\<close>

text \<open>C1: The outbox pattern works. Starting from a shop without orders, after any interleaving of requests,
  relay and notifier steps, with any failures of the database, the broker and the sink: orders and outbox
  rows correspond one to one and every row carries the event of its order; a row marked as published is in
  the broker's log, a row marked as delivered has its notification in the sink, and the schema holds.\<close>

theorem system_safety:
  assumes "checkout dec g k tables numcol timecol blog o_sink sunk val" and "deployed dec g k o_sink routes rl n"
    and "db_ok (tables s0)" and "tb_orders (tables s0) = []" and "tb_outbox (tables s0) = []"
    and "list_all (\<lambda>i. IsSKU (i_SKU i)) (tb_inventory (tables s0))"
    and "(system_step dec routes rl n clock)\<^sup>*\<^sup>* (s0, [], []) (s, batch, polled)"
  shows "db_ok (tables s) \<and> list_all2 (announced dec numcol) (tb_orders (tables s)) (tb_outbox (tables s)) \<and>
    (\<forall>r \<in> set (tb_outbox (tables s)). (ob_PublishedAt r \<noteq> None \<longrightarrow> row_wire r \<in> set (blog s)) \<and>
       (ob_DeliveredAt r \<noteq> None \<longrightarrow> ob_EventID r \<in> n_EventID ` set (sunk s)))"
  using checkout.reachable_inv [OF assms] by (auto simp: system_inv_def relay_inv_def notify_inv_def)

text \<open>A deployment on the reference world, and the state after a purchase with the right password.\<close>

definition demo_routes :: "world endpoint list" where
  "demo_routes = RegisterHandlers dec10 ''v1'' (\<lambda>_ _. returnS ()) (\<lambda>_. (''ref'', ''uid'', demo_now))
     (NewService dec10 (GormDB (mem_engine False)) (relayer_of demo_relayer) (Authenticate [''secret'' \<mapsto> ''alice'']))"

definition demo_shop :: world where
  "demo_shop = world_with \<lparr>tb_inventory = demo_rows, tb_orders = [], tb_outbox = []\<rparr> []"

definition demo_buy :: "world \<Rightarrow> world" where
  "demo_buy s = snd (snd (ep_Handler (demo_routes ! 5) ((demo_request [''43N23P''])\<lparr>r_Header := [XAuthHeaderKey \<mapsto> ''secret'']\<rparr>) [] (new_writer, s)))"

abbreviation demo_steps :: "world \<times> outbox_item list \<times> dec10 event list \<Rightarrow> world \<times> outbox_item list \<times> dec10 event list \<Rightarrow> bool" where
  "demo_steps \<equiv> (system_step dec10 demo_routes demo_relayer (demo_notifier (terminalSink world_sink)) (\<lambda>_. zero_time))\<^sup>*\<^sup>*"

lemma demo_deployed: "deployed dec10 (mem_engine False) world_kgo world_sink demo_routes demo_relayer (demo_notifier (terminalSink world_sink))"
proof -
  have "valid_stamp (''ref'', ''uid'', demo_now)" by code_simp
  moreover have "utf8_valid ''alice''" by code_simp
  moreover have "NewSink world_sink [] demo_shop = (Ok (terminalSink world_sink), demo_shop)" by (simp add: NewSink_def)
  ultimately show ?thesis
    unfolding deployed_def demo_routes_def
    by (intro conjI exI [of _ "[]"] exI [of _ demo_shop] exI [of _ "[''secret'' \<mapsto> ''alice'']"] exI [of _ "''v1''"]
        exI [of _ "\<lambda>_ _. returnS ()"] exI [of _ "\<lambda>_. (''ref'', ''uid'', demo_now)"])
      (auto simp: demo_relayer_def)
qed

lemma demo_reached: "demo_steps (demo_shop, [], []) (demo_buy demo_shop, [], [])"
proof -
  let ?req = "(demo_request [''43N23P''])\<lparr>r_Header := [XAuthHeaderKey \<mapsto> ''secret'']\<rparr>"
  have "demo_routes ! 5 \<in> set demo_routes" by (simp add: demo_routes_def RegisterHandlers_def Routes_def AddEndpoints_def)
  moreover have "ep_Handler (demo_routes ! 5) ?req [] (new_writer, demo_shop) =
      (fst (ep_Handler (demo_routes ! 5) ?req [] (new_writer, demo_shop)),
       (fst (snd (ep_Handler (demo_routes ! 5) ?req [] (new_writer, demo_shop))), demo_buy demo_shop))"
    by (simp add: demo_buy_def)
  ultimately show ?thesis by (intro r_into_rtranclp system_step.Request)
qed

lemma demo_shop_ok:
  "db_ok (m_tables demo_shop)" "tb_orders (m_tables demo_shop) = []" "tb_outbox (m_tables demo_shop) = []"
  "list_all (\<lambda>i. IsSKU (i_SKU i)) (tb_inventory (m_tables demo_shop))"
  by code_simp+

text \<open>The purchase succeeds, so there is an order to announce.\<close>

lemma Handle_state: "snd (snd (Handle dec h req p (w, s))) = snd (h req p s)"
  by (auto simp: Handle_def on_state_def on_writer_def split: prod.splits res.splits)

definition demo_authenticated :: request where
  "demo_authenticated = (demo_request [''43N23P''])\<lparr>r_Header := [XAuthHeaderKey \<mapsto> ''secret''], r_Context := \<lparr>c_userID = Some ''alice''\<rparr>\<rparr>"

lemma demo_buy_state:
  "demo_buy demo_shop = snd (PurchaseItems_handler dec10 (NewService dec10 (GormDB (mem_engine False)) (relayer_of demo_relayer)
     (Authenticate [''secret'' \<mapsto> ''alice''])) ''ref'' ''uid'' demo_now demo_authenticated [] demo_shop)"
  unfolding demo_buy_def demo_routes_def RegisterHandlers_def Routes_def AddEndpoints_def
  by (simp add: Auth_def Header_Get_def NewService_fields Authenticate_def demo_request_def WithUserID_def Handle_state demo_authenticated_def)

lemma demo_purchase_ok:
  "is_ok (fst (PurchaseItems_handler dec10 (NewService dec10 (GormDB (mem_engine False)) (relayer_of demo_relayer)
     authn) ''ref'' ''uid'' demo_now demo_authenticated [] demo_shop))"
  unfolding NewService_def by code_simp

lemma demo_order:
  "\<exists>ord row. tb_orders (m_tables (demo_buy demo_shop)) = [store_order (mem_numcol False) ord] \<and>
     tb_outbox (m_tables (demo_buy demo_shop)) = [row] \<and> o_Reference ord = ''ref'' \<and> ob_EventID row = ''uid'' \<and> ob_PublishedAt row = None"
proof -
  let ?h = "NewService dec10 (GormDB (mem_engine False)) (relayer_of demo_relayer) (Authenticate [''secret'' \<mapsto> ''alice''])"
  obtain payload where run: "PurchaseItems_handler dec10 ?h ''ref'' ''uid'' demo_now demo_authenticated [] demo_shop = (Ok payload, demo_buy demo_shop)"
    using demo_purchase_ok unfolding demo_buy_state by (metis is_ok_iff prod.collapse)
  show ?thesis
  proof (rule orders_env.PurchaseItems_commit [OF orders_env_GormDB [OF mem.gorm_axioms [of False] dec10.decimal_lib_axioms]
      demo_shop_ok(1) NewService_fields(1,2) run], goal_cases)
    case (1 customer pReq dbItems pl ord row)
    from 1(4) have "o_Reference (pl_order pl) = ''ref''" by (simp add: plan_for_def Let_def)
    moreover have "o_Reference ord = o_Reference (pl_order pl)" by (subst 1(7)) simp
    ultimately show ?case using 1(9,11) demo_shop_ok(2,3)
      by (intro exI [of _ ord] exI [of _ row]) (simp add: after_purchase_def event_row_def)
  qed
qed

theorem system_safety_witness:
  "length (tb_orders (m_tables (demo_buy demo_shop))) = 1 \<and>
   list_all2 (announced dec10 (mem_numcol False)) (tb_orders (m_tables (demo_buy demo_shop))) (tb_outbox (m_tables (demo_buy demo_shop)))"
  using system_safety [OF world.checkout_axioms demo_deployed demo_shop_ok demo_reached] demo_order by auto

text \<open>C32: Stored data is well-formed. In every state the system can reach, each item has a SKU of six letters or
  digits and a quantity that is not negative, and the SKU list of each order decodes to such SKUs.\<close>

theorem stored_data_typed:
  assumes "checkout dec g k tables numcol timecol blog o_sink sunk val" and "deployed dec g k o_sink routes rl n"
    and "db_ok (tables s0)" and "tb_orders (tables s0) = []" and "tb_outbox (tables s0) = []"
    and "list_all (\<lambda>i. IsSKU (i_SKU i)) (tb_inventory (tables s0))"
    and "(system_step dec routes rl n clock)\<^sup>*\<^sup>* (s0, [], []) (s, batch, polled)"
  shows "(\<forall>i \<in> set (tb_inventory (tables s)). IsSKU (i_SKU i) \<and> 0 \<le> i_InventoryQuantity i) \<and>
    (\<forall>x \<in> set (tb_orders (tables s)). \<exists>skus. GetSKUList x = Ok skus \<and> list_all IsSKU (elems skus))"
proof -
  have "\<exists>skus. GetSKUList x = Ok skus \<and> list_all IsSKU (elems skus)" if "order_typed x" for x :: "'a order"
    using that by (auto simp: order_typed_def split: res.splits)
  with checkout.reachable_inv [OF assms] show ?thesis
    by (auto simp: system_inv_def relay_inv_def db_ok_def inventory_ok_def list_all_iff)
qed

theorem stored_data_typed_witness:
  "list_all (\<lambda>x. \<exists>skus. GetSKUList x = Ok skus \<and> list_all IsSKU (elems skus)) (tb_orders (m_tables (demo_buy demo_shop)))"
  using stored_data_typed [OF world.checkout_axioms demo_deployed demo_shop_ok demo_reached]
  unfolding list_all_iff [of _ "tb_orders (m_tables (demo_buy demo_shop))"] by blast

text \<open>C30: Every order reaches the broker. In any state the system can reach, once the database and the broker
  answer, a drain of the relay returns, and the event of every stored order is in the broker's log.\<close>

theorem system_delivery:
  assumes "checkout dec g k tables numcol timecol blog o_sink sunk val" and "deployed dec g k o_sink routes rl n"
    and "reliable_broker dec g k tables numcol timecol blog up"
    and "db_ok (tables s0)" and "tb_orders (tables s0) = []" and "tb_outbox (tables s0) = []"
    and "list_all (\<lambda>i. IsSKU (i_SKU i)) (tb_inventory (tables s0))"
    and "(system_step dec routes rl n clock)\<^sup>*\<^sup>* (s0, [], []) (s, batch, polled)" and "up s"
  shows "\<exists>s'. drain rl clock s = Some (Ok (), s') \<and>
    (\<forall>x \<in> set (tb_orders (tables s)). \<exists>e ord data. x = store_order numcol ord \<and> e_Data e = OrderData ord \<and>
       Encode dec (Some e) = Ok data \<and> (e_Topic e, e_Key e, data) \<in> set (blog s'))"
proof -
  have inv: "relay_inv dec (tables s) (blog s)" "list_all2 (announced dec numcol) (tb_orders (tables s)) (tb_outbox (tables s))"
    using checkout.reachable_inv [OF assms(1,2,4-8)] by (simp_all add: system_inv_def)
  from assms(2) have rl: "or_outboxStore rl = GormDB g" "or_publisher rl = kafka_publisher dec k" by (simp_all add: deployed_def)
  from reliable_broker.GormDB_drain_ships [OF assms(3) rl assms(9) inv(1)] obtain s' where
    s': "drain rl clock s = Some (Ok (), s')" "blog s' = blog s @ map row_wire (backlog (tb_outbox (tables s)))" by blast
  have "row_wire r \<in> set (blog s')" if "r \<in> set (tb_outbox (tables s))" for r
    using that inv(1) s'(2) by (cases "ob_PublishedAt r") (auto simp: relay_inv_def backlog_def)
  moreover have "\<exists>r \<in> set (tb_outbox (tables s)). announced dec numcol x r" if "x \<in> set (tb_orders (tables s))" for x
    by (rule list_all2_target [OF inv(2) that])
  ultimately have "\<exists>e ord data. x = store_order numcol ord \<and> e_Data e = OrderData ord \<and>
       Encode dec (Some e) = Ok data \<and> (e_Topic e, e_Key e, data) \<in> set (blog s')" if "x \<in> set (tb_orders (tables s))" for x
    using that unfolding announced_def announces_def order_event_ok_def row_wire_def by metis
  with s'(1) show ?thesis by blast
qed

lemma demo_keeps:
  assumes "\<And>s. I s \<Longrightarrow> I (s\<lparr>m_faults := tl (m_faults s)\<rparr>)" and "\<And>s T. I s \<Longrightarrow> I (s\<lparr>m_tables := T\<rparr>)" and "I demo_shop"
  shows "I (demo_buy demo_shop)"
proof -
  let ?req = "(demo_request [''43N23P''])\<lparr>r_Header := [XAuthHeaderKey \<mapsto> ''secret'']\<rparr>"
  have side: "side_gorm (mem_engine False) I" by (rule mem_side [OF assms(1,2)])
  have ep: "demo_routes ! 5 \<in> set demo_routes" by (simp add: demo_routes_def RegisterHandlers_def Routes_def AddEndpoints_def)
  have "keeps (\<lambda>ws. I (snd ws)) (ep_Handler (demo_routes ! 5) ?req [])"
    by (rule side_gorm.gorm_routes [OF side NewService_fields(1,2) ep [unfolded demo_routes_def], folded demo_routes_def])
      (simp_all add: relayer_of_def Relayer_Ping_def demo_relayer_def kafka_publisher_def kafka_Ping_def world_kgo_def)
  with assms(3) show ?thesis by (simp add: keeps_def demo_buy_def)
qed

lemma demo_quiet:
  "world_up (demo_buy demo_shop)" "w_log (demo_buy demo_shop) = []" "w_pos (demo_buy demo_shop) = 0" "w_file_faults (demo_buy demo_shop) = []"
  "w_sunk (demo_buy demo_shop) = []"
  by (rule demo_keeps; simp add: world_up_def demo_shop_def world_with_def)+

theorem system_delivery_witness:
  "\<exists>s'. drain demo_relayer (\<lambda>_. zero_time) (demo_buy demo_shop) = Some (Ok (), s') \<and>
    list_all (\<lambda>x. \<exists>e data. Encode dec10 (Some e) = Ok data \<and> (e_Topic e, e_Key e, data) \<in> set (w_log s')) (tb_orders (m_tables (demo_buy demo_shop)))"
proof -
  from system_delivery [OF world.checkout_axioms demo_deployed world.reliable_broker_axioms demo_shop_ok demo_reached demo_quiet(1)]
  show ?thesis unfolding list_all_iff by blast
qed


text \<open>Draining does not move the position of the consumer.\<close>

interpretation side: marking_relay "GormDB (mem_engine pg)" m_tables "mem_timecol pg" dec10 "kafka_publisher dec10 world_kgo"
  "\<lambda>s. [(w_pos s, w_sunk s)]" "\<lambda>_. []" world_live
  for pg
proof (unfold_locales, goal_cases)
  case (1 s q)
  from world.GormDB_claim_up [OF 1, of pg q] show ?case
    by (auto simp: GormDB_def GetOutboxItems_def mem_engine_def mem_read_def mem_stmt_def Let_def split: if_splits)
next
  case (2 s item ev)
  then show ?case
    by (auto simp: shippable_def kafka_publisher_def kafka_Publish_def go_simps world_kgo_def world_produce_def world_live_def world_up_def Let_def)
next
  case (3 s r t)
  from world.GormDB_stamp_up(1) [OF 3, of pg t] obtain s' where
    s': "db_SetPublishedAt (GormDB (mem_engine pg)) (ob_ID r) t s = (Ok (), s')" "world_live s'" by blast
  then have "s' = snd (g_update_outbox (mem_engine pg) [OutboxIdEq (ob_ID r)] PublishedAtCol t s)"
    using strict_update_state by (auto simp: GormDB_def SetPublishedAt_def setOutboxTimestamp_def prod_eq_iff)
  then have "w_pos s' = w_pos s" "w_sunk s' = w_sunk s"
    by (auto simp: mem_engine_def mem_stmt_def Let_def split: option.splits)
  with s' show ?case by simp
qed


end
