(* ===== verification/Metrics.thy ===== *)
theory Metrics
  imports Http
begin

text \<open>
  The metrics of the request observer (\<^verbatim>\<open>httpserver/middleware/metrics.go\<close> and the report of
  \<^verbatim>\<open>httpserver/middleware/middleware.go\<close>): the two collectors with their labels and what one observed
  request adds to them. The Prometheus client is a parameter with its documented laws; the histogram
  uses the client's default buckets, which are not kept.
\<close>

section \<open>Status texts\<close>

text \<open>\<^verbatim>\<open>http.StatusText\<close>: the empty text for a code it does not know.\<close>

definition status_texts :: "(int \<times> string) list" where
  "status_texts =
     [(100, ''Continue''), (101, ''Switching Protocols''), (102, ''Processing''), (103, ''Early Hints''),
      (200, ''OK''), (201, ''Created''), (202, ''Accepted''), (203, ''Non-Authoritative Information''), (204, ''No Content''),
      (205, ''Reset Content''), (206, ''Partial Content''), (207, ''Multi-Status''), (208, ''Already Reported''), (226, ''IM Used''),
      (300, ''Multiple Choices''), (301, ''Moved Permanently''), (302, ''Found''), (303, ''See Other''), (304, ''Not Modified''),
      (305, ''Use Proxy''), (307, ''Temporary Redirect''), (308, ''Permanent Redirect''),
      (400, ''Bad Request''), (401, ''Unauthorized''), (402, ''Payment Required''), (403, ''Forbidden''), (404, ''Not Found''),
      (405, ''Method Not Allowed''), (406, ''Not Acceptable''), (407, ''Proxy Authentication Required''), (408, ''Request Timeout''),
      (409, ''Conflict''), (410, ''Gone''), (411, ''Length Required''), (412, ''Precondition Failed''),
      (413, ''Request Entity Too Large''), (414, ''Request URI Too Long''), (415, ''Unsupported Media Type''),
      (416, ''Requested Range Not Satisfiable''), (417, ''Expectation Failed''), (418, ''I'' @ [CHR 0x27] @ ''m a teapot''),
      (421, ''Misdirected Request''), (422, ''Unprocessable Entity''), (423, ''Locked''), (424, ''Failed Dependency''),
      (425, ''Too Early''), (426, ''Upgrade Required''), (428, ''Precondition Required''), (429, ''Too Many Requests''),
      (431, ''Request Header Fields Too Large''), (451, ''Unavailable For Legal Reasons''),
      (500, ''Internal Server Error''), (501, ''Not Implemented''), (502, ''Bad Gateway''), (503, ''Service Unavailable''),
      (504, ''Gateway Timeout''), (505, ''HTTP Version Not Supported''), (506, ''Variant Also Negotiates''),
      (507, ''Insufficient Storage''), (508, ''Loop Detected''), (510, ''Not Extended''), (511, ''Network Authentication Required'')]"

definition StatusText :: "int \<Rightarrow> string" where
  "StatusText code = (case map_of status_texts code of Some t \<Rightarrow> t | None \<Rightarrow> [])"

section \<open>Collectors\<close>

datatype collector_kind = Histogram | Counter

record collector =
  co_kind :: collector_kind
  co_Name :: string
  co_Help :: string
  co_labels :: "string list"

definition RequestDuration :: collector where
  "RequestDuration =
     \<lparr>co_kind = Histogram, co_Name = ''http_request_duration_seconds'', co_Help = ''Duration of HTTP requests in seconds'',
      co_labels = [''method'', ''path'', ''status_code'']\<rparr>"

definition RequestCount :: collector where
  "RequestCount =
     \<lparr>co_kind = Counter, co_Name = ''http_request_count_total'', co_Help = ''Total number of HTTP requests'',
      co_labels = [''method'', ''path'', ''status_code'']\<rparr>"

text \<open>The client: observing a duration (in nanoseconds) and incrementing, at label values.\<close>

record 'p prom_ops =
  pm_Observe :: "collector \<Rightarrow> string list \<Rightarrow> int \<Rightarrow> ('p, unit) io"
  pm_Inc :: "collector \<Rightarrow> string list \<Rightarrow> ('p, unit) io"

definition label_values :: "observation \<Rightarrow> string list" where
  "label_values obs = [obs_method obs, obs_path obs, StatusText (obs_code obs)]"

definition report :: "'p prom_ops \<Rightarrow> int \<times> observation \<Rightarrow> ('p, unit) io" where
  "report P = (\<lambda>(elapsed, obs).
     bindS (pm_Observe P RequestDuration (label_values obs) elapsed) (\<lambda>_. pm_Inc P RequestCount (label_values obs)))"

fun report_all :: "'p prom_ops \<Rightarrow> (int \<times> observation) list \<Rightarrow> ('p, unit) io" where
  "report_all P [] = returnS ()"
| "report_all P (x # xs) = bindS (report P x) (\<lambda>_. report_all P xs)"

section \<open>Laws of the client\<close>

text \<open>
  A call with as many values as the collector has labels does not panic; an increment adds one to
  its own series; a histogram counts its observations. \<open>total\<close> is the counter or the number of
  observations of a series.
\<close>

locale prom_lib =
  fixes P :: "'p prom_ops" and total :: "'p \<Rightarrow> string \<Rightarrow> string list \<Rightarrow> nat"
  assumes inc: "length ls = length (co_labels c) \<Longrightarrow>
      \<exists>p'. pm_Inc P c ls p = (Ok (), p') \<and>
        (\<forall>n ms. total p' n ms = total p n ms + (if n = co_Name c \<and> ms = ls then 1 else 0))"
    and observe: "length ls = length (co_labels c) \<Longrightarrow>
      \<exists>p'. pm_Observe P c ls d p = (Ok (), p') \<and>
        (\<forall>n ms. total p' n ms = total p n ms + (if n = co_Name c \<and> ms = ls then 1 else 0))"
begin

lemma report_total:
  "\<exists>p'. report P x p = (Ok (), p') \<and> (\<forall>n ms. total p' n ms = total p n ms +
     (if n \<in> {co_Name RequestDuration, co_Name RequestCount} \<and> ms = label_values (snd x) then 1 else 0))"
proof -
  have l: "length (label_values (snd x)) = length (co_labels RequestDuration)" "length (label_values (snd x)) = length (co_labels RequestCount)"
    by (simp_all add: label_values_def RequestDuration_def RequestCount_def)
  have n: "co_Name RequestDuration \<noteq> co_Name RequestCount" by (simp add: RequestDuration_def RequestCount_def)
  obtain p1 where p1: "pm_Observe P RequestDuration (label_values (snd x)) (fst x) p = (Ok (), p1)"
      "\<And>n ms. total p1 n ms = total p n ms + (if n = co_Name RequestDuration \<and> ms = label_values (snd x) then 1 else 0)"
    using observe [OF l(1), of "fst x" p] by blast
  obtain p2 where p2: "pm_Inc P RequestCount (label_values (snd x)) p1 = (Ok (), p2)"
      "\<And>n ms. total p2 n ms = total p1 n ms + (if n = co_Name RequestCount \<and> ms = label_values (snd x) then 1 else 0)"
    using inc [OF l(2), of p1] by blast
  show ?thesis using p1(1) p2(1) n by (auto simp: report_def bindS_def case_prod_beta p1(2) p2(2))
qed

text \<open>Reporting never panics, and each of the two collectors counts the requests of every series.\<close>

lemma reports_counted:
  "\<exists>p'. report_all P xs p = (Ok (), p') \<and> (\<forall>ms. \<forall>c \<in> {RequestDuration, RequestCount}.
     total p' (co_Name c) ms = total p (co_Name c) ms + length (filter (\<lambda>x. label_values (snd x) = ms) xs))"
proof (induction xs arbitrary: p)
  case Nil
  then show ?case by simp
next
  case (Cons x xs)
  obtain p1 where p1: "report P x p = (Ok (), p1)" "\<And>n ms. total p1 n ms = total p n ms +
      (if n \<in> {co_Name RequestDuration, co_Name RequestCount} \<and> ms = label_values (snd x) then 1 else 0)"
    using report_total [of x p] by blast
  with Cons.IH [of p1] show ?case by (auto simp: bindS_def)
qed

end

section \<open>An instance of the client\<close>

type_synonym series = "string \<Rightarrow> string list \<Rightarrow> nat"

definition add_one :: "collector \<Rightarrow> string list \<Rightarrow> (series, unit) io" where
  "add_one c ls p =
     (if length ls = length (co_labels c)
      then (Ok (), \<lambda>n ms. p n ms + (if n = co_Name c \<and> ms = ls then 1 else 0)) else (Panic, p))"

definition series_ops :: "series prom_ops" where
  "series_ops = \<lparr>pm_Observe = (\<lambda>c ls _. add_one c ls), pm_Inc = add_one\<rparr>"

interpretation series: prom_lib series_ops "\<lambda>p. p"
  by unfold_locales (simp_all add: series_ops_def add_one_def)

end
