(* ===== verification/Spec2Isabelle.thy ===== *)
theory Spec2Isabelle
  imports Stack System Metrics
begin

text \<open>
  A verification of \<^verbatim>\<open>checkout\<close>, a shop of two services with a transactional outbox.

  \<^bold>\<open>The program.\<close> The orders service keeps an inventory and orders in a relational database and
  serves them over HTTP. A purchase stores the new stock, the order and an outbox row with the
  event of the order in one transaction; a relay, a loop of the orders service, publishes the rows to a
  broker and marks them. The notifier, another service on the same database, consumes the events, writes a
  notification to a sink, and marks the rows as delivered. Both services run in a node: an HTTP server with probes,
  authentication and a background loop that is started and joined with it. A client library and a health
  command talk to the nodes.

  \<^bold>\<open>Conventions.\<close> Calls that may fail return \<open>Ok\<close>, \<open>Fail\<close> with an error, or \<open>Panic\<close> (type \<open>res\<close>); calls with
  effects are functions from a state to a result and a state (type \<open>io\<close>), composed by \<open>bindS\<close>. The state is a type
  variable; what the code reads off it (the tables, the broker's log, the sink) are functions of it. A call that may not return
  is a \<^theory_text>\<open>partial_function\<close> into \<open>option\<close>, and \<open>None\<close> is divergence. Errors keep their wrapping, as
  \<^verbatim>\<open>errors.Is\<close> inspects it. Strings are bytes. Goroutines are interleaved by step relations.
  Third-party code is a parameter: the decimal library (\<open>decimal_ops\<close>, locale \<open>decimal_lib\<close>), GORM and the SQL engine
  (\<open>gorm_ops\<close>, locale \<open>gorm\<close>), franz-go (\<open>kgo_ops\<close>, locale \<open>kgo\<close>), viper (\<open>viper_ops\<close>, locale \<open>viper_lib\<close>), testcontainers (\<open>docker_ops\<close>, locale
  \<open>docker_lib\<close>), the Prometheus client (\<open>prom_ops\<close>, locale \<open>prom_lib\<close>), URL parsing and the HTTP transport, the operating system
  (\<open>node_env\<close>), the router, the metrics page,
  and the selection of a command from the arguments (cobra). Each interface with laws is instantiated by an executable
  reference (\<open>dec10\<close>, \<open>mem_engine\<close>, \<open>world_kgo\<close>, \<open>world_sink\<close>, \<open>vstate_ops\<close>, \<open>fleet_ops\<close>, \<open>series_ops\<close>), on which the witnesses run.

  \<^bold>\<open>Theories and sources\<close> (paths under \<^verbatim>\<open>src/\<close>).
  \<^item> \<open>Prelude\<close>: results, errors (\<^verbatim>\<open>errors/errors.go\<close>), stateful calls, the predicate \<open>keeps\<close> for invariants of calls,
    and the collections \<open>go_simps\<close> and \<open>keeps_intros\<close>.
  \<^item> \<open>Go_Json\<close>, \<open>Go_Raw\<close>, \<open>Go_Struct\<close>, \<open>Go_Time\<close>, \<open>Go_Float\<close>: \<^verbatim>\<open>encoding/json\<close> and \<^verbatim>\<open>time\<close> as far as they are used: printing and
    parsing of JSON with its escapes and UTF-8, raw messages, structs, RFC 3339, shortest doubles. The parsers use
    fuel, the length of the text, which the round-trip lemmas show to be enough for every printed text.
  \<^item> \<open>Money\<close>: binary64 rounding and the contract of the decimal library.
  \<^item> \<open>Model\<close>, \<open>Event\<close>: \<^verbatim>\<open>model/\<close> and \<^verbatim>\<open>event/\<close> with their validation and codecs.
  \<^item> \<open>Database\<close>, \<open>Store\<close>, \<open>Mem_Engine\<close>: \<^verbatim>\<open>database/database.go\<close> over GORM, opened on the connection strings of
    \<^verbatim>\<open>database/sqlite.go\<close> and \<^verbatim>\<open>database/postgres.go\<close>; the contracts of the interfaces of
    \<^verbatim>\<open>database/store.go\<close> as locales, met by \<open>GormDB\<close> over every engine that satisfies \<open>gorm\<close>; an engine in memory with
    scheduled failures.
  \<^item> \<open>Promotions\<close>: \<^verbatim>\<open>promotions/\<close>, with the contract of a promotion as a locale.
  \<^item> \<open>Http\<close>: \<^verbatim>\<open>httpserver/\<close> (responses, adapter, probes, routes), \<^verbatim>\<open>httpserver/middleware\<close> and \<^verbatim>\<open>services/auth\<close>.
  \<^item> \<open>Metrics\<close>: \<^verbatim>\<open>httpserver/middleware/metrics.go\<close> and the report of the observer.
  \<^item> \<open>Orders\<close>, \<open>Purchase\<close>, \<open>Catalog\<close>: \<^verbatim>\<open>services/orders/\<close>: the handlers, and what they do.
  \<^item> \<open>Worker\<close>: \<^verbatim>\<open>services/worker\<close>, with the interleaving of caller and loops.
  \<^item> \<open>Messaging\<close>, \<open>Relay\<close>: \<^verbatim>\<open>messaging/\<close> and \<^verbatim>\<open>services/orders/relay.go\<close>.
  \<^item> \<open>Notifier\<close>: \<^verbatim>\<open>services/notifier/\<close>.
  \<^item> \<open>Server\<close>: the life cycle of \<^verbatim>\<open>httpserver/server.go\<close> around \<^verbatim>\<open>services/service.go\<close>.
  \<^item> \<open>Logging\<close>, \<open>Wiring\<close>: \<^verbatim>\<open>cmd/logging.go\<close>, \<^verbatim>\<open>cmd/version.go\<close>, \<^verbatim>\<open>constants/\<close>; flags, configuration and the service commands.
  \<^item> \<open>Client\<close>: \<^verbatim>\<open>client/client.go\<close> and the probe of \<^verbatim>\<open>cmd/health.go\<close>.
  \<^item> \<open>Commands\<close>: \<^verbatim>\<open>main.go\<close>, \<^verbatim>\<open>cmd/cmd.go\<close>, \<^verbatim>\<open>cmd/run.go\<close> and the constructors of the commands: the tree, the flag sets,
    their binding to the process-wide registry and the environment, the exit status.
  \<^item> \<open>Stack\<close>: \<^verbatim>\<open>integration/stack\<close>: the containers of the integration tests, their configuration, clean-up and test data.
  \<^item> \<open>System\<close>: the nodes together, as one step relation.

  \<^bold>\<open>What is shown.\<close>
  \<^item> The system: under any interleaving and any failures, orders and outbox rows correspond one to one, a published row
    is in the broker's log and a delivered row in the sink; when database and broker answer, every order reaches
    the log, and when the notifier polls what was appended, each of these orders is notified once; stored data stays well-formed.
  \<^item> Purchases: atomicity, price, stock, the exact stock condition, and where they depart from their documentation (the
    panic on an unknown SKU, the stock check, lost updates).
  \<^item> The catalogue: adding and pricing items on every branch, private order histories, and that no route writes
    without an accepted password.
  \<^item> Relay and notifier: nothing is marked before it was sent; the relay empties the outbox when broker and
    database answer; without a broker it marks rows that were never sent; a drain that meets an unreachable broker with a full
    batch does not return. The notifier writes and marks exactly what it polls when sink and database answer; a failed
    notification is not retried.
  \<^item> Runners and servers: which interleavings of start and stop join the loops, and which do not.
  \<^item> Data: events, orders and the client's view of them survive their encodings; \<open>GormDB\<close> refines the contracts.
  \<^item> Start-up: which database is opened and when it is emptied; which settings a service command runs with, where the flags of
    the orders command turn out to have no effect; the password guard; logging and build stamps.
  \<^item> The test stack: its services are configured for each other, and what it starts is cleaned up.

  \<^bold>\<open>Assumptions worth knowing.\<close> Handlers run to their end between the steps of the loops; the overlap of two purchases is
  treated on its own in \<open>Purchase\<close>. The engine is assumed to enforce the constraints of the schema and to run
  transactions with the isolation its default gives single statements. Identifiers and references a purchase draws are
  arguments, assumed non-empty and valid UTF-8 where events are concerned. Integers of Go (\<^verbatim>\<open>int\<close>) are mathematical
  integers; identifiers are kept in 64 bits where JSON reads them back.

  \<^bold>\<open>Not modelled.\<close> The generated mocks (\<^verbatim>\<open>*/mock/\<close>), which hold no logic of the program; the parsing of
  arguments by cobra; the Prometheus client behind the collectors; the
  matching of paths by the router; log output other than through the colouring writer; deadlines.
\<close>

end
